(* ===== verification/Prelude.thy ===== *)
theory Prelude
  imports Main "HOL-Library.Word" "HOL-Library.AList"
begin

text \<open>
  What every component of the development shares: the collections that carry the
  automation, the shape of an operation's outcome, the reading of an SQL query as a
  filter over a table, and the facts on bit masks (Python's unbounded \<^typ>\<open>int\<close>) that the
  permission code rests on.
\<close>

unbundle bit_operations_syntax

subsection \<open>Collections\<close>

text \<open>
  \<open>op_defs\<close> holds the definitions of the operations of a component (unfolded when a
  branch is proved), \<open>frame\<close> the facts that an operation leaves a part of the state as it
  was, \<open>mask_simps\<close> the bitwise reading of mask expressions.
\<close>

named_theorems op_defs "definitions of operations"
named_theorems frame "parts of the state an operation does not write"
named_theorems mask_simps "bitwise reading of mask expressions"

subsection \<open>Outcomes\<close>

text \<open>
  An operation that may raise returns \<open>Inl\<close> the exception or \<open>Inr\<close> its value, next to the
  state it leaves behind: what was committed before the exception stays committed.
\<close>

type_synonym ('e, 'a, 's) outcome = "('e + 'a) \<times> 's"

abbreviation returns :: "('e, 'a, 's) outcome \<Rightarrow> bool" where
  "returns r \<equiv> \<not> isl (fst r)"

abbreviation raises :: "('e, 'a, 's) outcome \<Rightarrow> 'e \<Rightarrow> bool" where
  "raises r e \<equiv> fst r = Inl e"

lemma returns_iff: "returns r \<longleftrightarrow> (\<exists>x. fst r = Inr x)"
  by (cases "fst r") auto

subsection \<open>Tables\<close>

text \<open>
  \<open>select(T).where(P)\<close> keeps the rows of the table in its order; \<open>db.scalar\<close> is the first
  of them or None, which is \<^const>\<open>List.find\<close>; \<open>offset\<close> and \<open>limit\<close> cut a page out of the
  rows.
\<close>

definition page :: "nat \<Rightarrow> nat \<Rightarrow> 'a list \<Rightarrow> 'a list" where
  "page skip limit xs = take limit (drop skip xs)"

lemma set_page: "set (page skip limit xs) \<subseteq> set xs"
  by (metis page_def set_drop_subset set_take_subset subset_trans)

lemma length_page: "length (page skip limit xs) \<le> limit"
  by (simp add: page_def)

lemma find_SomeD: "List.find P xs = Some x \<Longrightarrow> x \<in> set xs \<and> P x"
  by (auto simp: find_Some_iff)

lemma find_None_iff': "List.find P xs = None \<longleftrightarrow> (\<forall>x \<in> set xs. \<not> P x)"
  by (auto simp: find_None_iff)

lemma find_unique:
  assumes "distinct (map f xs)" and "x \<in> set xs"
  shows "List.find (\<lambda>y. f y = f x) xs = Some x"
proof (cases "List.find (\<lambda>y. f y = f x) xs")
  case None
  with assms(2) show ?thesis by (auto simp: find_None_iff)
next
  case (Some y)
  then have "y \<in> set xs" and "f y = f x" by (auto dest: find_SomeD)
  with assms have "y = x" by (metis inj_onD distinct_map)
  with Some show ?thesis by simp
qed

lemma find_append: "List.find P (xs @ ys) = (case List.find P xs of None \<Rightarrow> List.find P ys | Some x \<Rightarrow> Some x)"
  by (induction xs) auto

lemma find_cong_ex: "(\<exists>x. List.find P xs = Some x) \<longleftrightarrow> (\<exists>x \<in> set xs. P x)"
  by (metis find_None_iff' find_SomeD not_Some_eq)

lemma find_map_key:
  assumes "\<And>x. f (g x) = f x"
  shows "List.find (\<lambda>y. f y = k) (map g xs) = map_option g (List.find (\<lambda>y. f y = k) xs)"
  by (induction xs) (auto simp: assms)

subsection \<open>Masks\<close>

text \<open>\<open>1 << bit\<close> on a Python integer.\<close>

definition bit1 :: "nat \<Rightarrow> int" where
  "bit1 n = push_bit n 1"

lemma bit_bit1 [mask_simps]: "bit (bit1 n) k \<longleftrightarrow> k = n"
  by (auto simp: bit1_def bit_simps)

lemma bit1_nonneg [simp]: "0 \<le> bit1 n"
  by (simp add: bit1_def)

lemma bit1_less: "n < m \<Longrightarrow> bit1 n < 2 ^ m"
  by (simp add: bit1_def push_bit_eq_mult)

text \<open>\<open>mask & (1 << bit)\<close> is truthy exactly when the bit is set.\<close>

lemma and_bit1_nonzero [mask_simps]: "m AND bit1 n \<noteq> 0 \<longleftrightarrow> bit m n"
  by (simp add: bit1_def bit_iff_and_push_bit_not_eq_0)

text \<open>\<open>a & ~b\<close> is zero exactly when every bit of \<open>a\<close> is a bit of \<open>b\<close>.\<close>

definition mask_subset :: "int \<Rightarrow> int \<Rightarrow> bool" where
  "mask_subset a b \<longleftrightarrow> (\<forall>n. bit a n \<longrightarrow> bit b n)"

lemma and_not_zero_iff [mask_simps]: "a AND NOT b = 0 \<longleftrightarrow> mask_subset a b" for a b :: int
  by (auto simp: mask_subset_def bit_eq_iff bit_simps)

lemma mask_subset_refl [simp]: "mask_subset a a"
  by (simp add: mask_subset_def)

lemma mask_subset_trans: "mask_subset a b \<Longrightarrow> mask_subset b c \<Longrightarrow> mask_subset a c"
  by (simp add: mask_subset_def)

lemma mask_subset_and [simp]: "mask_subset a (b AND c) \<longleftrightarrow> mask_subset a b \<and> mask_subset a c"
  by (auto simp: mask_subset_def bit_simps)

lemma mask_subset_or [simp]: "mask_subset (a OR b) c \<longleftrightarrow> mask_subset a c \<and> mask_subset b c"
  by (auto simp: mask_subset_def bit_simps)

lemma mask_subset_and_left [simp]: "mask_subset (a AND b) a" "mask_subset (a AND b) b"
  by (auto simp: mask_subset_def bit_simps)

lemma mask_subset_zero [simp]: "mask_subset 0 a"
  by (simp add: mask_subset_def)

text \<open>The OR of the bits of a list of positions: what every \<open>mask |= 1 << bit\<close> loop computes.\<close>

definition or_bits :: "nat list \<Rightarrow> int" where
  "or_bits ns = fold (\<lambda>n m. m OR bit1 n) ns 0"

lemma fold_or_bit: "bit (fold (\<lambda>n m. m OR bit1 n) ns m) k \<longleftrightarrow> bit m k \<or> k \<in> set ns"
  by (induction ns arbitrary: m) (auto simp: bit_or_iff bit_bit1)

lemma bit_or_bits [mask_simps]: "bit (or_bits ns) k \<longleftrightarrow> k \<in> set ns"
  by (simp add: or_bits_def fold_or_bit)

lemma fold_or_nonneg: "0 \<le> m \<Longrightarrow> 0 \<le> fold (\<lambda>n m. m OR bit1 n) ns m"
  by (induction ns arbitrary: m) auto

lemma or_bits_nonneg [simp]: "0 \<le> or_bits ns"
  by (simp add: or_bits_def fold_or_nonneg)

lemma or_bits_cong: "set ns = set ms \<Longrightarrow> or_bits ns = or_bits ms"
  by (simp add: bit_eq_iff bit_or_bits)

lemma or_less_exp:
  fixes a b :: int
  assumes "0 \<le> a" "a < 2 ^ n" "0 \<le> b" "b < 2 ^ n"
  shows "a OR b < 2 ^ n"
  using assms by (simp add: OR_upper)

lemma fold_or_less:
  assumes "\<forall>n \<in> set ns. n < k" and "0 \<le> m" and "m < 2 ^ k"
  shows "fold (\<lambda>n m. m OR bit1 n) ns m < 2 ^ k"
  using assms
proof (induction ns arbitrary: m)
  case (Cons a ns)
  then have "m OR bit1 a < 2 ^ k" by (intro or_less_exp) (auto intro: bit1_less)
  with Cons show ?case by simp
qed simp

lemma or_bits_less: "\<forall>n \<in> set ns. n < k \<Longrightarrow> or_bits ns < 2 ^ k"
  by (simp add: or_bits_def fold_or_less)

lemma and_nonneg_left: "0 \<le> a \<Longrightarrow> 0 \<le> a AND b" for a b :: int
  by simp

lemma and_less_left: "0 \<le> a \<Longrightarrow> a < 2 ^ n \<Longrightarrow> a AND b < 2 ^ n" for a b :: int
  by (meson AND_upper1 order.strict_trans1)

lemma and_less_right: "0 \<le> b \<Longrightarrow> b < 2 ^ n \<Longrightarrow> a AND b < 2 ^ n" for a b :: int
  by (meson AND_upper2 order.strict_trans1)

end
