(* ===== verification/PyValues.thy ===== *)
theory PyValues
  imports Prelude
begin

text \<open>
  The values of Python's standard library the code stores and compares: \<open>bytes\<close> with its
  big-endian integer and hexadecimal forms, the decimal form of an \<open>int\<close>, and
  \<open>uuid.UUID\<close> with its canonical text. The round trips proved here are what the mask codec
  and the authorization cache rest on.
\<close>

type_synonym byte = "8 word"

subsection \<open>Big-endian bytes\<close>

text \<open>The digits of \<open>v\<close> in base 256, \<open>n\<close> of them, most significant first.\<close>

fun be_bytes :: "nat \<Rightarrow> int \<Rightarrow> byte list" where
  "be_bytes 0 v = []"
| "be_bytes (Suc n) v = be_bytes n (v div 256) @ [word_of_int v]"

definition from_be :: "byte list \<Rightarrow> int" where
  "from_be bs = foldl (\<lambda>acc b. acc * 256 + uint b) 0 bs"

lemma from_be_Nil [simp]: "from_be [] = 0"
  by (simp add: from_be_def)

lemma from_be_snoc [simp]: "from_be (bs @ [b]) = from_be bs * 256 + uint b"
  by (simp add: from_be_def)

lemma length_be_bytes [simp]: "length (be_bytes n v) = n"
  by (induction n arbitrary: v) auto

lemma byte_256 [simp]: "(256 :: byte) = 0"
  by simp

lemma uint_word_of_int_byte: "uint (word_of_int v :: byte) = v mod 256"
  by (simp add: unsigned_of_int take_bit_eq_mod)

lemma from_be_be_bytes: "from_be (be_bytes n v) = v mod 256 ^ n"
proof (induction n arbitrary: v)
  case (Suc n)
  have "v mod (256 * 256 ^ n) = 256 * (v div 256 mod 256 ^ n) + v mod 256"
    by (rule zmod_zmult2_eq) simp
  then show ?case by (simp add: Suc uint_word_of_int_byte mult.commute)
qed simp

lemma from_be_nonneg [simp]: "0 \<le> from_be bs"
  by (induction bs rule: rev_induct) auto

lemma from_be_less: "from_be bs < 256 ^ length bs"
proof (induction bs rule: rev_induct)
  case (snoc b bs)
  have "uint b < 256" using uint_lt2p [of b] by simp
  with snoc show ?case by simp
qed simp

lemma be_bytes_from_be: "be_bytes (length bs) (from_be bs) = bs"
proof (induction bs rule: rev_induct)
  case (snoc b bs)
  have b: "0 \<le> uint b" "uint b < 256" using uint_lt2p [of b] by auto
  then have "(from_be bs * 256 + uint b) div 256 = from_be bs" by simp
  moreover have "word_of_int (from_be bs * 256 + uint b) = b" by (simp add: byte_256)
  ultimately show ?case using snoc by simp
qed simp

subsection \<open>Hexadecimal digits\<close>

definition hexdig :: "nat \<Rightarrow> char" where
  "hexdig d = ''0123456789abcdef'' ! d"

definition hexval :: "char \<Rightarrow> nat option" where
  "hexval c = (let n = of_char c :: nat in
     if 48 \<le> n \<and> n \<le> 57 then Some (n - 48)
     else if 97 \<le> n \<and> n \<le> 102 then Some (n - 87)
     else if 65 \<le> n \<and> n \<le> 70 then Some (n - 55)
     else None)"

lemma less16_cases:
  "d < 16 \<Longrightarrow> d \<in> {0, 1, 2, 3, 4, 5, 6, 7, 8, 9, 10, 11, 12, 13, 14, 15 :: nat}"
  by (auto simp: numeral_eq_Suc less_Suc_eq)

lemma hexval_hexdig [simp]: "d < 16 \<Longrightarrow> hexval (hexdig d) = Some d"
  by (drule less16_cases) (auto simp: hexval_def hexdig_def)

lemma hexdig_not_dash [simp]: "d < 16 \<Longrightarrow> hexdig d \<noteq> CHR ''-''"
  by (drule less16_cases) (auto simp: hexdig_def)

text \<open>\<open>bytes.hex()\<close>: two lower-case digits for each byte.\<close>

definition byte_hex :: "byte \<Rightarrow> string" where
  "byte_hex b = [hexdig (unat b div 16), hexdig (unat b mod 16)]"

definition bytes_hex :: "byte list \<Rightarrow> string" where
  "bytes_hex bs = concat (map byte_hex bs)"

lemma unat_byte_less: "unat (b :: byte) < 256"
  using unsigned_less [of b] by simp

lemma unat_byte_bounds [simp]: "unat (b :: byte) div 16 < 16" "unat (b :: byte) mod 16 < 16"
  using unat_byte_less [of b] by auto

lemma length_bytes_hex [simp]: "length (bytes_hex bs) = 2 * length bs"
  by (induction bs) (auto simp: bytes_hex_def byte_hex_def)

lemma bytes_hex_Nil [simp]: "bytes_hex [] = []"
  and bytes_hex_Cons [simp]: "bytes_hex (b # bs) = byte_hex b @ bytes_hex bs"
  and bytes_hex_append [simp]: "bytes_hex (bs @ cs) = bytes_hex bs @ bytes_hex cs"
  by (auto simp: bytes_hex_def)

lemma bytes_hex_no_dash: "CHR ''-'' \<notin> set (bytes_hex bs)"
proof (induction bs)
  case (Cons b bs)
  have "CHR ''-'' \<noteq> hexdig (unat b div 16)" "CHR ''-'' \<noteq> hexdig (unat b mod 16)"
    by (metis hexdig_not_dash unat_byte_bounds)+
  with Cons show ?case by (auto simp: byte_hex_def)
qed simp

text \<open>
  \<open>bytes.fromhex\<close>: ASCII white space is skipped before a pair of digits, not inside it;
  anything else that is not a pair of digits raises ValueError (here None).
\<close>

definition is_space :: "char \<Rightarrow> bool" where
  "is_space c \<longleftrightarrow> (let n = of_char c :: nat in n = 32 \<or> (9 \<le> n \<and> n \<le> 13))"

fun bytes_fromhex :: "string \<Rightarrow> byte list option" where
  "bytes_fromhex [] = Some []"
| "bytes_fromhex [c] = (if is_space c then Some [] else None)"
| "bytes_fromhex (c # d # cs) =
     (if is_space c then bytes_fromhex (d # cs)
      else case hexval c of None \<Rightarrow> None
           | Some h \<Rightarrow> (case hexval d of None \<Rightarrow> None
             | Some l \<Rightarrow> map_option (Cons (of_nat (16 * h + l))) (bytes_fromhex cs)))"

lemma hexdig_not_is_space [simp]: "d < 16 \<Longrightarrow> \<not> is_space (hexdig d)"
  by (drule less16_cases) (auto simp: is_space_def hexdig_def)

lemma byte_of_digits: "of_nat (16 * (unat b div 16) + unat b mod 16) = (b :: byte)"
  by simp

lemma bytes_fromhex_hex: "bytes_fromhex (bytes_hex bs) = Some bs"
  by (induction bs) (simp_all add: byte_hex_def del: of_nat_add of_nat_mult)

subsection \<open>Decimal numbers\<close>

definition decdig :: "nat \<Rightarrow> char" where
  "decdig d = ''0123456789'' ! d"

definition decval :: "char \<Rightarrow> nat option" where
  "decval c = (let n = of_char c :: nat in if 48 \<le> n \<and> n \<le> 57 then Some (n - 48) else None)"

lemma decval_decdig [simp]: "d < 10 \<Longrightarrow> decval (decdig d) = Some d"
  by (auto simp: decval_def decdig_def eval_nat_numeral less_Suc_eq)

fun dec_nat :: "nat \<Rightarrow> string" where
  "dec_nat n = (if n < 10 then [decdig n] else dec_nat (n div 10) @ [decdig (n mod 10)])"

declare dec_nat.simps [simp del]

text \<open>\<open>str(i)\<close> of an integer.\<close>

definition str_int :: "int \<Rightarrow> string" where
  "str_int i = (if i < 0 then CHR ''-'' # dec_nat (nat (- i)) else dec_nat (nat i))"

fun dec_val :: "nat \<Rightarrow> string \<Rightarrow> nat option" where
  "dec_val acc [] = Some acc"
| "dec_val acc (c # cs) = (case decval c of None \<Rightarrow> None | Some d \<Rightarrow> dec_val (10 * acc + d) cs)"

text \<open>\<open>int(s)\<close> on an optional minus sign and digits, the forms \<open>str\<close> writes.\<close>

definition parse_int :: "string \<Rightarrow> int option" where
  "parse_int s = (case s of [] \<Rightarrow> None
     | c # cs \<Rightarrow> if c = CHR ''-'' then (if cs = [] then None else map_option (\<lambda>n. - int n) (dec_val 0 cs))
                else map_option int (dec_val 0 s))"

lemma dec_val_append: "dec_val acc (xs @ ys) = (case dec_val acc xs of None \<Rightarrow> None | Some a \<Rightarrow> dec_val a ys)"
  by (induction acc xs rule: dec_val.induct) (auto split: option.splits)

lemma dec_val_dec_nat: "dec_val 0 (dec_nat n) = Some n"
proof (induction n rule: dec_nat.induct)
  case (1 n)
  then show ?case by (subst dec_nat.simps) (auto simp: dec_val_append)
qed

lemma dec_nat_nonempty [simp]: "dec_nat n \<noteq> []"
  by (subst dec_nat.simps) simp

lemma hd_dec_nat: "hd (dec_nat n) \<noteq> CHR ''-''"
proof -
  have "decval (hd (dec_nat n)) \<noteq> None"
    using dec_val_dec_nat [of n] by (cases "dec_nat n") (auto split: option.splits)
  then show ?thesis by (auto simp: decval_def)
qed

lemma parse_int_str_int: "parse_int (str_int i) = Some i"
proof (cases "dec_nat (nat i)")
  case (Cons c cs)
  with hd_dec_nat [of "nat i"] dec_val_dec_nat [of "nat i"] dec_val_dec_nat [of "nat (- i)"]
  show ?thesis by (auto simp: parse_int_def str_int_def)
qed simp

subsection \<open>UUIDs\<close>

text \<open>
  A \<open>uuid.UUID\<close> is its 128-bit \<open>.int\<close>, on which it is compared and hashed; \<open>str\<close> writes the
  32 hexadecimal digits in groups of 8, 4, 4, 4 and 12. \<open>uuid.UUID(s)\<close> drops the dashes
  and reads exactly 32 digits. (Its other spellings, with braces or a \<open>urn:\<close> prefix, are
  never written by the code.)
\<close>

type_synonym uuid = "128 word"

definition uuid_hex :: "uuid \<Rightarrow> string" where
  "uuid_hex u = bytes_hex (be_bytes 16 (uint u))"

definition uuid_str :: "uuid \<Rightarrow> string" where
  "uuid_str u = (let h = uuid_hex u in
     take 8 h @ ''-'' @ take 4 (drop 8 h) @ ''-'' @ take 4 (drop 12 h) @ ''-'' @
     take 4 (drop 16 h) @ ''-'' @ drop 20 h)"

fun hex_pairs :: "string \<Rightarrow> byte list option" where
  "hex_pairs [] = Some []"
| "hex_pairs [c] = None"
| "hex_pairs (c # d # cs) =
     (case hexval c of None \<Rightarrow> None
      | Some h \<Rightarrow> (case hexval d of None \<Rightarrow> None
        | Some l \<Rightarrow> map_option (Cons (of_nat (16 * h + l))) (hex_pairs cs)))"

definition uuid_parse :: "string \<Rightarrow> uuid option" where
  "uuid_parse s = (let h = filter (\<lambda>c. c \<noteq> CHR ''-'') s in
     if length h = 32 then map_option (\<lambda>bs. word_of_int (from_be bs)) (hex_pairs h) else None)"

lemma hex_pairs_hex: "hex_pairs (bytes_hex bs) = Some bs"
  by (induction bs) (simp_all add: byte_hex_def del: of_nat_add of_nat_mult)

lemma length_uuid_hex [simp]: "length (uuid_hex u) = 32"
  by (simp add: uuid_hex_def)

lemma filter_dash_uuid_hex:
  "set xs \<subseteq> set (uuid_hex u) \<Longrightarrow> filter (\<lambda>c. c \<noteq> CHR ''-'') xs = xs"
  using bytes_hex_no_dash [of "be_bytes 16 (uint u)"]
  unfolding uuid_hex_def [symmetric] by (intro filter_True) blast

lemma cut_uuid:
  "take 8 xs @ take 4 (drop 8 xs) @ take 4 (drop 12 xs) @ take 4 (drop 16 xs) @ drop 20 xs = xs"
proof -
  have "take 12 xs = take 8 xs @ take 4 (drop 8 xs)" using take_add [of 8 4 xs] by simp
  moreover have "take 16 xs = take 12 xs @ take 4 (drop 12 xs)" using take_add [of 12 4 xs] by simp
  moreover have "take 20 xs = take 16 xs @ take 4 (drop 16 xs)" using take_add [of 16 4 xs] by simp
  ultimately show ?thesis using append_take_drop_id [of 20 xs] by (metis append.assoc)
qed

lemma uuid_str_undash: "filter (\<lambda>c. c \<noteq> CHR ''-'') (uuid_str u) = uuid_hex u"
proof -
  have 1: "filter (\<lambda>c. c \<noteq> CHR ''-'') (take n (drop m (uuid_hex u))) = take n (drop m (uuid_hex u))" for n m
    by (rule filter_dash_uuid_hex [of _ u]) (meson set_drop_subset set_take_subset subset_trans)
  have 2: "filter (\<lambda>c. c \<noteq> CHR ''-'') (drop 20 (uuid_hex u)) = drop 20 (uuid_hex u)"
    by (rule filter_dash_uuid_hex [of _ u]) (rule set_drop_subset)
  have 3: "filter (\<lambda>c. c \<noteq> CHR ''-'') ''-'' = []" by simp
  show ?thesis
    unfolding uuid_str_def Let_def filter_append 1 2 3 append_Nil 1 [of 8 0, unfolded drop_0]
    by (rule cut_uuid)
qed

lemma uuid_parse_str: "uuid_parse (uuid_str u) = Some u"
proof -
  have "uint u < 256 ^ 16" using uint_lt2p [of u] by simp
  then have "from_be (be_bytes 16 (uint u)) = uint u" by (simp add: from_be_be_bytes)
  then have "map_option (\<lambda>bs. word_of_int (from_be bs)) (hex_pairs (uuid_hex u)) = Some u"
    unfolding uuid_hex_def hex_pairs_hex option.map by (simp only: word_of_int_uint)
  then show ?thesis
    unfolding uuid_parse_def uuid_str_undash Let_def length_uuid_hex by (simp only: if_True refl)
qed

lemma uuid_str_inject [simp]: "uuid_str u = uuid_str v \<longleftrightarrow> u = v"
  by (rule iffI) (drule arg_cong [of _ _ uuid_parse], simp only: uuid_parse_str option.inject, simp)

end
