(* ===== verification/Errors.thy ===== *)
theory Errors
  imports PyValues
begin

text \<open>
  The exceptions of \<^verbatim>\<open>app/error/\<close> and the JSON responses their handlers build
  (\<^verbatim>\<open>app/error/base.py\<close>, \<^verbatim>\<open>app/error/register.py\<close>). An exception object is a value of one
  datatype \<open>exn\<close>, one constructor per class, carrying the arguments its \<open>__init__\<close> was given;
  \<open>exn_message\<close>, \<open>exn_error_code\<close> and \<open>type_name\<close> are what a handler reads from it.
\<close>

subsection \<open>Exception classes\<close>

text \<open>
  Several classes take an argument of any type and put it into an f-string
  (\<open>role_id: Any = "unknown"\<close>). The code passes an integer key, a UUID or a string.
\<close>

datatype ident = IdInt int | IdUuid uuid | IdStr string

fun str_ident :: "ident \<Rightarrow> string" where
  "str_ident (IdInt i) = str_int i"
| "str_ident (IdUuid u) = uuid_str u"
| "str_ident (IdStr s) = s"

abbreviation unknown :: ident where
  "unknown \<equiv> IdStr ''unknown''"

text \<open>
  The constructors after \<open>CircuitOpenError\<close> are exceptions the code lets through from the
  framework (\<open>HTTPException\<close> with its status and detail, and a request or a response that does
  not fit its schema), from the database driver (\<open>IntegrityError\<close>, a violated constraint;
  \<open>StaleDataError\<close>, a row to delete that is not there) and from Python itself.
\<close>

datatype exn =
    UsernameExist ident
  | UserMailExist ident
  | UserUnauthenticated
  | UserNotVerified
  | InvalidToken
  | UserNotAuthenticated
  | UserNotFound ident
  | UserDeactivated
  | TenantInactive
  | StaleToken
  | RoleNotFound ident
  | RoleExists ident
  | PermissionNotFound ident
  | PermissionExists ident
  | GrantNotAllowed string
  | PermissionAlreadyGranted string
  | PermissionNotGranted string
  | RoleAlreadyAssigned string
  | RoleNotAssigned string
  | UnknownPermission ident
  | SuperuserRequired string
  | TenantNotFound ident
  | TenantExists ident
  | ValidationError string string
  | SanitizationError string string
  | RateLimit string "(string \<times> string) list"
  | CircuitOpenError string
  | HTTPException nat string
  | IntegrityError
  | StaleDataError
  | OverflowError
  | ValueError string
  | AttributeError
  | TypeError
  | KeyError string
  | RequestValidationError
  | ResponseValidationError
  | RuntimeError string

fun auth_fields :: "exn \<Rightarrow> (string \<times> string) option" where
  "auth_fields (UsernameExist n) =
     Some (''User with this username: '' @ str_ident n @ '' already exists'', ''user_exists'')"
| "auth_fields (UserMailExist e) =
     Some (''User with this email:'' @ str_ident e @ '' already exists'', ''email_exists'')"
| "auth_fields UserUnauthenticated =
     Some (''Invalid username or password'', ''user_unauthenticated'')"
| "auth_fields UserNotVerified = Some (''User Not Verified'', ''user_not_verified'')"
| "auth_fields InvalidToken =
     Some (''Invalid or expired authentication token'', ''invalid_token'')"
| "auth_fields UserNotAuthenticated =
     Some (''Authentication required. Please login to access this resource'', ''not_authenticated'')"
| "auth_fields (UserNotFound n) = Some (''User '' @ str_ident n @ '' not found'', ''user_not_found'')"
| "auth_fields UserDeactivated = Some (''This account has been deactivated'', ''user_deactivated'')"
| "auth_fields TenantInactive =
     Some (''This organization has been deactivated'', ''tenant_inactive'')"
| "auth_fields StaleToken =
     Some (''Your permissions have changed; please refresh your session'', ''stale_token'')"
| "auth_fields _ = None"

fun rbac_fields :: "exn \<Rightarrow> (string \<times> string) option" where
  "rbac_fields (RoleNotFound r) = Some (''Role '' @ str_ident r @ '' not found'', ''role_not_found'')"
| "rbac_fields (RoleExists n) =
     Some (''Role '' @ [CHR 39] @ str_ident n @ [CHR 39] @ '' already exists'', ''role_exists'')"
| "rbac_fields (PermissionNotFound p) =
     Some (''Permission '' @ str_ident p @ '' not found'', ''permission_not_found'')"
| "rbac_fields (PermissionExists n) =
     Some (''Permission '' @ [CHR 39] @ str_ident n @ [CHR 39] @ '' already exists'', ''permission_exists'')"
| "rbac_fields (GrantNotAllowed m) = Some (m, ''grant_not_allowed'')"
| "rbac_fields (PermissionAlreadyGranted m) = Some (m, ''permission_already_granted'')"
| "rbac_fields (PermissionNotGranted m) = Some (m, ''permission_not_granted'')"
| "rbac_fields (RoleAlreadyAssigned m) = Some (m, ''role_already_assigned'')"
| "rbac_fields (RoleNotAssigned m) = Some (m, ''role_not_assigned'')"
| "rbac_fields (UnknownPermission n) =
     Some ([CHR 39] @ str_ident n @ [CHR 39] @ '' is not a recognized permission'', ''unknown_permission'')"
| "rbac_fields (SuperuserRequired m) = Some (m, ''superuser_required'')"
| "rbac_fields _ = None"

fun tenant_error_fields :: "exn \<Rightarrow> (string \<times> string) option" where
  "tenant_error_fields (TenantNotFound t) =
     Some (''Tenant '' @ str_ident t @ '' not found'', ''tenant_not_found'')"
| "tenant_error_fields (TenantExists n) =
     Some (''Tenant '' @ [CHR 39] @ str_ident n @ [CHR 39] @ '' already exists'', ''tenant_exists'')"
| "tenant_error_fields _ = None"

fun validation_fields :: "exn \<Rightarrow> (string \<times> string) option" where
  "validation_fields (ValidationError m f) = Some (m, ''validation_error'')"
| "validation_fields (SanitizationError m f) = Some (m, ''sanitization_error'')"
| "validation_fields _ = None"

fun rate_limit_fields :: "exn \<Rightarrow> (string \<times> string) option" where
  "rate_limit_fields (RateLimit m h) = Some (m, ''rate_limit'')"
| "rate_limit_fields _ = None"

text \<open>The attributes \<open>message\<close> and \<open>error_code\<close> of an exception object, when it has them.\<close>

definition exn_fields :: "exn \<Rightarrow> (string \<times> string) option" where
  "exn_fields e =
     (case auth_fields e of Some f \<Rightarrow> Some f
      | None \<Rightarrow> (case rbac_fields e of Some f \<Rightarrow> Some f
        | None \<Rightarrow> (case tenant_error_fields e of Some f \<Rightarrow> Some f
          | None \<Rightarrow> (case validation_fields e of Some f \<Rightarrow> Some f
            | None \<Rightarrow> rate_limit_fields e))))"

text \<open>Default arguments of the constructors that have one.\<close>

definition grant_not_allowed_default :: exn where
  "grant_not_allowed_default = GrantNotAllowed ''You are not allowed to grant this role or permission''"

definition superuser_required_default :: exn where
  "superuser_required_default = SuperuserRequired ''This operation requires superuser privileges''"

text \<open>\<open>type(exc).__name__\<close> and \<open>str(exc)\<close>.\<close>

fun type_name :: "exn \<Rightarrow> string" where
  "type_name (UsernameExist _) = ''UsernameExist''"
| "type_name (UserMailExist _) = ''UserMailExist''"
| "type_name UserUnauthenticated = ''UserUnauthenticated''"
| "type_name UserNotVerified = ''UserNotVerified''"
| "type_name InvalidToken = ''InvalidToken''"
| "type_name UserNotAuthenticated = ''UserNotAuthenticated''"
| "type_name (UserNotFound _) = ''UserNotFound''"
| "type_name UserDeactivated = ''UserDeactivated''"
| "type_name TenantInactive = ''TenantInactive''"
| "type_name StaleToken = ''StaleToken''"
| "type_name (RoleNotFound _) = ''RoleNotFound''"
| "type_name (RoleExists _) = ''RoleExists''"
| "type_name (PermissionNotFound _) = ''PermissionNotFound''"
| "type_name (PermissionExists _) = ''PermissionExists''"
| "type_name (GrantNotAllowed _) = ''GrantNotAllowed''"
| "type_name (PermissionAlreadyGranted _) = ''PermissionAlreadyGranted''"
| "type_name (PermissionNotGranted _) = ''PermissionNotGranted''"
| "type_name (RoleAlreadyAssigned _) = ''RoleAlreadyAssigned''"
| "type_name (RoleNotAssigned _) = ''RoleNotAssigned''"
| "type_name (UnknownPermission _) = ''UnknownPermission''"
| "type_name (SuperuserRequired _) = ''SuperuserRequired''"
| "type_name (TenantNotFound _) = ''TenantNotFound''"
| "type_name (TenantExists _) = ''TenantExists''"
| "type_name (ValidationError _ _) = ''ValidationError''"
| "type_name (SanitizationError _ _) = ''SanitizationError''"
| "type_name (RateLimit _ _) = ''RateLimit''"
| "type_name (CircuitOpenError _) = ''CircuitOpenError''"
| "type_name (HTTPException _ _) = ''HTTPException''"
| "type_name IntegrityError = ''IntegrityError''"
| "type_name StaleDataError = ''StaleDataError''"
| "type_name OverflowError = ''OverflowError''"
| "type_name (ValueError _) = ''ValueError''"
| "type_name AttributeError = ''AttributeError''"
| "type_name TypeError = ''TypeError''"
| "type_name (KeyError _) = ''KeyError''"
| "type_name RequestValidationError = ''RequestValidationError''"
| "type_name ResponseValidationError = ''ResponseValidationError''"
| "type_name (RuntimeError _) = ''RuntimeError''"

fun plain_str :: "exn \<Rightarrow> string" where
  "plain_str (CircuitOpenError m) = m"
| "plain_str (ValueError m) = m"
| "plain_str (RuntimeError m) = m"
| "plain_str (KeyError k) = [CHR 39] @ k @ [CHR 39]"
| "plain_str (HTTPException s d) = str_int (int s) @ '': '' @ d"
| "plain_str _ = []"

definition exn_str :: "exn \<Rightarrow> string" where
  "exn_str e = (case exn_fields e of Some (m, c) \<Rightarrow> m | None \<Rightarrow> plain_str e)"

subsection \<open>Responses\<close>

datatype json = JNull | JBool bool | JInt int | JStr string | JList "json list" | JObj "(string \<times> json) list"

record response =
  status_code :: nat
  content :: "(string \<times> json) list"

definition json_headers :: "(string \<times> string) list \<Rightarrow> json" where
  "json_headers hs = JObj (map (\<lambda>(k, v). (k, JStr v)) hs)"

text \<open>
  \<open>create_exception_handler(status_code, initial_detail)\<close>: the handler reads \<open>message\<close> and
  \<open>error_code\<close> from the exception, falling back to \<open>str(exc)\<close> and the class name.
\<close>

definition create_exception_handler :: "nat \<Rightarrow> (string \<times> string) list \<Rightarrow> exn \<Rightarrow> response" where
  "create_exception_handler status initial_detail exc =
     (let message = (case exn_fields exc of Some (m, c) \<Rightarrow> m | None \<Rightarrow> exn_str exc);
          error_type = (case exn_fields exc of Some (m, c) \<Rightarrow> c | None \<Rightarrow> type_name exc)
      in case exc of
           RateLimit m headers \<Rightarrow>
             \<lparr>status_code = status,
              content = [(''status'', JStr ''error''), (''message'', JStr message),
                         (''error_code'', JStr error_type), (''headers'', json_headers headers)]\<rparr>
         | _ \<Rightarrow>
             \<lparr>status_code = status,
              content = [(''status'', JStr ''error''), (''message'', JStr message),
                         (''error_code'', JStr error_type),
                         (''technical_details'',
                          if status = 500 then JStr (exn_str exc) else JNull)]\<rparr>)"

definition create_global_handler :: "nat \<Rightarrow> (string \<times> string) list \<Rightarrow> exn \<Rightarrow> response" where
  "create_global_handler status initial_detail exc =
     (let error_type = type_name exc;
          error_msg = (if exn_str exc \<noteq> [] then exn_str exc
                       else ''Internal '' @ error_type @ '' occurred'')
      in \<lparr>status_code = status,
          content = [(''status'', JStr ''error''),
                     (''message'', JStr (case map_of initial_detail ''message'' of
                        Some m \<Rightarrow> m | None \<Rightarrow> ''Internal Server Error'')),
                     (''error_code'', JStr error_type),
                     (''technical_details'', JStr error_msg)]\<rparr>)"

text \<open>
  \<open>register_exception\<close>: the status and the \<open>initial_detail\<close> registered for the class of an
  exception, by the groups of the file; None for a class with no handler of its own, which the
  handler registered for \<open>Exception\<close> takes.
\<close>

fun registered_user :: "exn \<Rightarrow> (nat \<times> (string \<times> string) list) option" where
  "registered_user (UsernameExist _) =
     Some (400, [(''message'', ''Username already exists''), (''error_code'', ''username_exists'')])"
| "registered_user (UserMailExist _) =
     Some (400, [(''message'', ''Email already exists''), (''error_code'', ''email_exists'')])"
| "registered_user UserUnauthenticated =
     Some (401, [(''message'', ''Invalid authentication credentials''),
                 (''error_code'', ''user_unauthenticated'')])"
| "registered_user UserNotVerified = Some (403, [])"
| "registered_user InvalidToken =
     Some (401, [(''message'', ''Invalid or expired token''), (''error_code'', ''invalid_token'')])"
| "registered_user UserNotAuthenticated =
     Some (401, [(''message'', ''Authentication required''), (''error_code'', ''not_authenticated'')])"
| "registered_user (UserNotFound _) =
     Some (404, [(''message'', ''User not found''), (''error_code'', ''user_not_found'')])"
| "registered_user UserDeactivated = Some (403, [])"
| "registered_user TenantInactive = Some (403, [])"
| "registered_user StaleToken = Some (401, [])"
| "registered_user _ = None"

fun registered_rbac :: "exn \<Rightarrow> (nat \<times> (string \<times> string) list) option" where
  "registered_rbac (RoleNotFound _) = Some (404, [])"
| "registered_rbac (RoleExists _) = Some (400, [])"
| "registered_rbac (PermissionNotFound _) = Some (404, [])"
| "registered_rbac (PermissionExists _) = Some (400, [])"
| "registered_rbac (GrantNotAllowed _) = Some (403, [])"
| "registered_rbac (PermissionAlreadyGranted _) = Some (400, [])"
| "registered_rbac (PermissionNotGranted _) = Some (404, [])"
| "registered_rbac (RoleAlreadyAssigned _) = Some (400, [])"
| "registered_rbac (RoleNotAssigned _) = Some (404, [])"
| "registered_rbac (UnknownPermission _) = Some (400, [])"
| "registered_rbac (SuperuserRequired _) = Some (403, [])"
| "registered_rbac _ = None"

fun registered_tenant :: "exn \<Rightarrow> (nat \<times> (string \<times> string) list) option" where
  "registered_tenant (TenantNotFound _) = Some (404, [])"
| "registered_tenant (TenantExists _) = Some (400, [])"
| "registered_tenant _ = None"

fun registered_limits :: "exn \<Rightarrow> (nat \<times> (string \<times> string) list) option" where
  "registered_limits (RateLimit _ _) = Some (429, [])"
| "registered_limits (CircuitOpenError _) =
     Some (429, [(''message'', ''Service temporarily unavailable due to high failure rate''),
                 (''error_code'', ''service_unavailable'')])"
| "registered_limits _ = None"

fun registered_validation :: "exn \<Rightarrow> (nat \<times> (string \<times> string) list) option" where
  "registered_validation (ValidationError _ _) =
     Some (400, [(''message'', ''Input validation failed''), (''error_code'', ''validation_error'')])"
| "registered_validation (SanitizationError _ _) =
     Some (400, [(''message'', ''Input contains invalid or dangerous content''),
                 (''error_code'', ''sanitization_error'')])"
| "registered_validation _ = None"

definition registered :: "exn \<Rightarrow> (nat \<times> (string \<times> string) list) option" where
  "registered e =
     (case registered_user e of Some h \<Rightarrow> Some h
      | None \<Rightarrow> (case registered_rbac e of Some h \<Rightarrow> Some h
        | None \<Rightarrow> (case registered_tenant e of Some h \<Rightarrow> Some h
          | None \<Rightarrow> (case registered_limits e of Some h \<Rightarrow> Some h
            | None \<Rightarrow> registered_validation e))))"

declare registered_def [simp]

text \<open>
  The response to an exception that leaves an endpoint. \<open>HTTPException\<close> and a request that does
  not fit its schema (422) are answered by the framework's own handlers, which are not part of
  the repository: they are the parameter \<open>http_handler\<close>, taking the status and the detail.
\<close>

definition handle_exception :: "(nat \<Rightarrow> string \<Rightarrow> response) \<Rightarrow> exn \<Rightarrow> response" where
  "handle_exception http_handler exc =
     (case exc of
        HTTPException s d \<Rightarrow> http_handler s d
      | RequestValidationError \<Rightarrow> http_handler 422 []
      | _ \<Rightarrow> (case registered exc of
          Some (status, detail) \<Rightarrow> create_exception_handler status detail exc
        | None \<Rightarrow> create_global_handler 500 [(''message'', ''Internal Server Error'')] exc))"

subsection \<open>What a client sees\<close>

lemma registered_status: "registered e = Some (st, d) \<Longrightarrow> 400 \<le> st \<and> st < 500"
  by (cases e) auto

lemma app_exception_registered: "exn_fields e = Some (m, c) \<Longrightarrow> \<exists>st d. registered e = Some (st, d)"
  by (cases e) (auto simp: exn_fields_def)

lemma not_http_handled:
  "registered e = Some (st, d) \<Longrightarrow> handle_exception h e = create_exception_handler st d e"
  by (cases e) (auto simp: handle_exception_def)

lemma handler_ignores_detail: "create_exception_handler st d e = create_exception_handler st d' e"
  by (simp add: create_exception_handler_def)

text \<open>
  Every exception of the application's own hierarchy (and the rate limit) is answered
  with a client error, never the 500 of the global handler; the response carries the
  message and the error code of the exception object itself, whatever detail was
  registered for its class, and it never carries technical details.
\<close>

lemma app_exception_response:
  assumes "exn_fields e = Some (m, c)"
  shows "let r = handle_exception h e in
     400 \<le> status_code r \<and> status_code r < 500 \<and>
     map_of (content r) ''message'' = Some (JStr m) \<and>
     map_of (content r) ''error_code'' = Some (JStr c) \<and>
     map_of (content r) ''technical_details'' \<in> {None, Some JNull}"
proof -
  from assms obtain st d where r: "registered e = Some (st, d)"
    using app_exception_registered by blast
  from registered_status [OF r] have st: "400 \<le> st" "st < 500" "st \<noteq> 500" by auto
  have "handle_exception h e = create_exception_handler st d e"
    by (rule not_http_handled [OF r])
  with assms st show ?thesis
    by (cases e) (simp_all add: create_exception_handler_def)
qed

theorem app_exception_response_witness:
  "exn_fields (RoleExists (IdStr ''editor'')) =
     Some (''Role '' @ [CHR 39] @ ''editor'' @ [CHR 39] @ '' already exists'', ''role_exists'') \<and>
   status_code (handle_exception (\<lambda>s d. \<lparr>status_code = s, content = []\<rparr>) (RoleExists (IdStr ''editor''))) < 500"
proof -
  have h: "exn_fields (RoleExists (IdStr ''editor'')) =
     Some (''Role '' @ [CHR 39] @ ''editor'' @ [CHR 39] @ '' already exists'', ''role_exists'')"
    by (simp add: exn_fields_def)
  show ?thesis
    using h app_exception_response [OF h, of "\<lambda>s d. \<lparr>status_code = s, content = []\<rparr>"]
    by (simp add: Let_def)
qed

end
