(* ===== verification/Registry.thy ===== *)
theory Registry
  imports Errors
begin

text \<open>
  \<^verbatim>\<open>app/core/rbac/registry.py\<close>: the permission catalog with its bit positions, the masks
  computed from names and back, and the write-time expansion of implied permissions. The
  dictionaries are association lists in the order the code writes them; a Python set of
  names is the list of its elements in the order they were added.
\<close>

subsection \<open>The catalog\<close>

definition PERMISSION_REGISTRY :: "(string \<times> nat) list" where
  "PERMISSION_REGISTRY =
    [(''role:create'', 0),
     (''role:read'', 1),
     (''role:read.id'', 2),
     (''role:update'', 3),
     (''role:delete'', 4),
     (''role:add-permission'', 5),
     (''role:delete-permission'', 6),
     (''permission:read'', 7),
     (''permission:read.id'', 8),
     (''user:read'', 9),
     (''user:read.id'', 10),
     (''user:update'', 11),
     (''user:deactivate'', 12),
     (''tenant:create'', 13),
     (''tenant:read'', 14),
     (''tenant:read.id'', 15),
     (''tenant:update'', 16),
     (''tenant:deactivate'', 17),
     (''user:create'', 18)]"

abbreviation registry_bit :: "string \<Rightarrow> nat option" where
  "registry_bit \<equiv> map_of PERMISSION_REGISTRY"

text \<open>The two assertions the module checks when it is imported.\<close>

lemma registry_bits_distinct: "distinct (map snd PERMISSION_REGISTRY)"
  by (simp add: PERMISSION_REGISTRY_def)

lemma registry_names_distinct: "distinct (map fst PERMISSION_REGISTRY)"
  by (simp add: PERMISSION_REGISTRY_def)

lemma registry_bits_bounded: "\<forall>b \<in> snd ` set PERMISSION_REGISTRY. b < 19"
  by (simp add: PERMISSION_REGISTRY_def)

lemma registry_bit_in: "registry_bit n = Some b \<Longrightarrow> (n, b) \<in> set PERMISSION_REGISTRY"
  by (rule map_of_SomeD)

lemma registry_bit_less: "registry_bit n = Some b \<Longrightarrow> b < 19"
  using registry_bits_bounded registry_bit_in by force

lemma registry_bit_inj: "registry_bit n = Some b \<Longrightarrow> registry_bit m = Some b \<Longrightarrow> n = m"
  using registry_bits_distinct inj_onD [of snd "set PERMISSION_REGISTRY" "(n, b)" "(m, b)"]
  by (auto dest!: registry_bit_in simp: distinct_map)

lemma registry_bit_iff: "(n, b) \<in> set PERMISSION_REGISTRY \<longleftrightarrow> registry_bit n = Some b"
  using registry_names_distinct by (auto dest: registry_bit_in)

text \<open>The loop of \<open>mask_for\<close>: it stops at the first unknown name.\<close>

fun mask_for_loop :: "int \<Rightarrow> string list \<Rightarrow> exn + int" where
  "mask_for_loop m [] = Inr m"
| "mask_for_loop m (name # names) =
     (case registry_bit name of
        None \<Rightarrow> Inl (UnknownPermission (IdStr name))
      | Some b \<Rightarrow> mask_for_loop (m OR bit1 b) names)"

definition mask_for :: "string list \<Rightarrow> exn + int" where
  "mask_for names = mask_for_loop 0 names"

definition names_for_mask :: "int \<Rightarrow> string list" where
  "names_for_mask m = map fst (filter (\<lambda>(name, b). m AND bit1 b \<noteq> 0) PERMISSION_REGISTRY)"

lemma mask_for_loop_Inr:
  "mask_for_loop m names = Inr r \<longleftrightarrow>
     (\<forall>n \<in> set names. registry_bit n \<noteq> None) \<and>
     r = fold (\<lambda>b x. x OR bit1 b) (map (\<lambda>n. the (registry_bit n)) names) m"
  by (induction m names rule: mask_for_loop.induct) (auto split: option.splits)

lemma mask_for_Inr:
  "mask_for names = Inr r \<longleftrightarrow>
     (\<forall>n \<in> set names. registry_bit n \<noteq> None) \<and> r = or_bits (map (\<lambda>n. the (registry_bit n)) names)"
  by (simp add: mask_for_def mask_for_loop_Inr or_bits_def)

lemma bit_mask_for:
  "mask_for names = Inr r \<Longrightarrow> bit r k \<longleftrightarrow> (\<exists>n \<in> set names. registry_bit n = Some k)"
  by (force simp: mask_for_Inr bit_or_bits)

lemma mask_for_bounds: "mask_for names = Inr r \<Longrightarrow> 0 \<le> r \<and> r < 2 ^ 19"
proof -
  assume "mask_for names = Inr r"
  then have r: "r = or_bits (map (\<lambda>n. the (registry_bit n)) names)"
    and "\<forall>n \<in> set names. registry_bit n \<noteq> None" by (auto simp: mask_for_Inr)
  then have "\<forall>b \<in> set (map (\<lambda>n. the (registry_bit n)) names). b < 19"
    using registry_bit_less by fastforce
  then show "0 \<le> r \<and> r < 2 ^ 19" unfolding r by (intro conjI or_bits_less or_bits_nonneg)
qed

lemma mask_for_cong_set:
  assumes "set ns = set ms" and "mask_for ns = Inr r"
  shows "mask_for ms = Inr r"
  using assms by (auto simp: mask_for_Inr intro!: or_bits_cong)

lemma mask_for_loop_Inl:
  "mask_for_loop m names = Inl e \<Longrightarrow>
     (\<exists>n \<in> set names. registry_bit n = None \<and> e = UnknownPermission (IdStr n))"
  by (induction m names rule: mask_for_loop.induct) (auto split: option.splits)

lemma set_names_for_mask:
  "set (names_for_mask m) = {n. \<exists>b. registry_bit n = Some b \<and> bit m b}"
  by (force simp: names_for_mask_def and_bit1_nonzero registry_bit_iff)

lemma distinct_names_for_mask: "distinct (names_for_mask m)"
  using registry_names_distinct by (auto simp: names_for_mask_def intro: distinct_map_filter)

subsection \<open>Implied permissions\<close>

definition PERMISSION_IMPLIES :: "(string \<times> string list) list" where
  "PERMISSION_IMPLIES =
    [(''role:update'', [''role:read'', ''role:read.id'']),
     (''role:delete'', [''role:read'', ''role:read.id'']),
     (''role:add-permission'', [''role:read.id'']),
     (''role:delete-permission'', [''role:read.id'']),
     (''user:update'', [''user:read'', ''user:read.id'']),
     (''user:deactivate'', [''user:read.id'']),
     (''permission:read.id'', [''permission:read'']),
     (''tenant:update'', [''tenant:read.id'']),
     (''tenant:deactivate'', [''tenant:read.id''])]"

text \<open>\<open>PERMISSION_IMPLIES.get(name, ())\<close>.\<close>

definition implied_by :: "string \<Rightarrow> string list" where
  "implied_by name = (case map_of PERMISSION_IMPLIES name of None \<Rightarrow> [] | Some xs \<Rightarrow> xs)"

text \<open>
  One round of the outer loop: the two inner loops visit every name implied by the
  frontier and add the new ones to the result and to the next frontier.
\<close>

fun visit :: "string list \<Rightarrow> string list \<times> string list \<Rightarrow> string list \<times> string list" where
  "visit [] (result, nxt) = (result, nxt)"
| "visit (implied # rest) (result, nxt) =
     (if implied \<notin> set result then visit rest (result @ [implied], nxt @ [implied])
      else visit rest (result, nxt))"

definition expand_round :: "string list \<Rightarrow> string list \<Rightarrow> string list \<times> string list" where
  "expand_round result frontier = visit (concat (map implied_by frontier)) (result, [])"

lemma visit_sets:
  "visit xs (result, nxt) = (result', nxt') \<Longrightarrow>
     set result' = set result \<union> set xs \<and> set nxt' = set nxt \<union> (set xs - set result)"
  by (induction xs "(result, nxt)" arbitrary: result nxt rule: visit.induct)
    (auto split: if_splits)

definition implied_names :: "string set" where
  "implied_names = set (concat (map snd PERMISSION_IMPLIES))"

lemma implied_by_sub: "set (implied_by n) \<subseteq> implied_names"
proof (cases "map_of PERMISSION_IMPLIES n")
  case (Some xs)
  from map_of_SomeD [OF this] Some show ?thesis
    by (force simp: implied_by_def implied_names_def)
qed (simp add: implied_by_def)

lemma expand_round_sets:
  assumes "expand_round result frontier = (result', frontier')"
  shows "set result' = set result \<union> (\<Union>n \<in> set frontier. set (implied_by n))"
    and "set frontier' = (\<Union>n \<in> set frontier. set (implied_by n)) - set result"
  using visit_sets [OF assms [unfolded expand_round_def]] by auto

lemma expand_round_measure:
  assumes "frontier \<noteq> []" and "expand_round result frontier = (result', frontier')"
  shows "2 * card (implied_names - set result') + (if frontier' = [] then 0 else 1)
       < 2 * card (implied_names - set result) + (1 :: nat)"
proof (cases "frontier' = []")
  case True
  have "card (implied_names - set result') \<le> card (implied_names - set result)"
    using expand_round_sets(1) [OF assms(2)]
    by (intro card_mono) (auto simp: implied_names_def)
  with True show ?thesis by simp
next
  case False
  then obtain n where "n \<in> set frontier'" by (cases frontier') auto
  then have "n \<in> implied_names" "n \<notin> set result" "n \<in> set result'"
    using expand_round_sets [OF assms(2)] implied_by_sub by auto
  moreover have "implied_names - set result' \<subseteq> implied_names - set result"
    using expand_round_sets(1) [OF assms(2)] by auto
  ultimately have "implied_names - set result' \<subset> implied_names - set result" by blast
  then have "card (implied_names - set result') < card (implied_names - set result)"
    by (intro psubset_card_mono) (auto simp: implied_names_def)
  with False show ?thesis by simp
qed

text \<open>
  The loop of \<open>expand_implied\<close>. It ends because a round that leaves a next frontier adds at
  least one implied name to the result, and there are finitely many of those.
\<close>

function expand_loop :: "string list \<Rightarrow> string list \<Rightarrow> string list" where
  "expand_loop result frontier =
     (if frontier = [] then result
      else let (result', frontier') = expand_round result frontier
           in expand_loop result' frontier')"
  by pat_completeness auto

termination
  by (relation "measure (\<lambda>(result, frontier).
        2 * card (implied_names - set result) + (if frontier = [] then 0 else 1))")
    (use expand_round_measure in \<open>auto split: prod.splits\<close>)

declare expand_loop.simps [simp del]

text \<open>\<open>set(names)\<close> drops the duplicates of the argument.\<close>

definition expand_implied :: "string list \<Rightarrow> string list" where
  "expand_implied names = (let result = remdups names in expand_loop result result)"

subsection \<open>The expansion is the transitive closure\<close>

definition implies1 :: "(string \<times> string) set" where
  "implies1 = {(m, n). n \<in> set (implied_by m)}"

text \<open>
  The loop invariant: everything implied by a name of the result that is not in the
  frontier is already in the result.
\<close>

lemma expand_loop_closed:
  assumes "set frontier \<subseteq> set result"
    and "\<And>m. m \<in> set result \<Longrightarrow> m \<notin> set frontier \<Longrightarrow> set (implied_by m) \<subseteq> set result"
    and "n \<in> set (expand_loop result frontier)"
  shows "set (implied_by n) \<subseteq> set (expand_loop result frontier)"
  using assms
proof (induction result frontier rule: expand_loop.induct)
  case (1 result frontier)
  show ?case
  proof (cases "frontier = []")
    case True
    with 1 show ?thesis by (simp add: expand_loop.simps)
  next
    case False
    obtain result' frontier' where r: "expand_round result frontier = (result', frontier')"
      by fastforce
    note s = expand_round_sets [OF r]
    have unf: "expand_loop result frontier = expand_loop result' frontier'"
      using False r by (subst expand_loop.simps) simp
    show ?thesis unfolding unf
    proof (rule "1.IH" [OF False r [symmetric] refl])
      show "set frontier' \<subseteq> set result'" using s by auto
      show "set (implied_by m) \<subseteq> set result'" if "m \<in> set result'" "m \<notin> set frontier'" for m
      proof (cases "m \<in> set frontier")
        case True
        then show ?thesis using s(1) by auto
      next
        case out: False
        have "m \<in> set result" using that s by auto
        then show ?thesis using "1.prems"(2) [of m] out s(1) by auto
      qed
      show "n \<in> set (expand_loop result' frontier')" using "1.prems"(3) unf by simp
    qed
  qed
qed

lemma expand_loop_superset: "set result \<subseteq> set (expand_loop result frontier)"
proof (induction result frontier rule: expand_loop.induct)
  case (1 result frontier)
  show ?case
  proof (cases "frontier = []")
    case False
    obtain result' frontier' where r: "expand_round result frontier = (result', frontier')"
      by fastforce
    from "1.IH" [OF False r [symmetric] refl] expand_round_sets(1) [OF r] False r show ?thesis
      by (subst expand_loop.simps) auto
  qed (simp add: expand_loop.simps)
qed

lemma expand_loop_sound:
  assumes "set result \<subseteq> implies1\<^sup>* `` A" and "set frontier \<subseteq> set result"
  shows "set (expand_loop result frontier) \<subseteq> implies1\<^sup>* `` A"
  using assms
proof (induction result frontier rule: expand_loop.induct)
  case (1 result frontier)
  show ?case
  proof (cases "frontier = []")
    case True
    with 1 show ?thesis by (simp add: expand_loop.simps)
  next
    case False
    obtain result' frontier' where r: "expand_round result frontier = (result', frontier')"
      by fastforce
    note s = expand_round_sets [OF r]
    have "n \<in> implies1\<^sup>* `` A" if "m \<in> set frontier" "n \<in> set (implied_by m)" for m n
    proof -
      from that "1.prems" obtain a where "a \<in> A" "(a, m) \<in> implies1\<^sup>*" by blast
      moreover have "(m, n) \<in> implies1" using that by (simp add: implies1_def)
      ultimately show ?thesis by (blast intro: rtrancl_into_rtrancl)
    qed
    then have "set result' \<subseteq> implies1\<^sup>* `` A"
      using "1.prems"(1) unfolding s(1) by blast
    moreover have "set frontier' \<subseteq> set result'" using s by auto
    ultimately show ?thesis
      using "1.IH" [OF False r [symmetric] refl] False r by (subst expand_loop.simps) simp
  qed
qed

lemma closed_under_rtrancl:
  assumes "(m, n) \<in> implies1\<^sup>*" and "m \<in> S" and "\<And>k. k \<in> S \<Longrightarrow> set (implied_by k) \<subseteq> S"
  shows "n \<in> S"
  using assms(1,2) by (induction rule: rtrancl_induct) (use assms(3) in \<open>auto simp: implies1_def\<close>)

lemma set_expand_implied: "set (expand_implied names) = implies1\<^sup>* `` set names"
proof
  show "set (expand_implied names) \<subseteq> implies1\<^sup>* `` set names"
    unfolding expand_implied_def Let_def by (rule expand_loop_sound) auto
next
  have closed: "set (implied_by k) \<subseteq> set (expand_implied names)" if "k \<in> set (expand_implied names)" for k
    using that unfolding expand_implied_def Let_def by (intro expand_loop_closed) auto
  have "set names \<subseteq> set (expand_implied names)"
    using expand_loop_superset [of "remdups names"] by (simp add: expand_implied_def Let_def)
  then show "implies1\<^sup>* `` set names \<subseteq> set (expand_implied names)"
    using closed_under_rtrancl [OF _ _ closed] by blast
qed

lemma expand_implied_superset: "set names \<subseteq> set (expand_implied names)"
  by (auto simp: set_expand_implied)

lemma implied_names_registered: "n \<in> implied_names \<Longrightarrow> registry_bit n \<noteq> None"
  by (auto simp: implied_names_def PERMISSION_IMPLIES_def PERMISSION_REGISTRY_def)

lemma expand_implied_registered:
  assumes "\<forall>n \<in> set names. registry_bit n \<noteq> None" and "m \<in> set (expand_implied names)"
  shows "registry_bit m \<noteq> None"
proof -
  from assms(2) obtain n where "n \<in> set names" and r: "(n, m) \<in> implies1\<^sup>*"
    by (auto simp: set_expand_implied)
  from r have "m = n \<or> m \<in> implied_names"
    by (cases rule: rtranclE) (use implied_by_sub in \<open>auto simp: implies1_def\<close>)
  with \<open>n \<in> set names\<close> have "m \<in> set names \<or> m \<in> implied_names" by auto
  with assms(1) implied_names_registered show ?thesis by blast
qed

subsection \<open>The constant masks\<close>

definition SUPERUSER_ONLY_PERMISSIONS :: "string list" where
  "SUPERUSER_ONLY_PERMISSIONS =
    [''tenant:create'', ''tenant:read'', ''tenant:read.id'', ''tenant:update'', ''tenant:deactivate'']"

text \<open>
  Both masks are computed when the module is imported, from names of the catalog, so
  \<open>mask_for\<close> cannot raise there (\<open>full_mask_for\<close>, \<open>tenant_role_mask_for\<close> below).
\<close>

definition FULL_MASK :: int where
  "FULL_MASK = projr (mask_for (map fst PERMISSION_REGISTRY))"

definition TENANT_ROLE_MASK :: int where
  "TENANT_ROLE_MASK =
     projr (mask_for (filter (\<lambda>name. name \<notin> set SUPERUSER_ONLY_PERMISSIONS) (map fst PERMISSION_REGISTRY)))"

lemma mask_for_registered: "\<forall>n \<in> set names. registry_bit n \<noteq> None \<Longrightarrow> \<exists>r. mask_for names = Inr r"
  by (auto simp: mask_for_Inr)

lemma registered_names: "n \<in> fst ` set PERMISSION_REGISTRY \<longleftrightarrow> registry_bit n \<noteq> None"
  by (metis map_of_eq_None_iff)

lemma full_mask_for: "mask_for (map fst PERMISSION_REGISTRY) = Inr FULL_MASK"
proof -
  obtain r where "mask_for (map fst PERMISSION_REGISTRY) = Inr r"
    using mask_for_registered registered_names by (metis list.set_map)
  then show ?thesis by (simp add: FULL_MASK_def)
qed

lemma tenant_role_mask_for:
  "mask_for (filter (\<lambda>name. name \<notin> set SUPERUSER_ONLY_PERMISSIONS) (map fst PERMISSION_REGISTRY))
     = Inr TENANT_ROLE_MASK"
proof -
  let ?ns = "filter (\<lambda>name. name \<notin> set SUPERUSER_ONLY_PERMISSIONS) (map fst PERMISSION_REGISTRY)"
  have "\<forall>n \<in> set ?ns. registry_bit n \<noteq> None"
    using registered_names by force
  then obtain r where "mask_for ?ns = Inr r" using mask_for_registered by blast
  then show ?thesis by (simp add: TENANT_ROLE_MASK_def)
qed

lemma bit_tenant_role_mask [mask_simps]:
  "bit TENANT_ROLE_MASK k \<longleftrightarrow>
     (\<exists>n. registry_bit n = Some k \<and> n \<notin> set SUPERUSER_ONLY_PERMISSIONS)"
  unfolding bit_mask_for [OF tenant_role_mask_for] by (auto dest: registry_bit_in)
    (metis fst_conv image_eqI registry_bit_in)

lemma tenant_role_mask_bounds: "0 \<le> TENANT_ROLE_MASK" "TENANT_ROLE_MASK < 2 ^ 19"
  using mask_for_bounds [OF tenant_role_mask_for] by auto

lemma full_mask_value: "FULL_MASK = 0x7FFFF"
  by (simp add: FULL_MASK_def mask_for_def PERMISSION_REGISTRY_def bit1_def)

lemma tenant_role_mask_value: "TENANT_ROLE_MASK = 0x41FFF"
  by (simp add: TENANT_ROLE_MASK_def mask_for_def PERMISSION_REGISTRY_def
      SUPERUSER_ONLY_PERMISSIONS_def bit1_def)

subsection \<open>Properties of the catalog\<close>

text \<open>
  C31. \<open>names_for_mask\<close> is the inverse of \<open>mask_for\<close>: from the mask of a list of catalog names
  it gives back exactly those names, each once; and from any mask made of catalog bits it
  gives names whose mask is that mask again.
\<close>

theorem mask_names_roundtrip:
  "(mask_for names = Inr m \<longrightarrow>
      set (names_for_mask m) = set names \<and> distinct (names_for_mask m)) \<and>
   (mask_subset m FULL_MASK \<longrightarrow> mask_for (names_for_mask m) = Inr m)"
proof (intro conjI impI)
  assume m: "mask_for names = Inr m"
  then have "\<forall>n \<in> set names. registry_bit n \<noteq> None" by (simp add: mask_for_Inr)
  then show "set (names_for_mask m) = set names"
    unfolding set_names_for_mask bit_mask_for [OF m] using registry_bit_inj by blast
  show "distinct (names_for_mask m)" by (rule distinct_names_for_mask)
next
  assume sub: "mask_subset m FULL_MASK"
  have "\<forall>n \<in> set (names_for_mask m). registry_bit n \<noteq> None"
    by (auto simp: set_names_for_mask)
  then obtain r where r: "mask_for (names_for_mask m) = Inr r" using mask_for_registered by blast
  have "bit r k \<longleftrightarrow> bit m k" for k
  proof
    assume "bit m k"
    with sub have "bit FULL_MASK k" by (simp add: mask_subset_def)
    then obtain n where "registry_bit n = Some k" unfolding bit_mask_for [OF full_mask_for] by blast
    with \<open>bit m k\<close> show "bit r k" unfolding bit_mask_for [OF r] set_names_for_mask by blast
  qed (auto simp: bit_mask_for [OF r] set_names_for_mask)
  then have "r = m" by (simp add: bit_eq_iff)
  with r show "mask_for (names_for_mask m) = Inr m" by simp
qed

theorem mask_names_roundtrip_witness:
  "set (names_for_mask 3) = set [''role:read'', ''role:create''] \<and>
   mask_for (names_for_mask 0x40001) = Inr 0x40001"
proof -
  have m: "mask_for [''role:read'', ''role:create''] = Inr 3"
    by (simp add: mask_for_def PERMISSION_REGISTRY_def bit1_def)
  have sub: "mask_subset 0x40001 FULL_MASK"
    unfolding full_mask_value and_not_zero_iff [symmetric] by simp
  show ?thesis
    using mask_names_roundtrip [of "[''role:read'', ''role:create'']" 3] m
      mask_names_roundtrip [of "[]" "0x40001"] sub by blast
qed

text \<open>
  C29. \<open>expand_implied\<close> always ends, and the set it returns is the reflexive transitive closure
  of the requested names under \<open>PERMISSION_IMPLIES\<close>: it holds every requested name, everything
  implied by a name it holds, and nothing that the implications do not force.
\<close>

theorem expand_implied_closure:
  "set names \<subseteq> set (expand_implied names) \<and>
   (\<forall>n. n \<in> set (expand_implied names) \<longrightarrow> set (implied_by n) \<subseteq> set (expand_implied names)) \<and>
   (\<forall>S. set names \<subseteq> S \<and> (\<forall>n. n \<in> S \<longrightarrow> set (implied_by n) \<subseteq> S)
      \<longrightarrow> set (expand_implied names) \<subseteq> S)"
proof (intro conjI allI impI)
  fix n assume "n \<in> set (expand_implied names)"
  then show "set (implied_by n) \<subseteq> set (expand_implied names)"
    by (auto simp: set_expand_implied implies1_def intro: rtrancl_into_rtrancl)
next
  fix S assume S: "set names \<subseteq> S \<and> (\<forall>n. n \<in> S \<longrightarrow> set (implied_by n) \<subseteq> S)"
  then show "set (expand_implied names) \<subseteq> S"
    unfolding set_expand_implied using closed_under_rtrancl [of _ _ S] by blast
qed (rule expand_implied_superset)

theorem expand_implied_closure_witness:
  "set (expand_implied [''user:update'']) = {''user:update'', ''user:read'', ''user:read.id''}"
proof
  have imp: "implied_by ''user:update'' = [''user:read'', ''user:read.id'']"
    "implied_by ''user:read'' = []" "implied_by ''user:read.id'' = []"
    by (simp_all add: implied_by_def PERMISSION_IMPLIES_def)
  let ?S = "{''user:update'', ''user:read'', ''user:read.id''}"
  have closed: "set (implied_by n) \<subseteq> ?S" if "n \<in> ?S" for n
    using that imp by auto
  have c: "set [''user:update''] \<subseteq> ?S \<and> (\<forall>n. n \<in> ?S \<longrightarrow> set (implied_by n) \<subseteq> ?S)"
    using closed by auto
  note cl = expand_implied_closure [of "[''user:update'']"]
  show "set (expand_implied [''user:update'']) \<subseteq> ?S"
    by (rule cl [THEN conjunct2, THEN conjunct2, rule_format, OF c])
  have "''user:update'' \<in> set (expand_implied [''user:update''])"
    by (rule subsetD [OF cl [THEN conjunct1]]) simp
  moreover from this have "set (implied_by ''user:update'') \<subseteq> set (expand_implied [''user:update''])"
    by (rule cl [THEN conjunct2, THEN conjunct1, rule_format])
  ultimately show "?S \<subseteq> set (expand_implied [''user:update''])"
    unfolding imp by simp
qed

end
