(* ===== verification/MaskCodec.thy ===== *)
theory MaskCodec
  imports Registry
begin

text \<open>
  \<^verbatim>\<open>app/core/rbac/mask.py\<close>: the codec of the 256-bit permission mask, as the bytes of a
  column and as the hexadecimal claim of an access token.
\<close>

definition MASK_BYTES :: nat where
  "MASK_BYTES = 32"

text \<open>
  \<open>int.to_bytes(n, "big")\<close> raises OverflowError for a negative integer and for one that does
  not fit; \<open>(mask or 0)\<close> is 0 for None.
\<close>

definition to_bytes_big :: "nat \<Rightarrow> int \<Rightarrow> exn + byte list" where
  "to_bytes_big n v = (if v < 0 \<or> 256 ^ n \<le> v then Inl OverflowError else Inr (be_bytes n v))"

definition mask_to_bytes :: "int option \<Rightarrow> exn + byte list" where
  "mask_to_bytes m = to_bytes_big MASK_BYTES (case m of None \<Rightarrow> 0 | Some v \<Rightarrow> v)"

definition bytes_to_mask :: "byte list option \<Rightarrow> int" where
  "bytes_to_mask data = (case data of None \<Rightarrow> 0 | Some d \<Rightarrow> if d = [] then 0 else from_be d)"

definition mask_to_hex :: "int option \<Rightarrow> exn + string" where
  "mask_to_hex m = map_sum id bytes_hex (mask_to_bytes m)"

definition hex_to_mask :: "string option \<Rightarrow> exn + int" where
  "hex_to_mask value = (case value of None \<Rightarrow> Inr 0
     | Some s \<Rightarrow> if s = [] then Inr 0
         else case bytes_fromhex s of
           None \<Rightarrow> Inl (ValueError ''non-hexadecimal number found in fromhex() arg'')
         | Some bs \<Rightarrow> Inr (from_be bs))"

text \<open>
  \<open>PermissionMaskType\<close>: what a mask column gives back after a value was bound to it.
\<close>

definition process_bind_param :: "int option \<Rightarrow> exn + byte list" where
  "process_bind_param value = mask_to_bytes value"

definition process_result_value :: "byte list option \<Rightarrow> int" where
  "process_result_value value = bytes_to_mask value"

definition store_mask :: "int \<Rightarrow> exn + int" where
  "store_mask m = map_sum id (\<lambda>bs. process_result_value (Some bs)) (process_bind_param (Some m))"

abbreviation valid_mask :: "int \<Rightarrow> bool" where
  "valid_mask m \<equiv> 0 \<le> m \<and> m < 2 ^ 256"

lemma mask_width: "(256 :: int) ^ MASK_BYTES = 2 ^ 256"
  by (simp add: MASK_BYTES_def)

lemma mask_to_bytes_valid: "valid_mask m \<Longrightarrow> mask_to_bytes (Some m) = Inr (be_bytes MASK_BYTES m)"
  by (simp only: mask_to_bytes_def to_bytes_big_def mask_width option.case) simp

lemma mask_to_bytes_invalid: "\<not> valid_mask m \<Longrightarrow> mask_to_bytes (Some m) = Inl OverflowError"
  by (simp only: mask_to_bytes_def to_bytes_big_def mask_width option.case) auto

lemma from_be_mask_bytes: "valid_mask m \<Longrightarrow> from_be (be_bytes MASK_BYTES m) = m"
  by (simp only: from_be_be_bytes mask_width) simp

lemma mask_bytes_nonempty: "be_bytes MASK_BYTES m \<noteq> []"
  by (metis length_be_bytes list.size(3) MASK_BYTES_def zero_neq_numeral)

lemma bytes_to_mask_bytes: "valid_mask m \<Longrightarrow> bytes_to_mask (Some (be_bytes MASK_BYTES m)) = m"
  using mask_bytes_nonempty [of m] from_be_mask_bytes [of m] by (simp add: bytes_to_mask_def)

lemma store_mask_valid [simp]: "valid_mask m \<Longrightarrow> store_mask m = Inr m"
  by (simp only: store_mask_def process_bind_param_def mask_to_bytes_valid map_sum.simps
      process_result_value_def bytes_to_mask_bytes)

lemma store_mask_invalid: "\<not> valid_mask m \<Longrightarrow> store_mask m = Inl OverflowError"
  by (simp add: store_mask_def process_bind_param_def mask_to_bytes_invalid [of m])

lemma store_mask_Inr: "store_mask m = Inr m' \<longleftrightarrow> m' = m \<and> valid_mask m"
  by (cases "valid_mask m") (auto simp: store_mask_invalid simp del: One_nat_def)

lemma store_mask_Inl: "store_mask m = Inl e \<longleftrightarrow> e = OverflowError \<and> \<not> valid_mask m"
  by (cases "valid_mask m") (auto simp: store_mask_invalid)

lemma hex_nonempty: "bytes_hex (be_bytes MASK_BYTES m) \<noteq> []"
proof
  assume "bytes_hex (be_bytes MASK_BYTES m) = []"
  then have "2 * MASK_BYTES = 0" by (metis length_be_bytes length_bytes_hex list.size(3))
  then show False by (simp add: MASK_BYTES_def)
qed

lemma hex_to_mask_hex: "valid_mask m \<Longrightarrow> hex_to_mask (Some (bytes_hex (be_bytes MASK_BYTES m))) = Inr m"
  using hex_nonempty [of m] from_be_mask_bytes [of m]
  by (simp add: hex_to_mask_def bytes_fromhex_hex)

lemma mask_to_hex_valid: "valid_mask m \<Longrightarrow> mask_to_hex (Some m) = Inr (bytes_hex (be_bytes MASK_BYTES m))"
  by (simp only: mask_to_hex_def mask_to_bytes_valid map_sum.simps)

text \<open>
  C30. the codec is exact and total on 256-bit masks, and refuses everything else: a mask
  from 0 to 2^256 - 1 is stored in exactly 32 bytes and written as exactly 64 hexadecimal
  digits, and both forms read back as the same mask; any other integer raises OverflowError.
\<close>

theorem mask_codec_roundtrip:
  "if valid_mask m then
     \<exists>bs h. mask_to_bytes (Some m) = Inr bs \<and> length bs = 32 \<and> bytes_to_mask (Some bs) = m \<and>
            mask_to_hex (Some m) = Inr h \<and> length h = 64 \<and> hex_to_mask (Some h) = Inr m
   else mask_to_bytes (Some m) = Inl OverflowError \<and> mask_to_hex (Some m) = Inl OverflowError"
proof (cases "valid_mask m")
  case True
  let ?bs = "be_bytes MASK_BYTES m"
  have "length ?bs = 32" "length (bytes_hex ?bs) = 64" by (simp_all add: MASK_BYTES_def)
  then show ?thesis
    using True mask_to_bytes_valid [OF True] bytes_to_mask_bytes [OF True] mask_to_hex_valid [OF True]
      hex_to_mask_hex [OF True] by auto
next
  case False
  then show ?thesis
    using mask_to_bytes_invalid [OF False] by (auto simp: mask_to_hex_def)
qed

text \<open>
  The migration that added \<open>tenants.allowed_permission_mask\<close> pins the default of the new
  column to 64 hexadecimal digits written by hand.
\<close>

lemma be_bytes_numeral: "be_bytes (numeral k) v = be_bytes (pred_numeral k) (v div 256) @ [word_of_int v]"
  by (simp add: numeral_eq_Suc)

definition TENANT_ROLE_MASK_HEX :: string where
  "TENANT_ROLE_MASK_HEX = ''0000000000000000000000000000000000000000000000000000000000041fff''"

text \<open>
  The constant hard-coded in the migration is the hexadecimal form of the mask the
  catalog gives tenant roles today, so a tenant that predates the ceiling gets exactly
  \<open>TENANT_ROLE_MASK\<close> as its ceiling.
\<close>

lemma migration_default_ceiling:
  "mask_to_hex (Some TENANT_ROLE_MASK) = Inr TENANT_ROLE_MASK_HEX \<and>
   hex_to_mask (Some TENANT_ROLE_MASK_HEX) = Inr TENANT_ROLE_MASK"
proof
  have v: "valid_mask TENANT_ROLE_MASK" by (simp add: tenant_role_mask_value)
  have "bytes_hex (be_bytes MASK_BYTES TENANT_ROLE_MASK) = TENANT_ROLE_MASK_HEX"
    by (simp add: tenant_role_mask_value MASK_BYTES_def TENANT_ROLE_MASK_HEX_def be_bytes_numeral
        byte_hex_def hexdig_def)
  then show "mask_to_hex (Some TENANT_ROLE_MASK) = Inr TENANT_ROLE_MASK_HEX"
    and "hex_to_mask (Some TENANT_ROLE_MASK_HEX) = Inr TENANT_ROLE_MASK"
    using mask_to_hex_valid [OF v] hex_to_mask_hex [OF v] by simp_all
qed

end
