(* ===== verification/AuthzCache.thy ===== *)
theory AuthzCache
  imports MaskCodec
begin

text \<open>
  \<^verbatim>\<open>app/core/authz_cache/\<close>: the publisher, which writes every authorization change to a
  mirror in Redis and to a channel, and the cache each worker process keeps from the
  channel's messages and from a periodic resync with the mirror.

  An event is the dictionary the code publishes; UUIDs travel as their text
  (\<open>str(user.id)\<close>), and \<open>json.loads\<close> gives back what \<open>json.dumps\<close> was given. The record \<open>redis\<close>
  holds the three keys of \<^verbatim>\<open>channel.py\<close> and the messages published so far; \<open>reachable\<close> says
  whether a connection succeeds.
\<close>

datatype event =
    PermVersion string int
  | UserStatus string bool
  | TenantStatus string bool

record redis =
  reachable :: bool
  perm_versions :: "(string \<times> string) list"
  inactive_users :: "string list"
  inactive_tenants :: "string list"
  channel :: "event list"

record authz_cache =
  inactive_user_ids :: "uuid set"
  inactive_tenant_ids :: "uuid set"
  perm_version :: "uuid \<rightharpoonup> int"

definition new_cache :: authz_cache where
  "new_cache = \<lparr>inactive_user_ids = {}, inactive_tenant_ids = {}, perm_version = Map.empty\<rparr>"

definition empty_redis :: redis where
  "empty_redis = \<lparr>reachable = True, perm_versions = [], inactive_users = [], inactive_tenants = [],
     channel = []\<rparr>"

subsection \<open>The publisher\<close>

text \<open>The commands queued for one event: PUBLISH, then HSET, SADD or SREM on the mirror.\<close>

fun mirror_event :: "redis \<Rightarrow> event \<Rightarrow> redis" where
  "mirror_event r (PermVersion uid version) =
     r\<lparr>perm_versions := AList.update uid (str_int version) (perm_versions r)\<rparr>"
| "mirror_event r (UserStatus uid is_active) =
     (if is_active then r\<lparr>inactive_users := removeAll uid (inactive_users r)\<rparr>
      else r\<lparr>inactive_users := List.insert uid (inactive_users r)\<rparr>)"
| "mirror_event r (TenantStatus tid is_active) =
     (if is_active then r\<lparr>inactive_tenants := removeAll tid (inactive_tenants r)\<rparr>
      else r\<lparr>inactive_tenants := List.insert tid (inactive_tenants r)\<rparr>)"

definition queue_event :: "redis \<Rightarrow> event \<Rightarrow> redis" where
  "queue_event r e = mirror_event (r\<lparr>channel := channel r @ [e]\<rparr>) e"

definition publish_events :: "event list \<Rightarrow> redis \<Rightarrow> redis" where
  "publish_events events r =
     (if events = [] then r
      else if reachable r then foldl queue_event r events
      else r)"

subsection \<open>The cache\<close>

definition is_user_inactive :: "authz_cache \<Rightarrow> uuid \<Rightarrow> bool" where
  "is_user_inactive c user_id \<longleftrightarrow> user_id \<in> inactive_user_ids c"

definition is_tenant_inactive :: "authz_cache \<Rightarrow> uuid option \<Rightarrow> bool" where
  "is_tenant_inactive c tenant_id \<longleftrightarrow>
     (case tenant_id of None \<Rightarrow> False | Some t \<Rightarrow> t \<in> inactive_tenant_ids c)"

definition is_stale :: "authz_cache \<Rightarrow> uuid \<Rightarrow> int \<Rightarrow> bool" where
  "is_stale c user_id token_perm_version =
     (case perm_version c user_id of
        None \<Rightarrow> False
      | Some current \<Rightarrow> token_perm_version < current)"

definition bad_uuid :: exn where
  "bad_uuid = ValueError ''badly formed hexadecimal UUID string''"

fun apply_event :: "authz_cache \<Rightarrow> event \<Rightarrow> exn + authz_cache" where
  "apply_event c (PermVersion uid version) =
     (case uuid_parse uid of
        None \<Rightarrow> Inl bad_uuid
      | Some u \<Rightarrow> Inr (c\<lparr>perm_version := (perm_version c)(u \<mapsto> version)\<rparr>))"
| "apply_event c (UserStatus uid is_active) =
     (case uuid_parse uid of
        None \<Rightarrow> Inl bad_uuid
      | Some u \<Rightarrow> Inr (if is_active then c\<lparr>inactive_user_ids := inactive_user_ids c - {u}\<rparr>
                      else c\<lparr>inactive_user_ids := insert u (inactive_user_ids c)\<rparr>))"
| "apply_event c (TenantStatus tid is_active) =
     (case uuid_parse tid of
        None \<Rightarrow> Inl bad_uuid
      | Some t \<Rightarrow> Inr (if is_active then c\<lparr>inactive_tenant_ids := inactive_tenant_ids c - {t}\<rparr>
                      else c\<lparr>inactive_tenant_ids := insert t (inactive_tenant_ids c)\<rparr>))"

text \<open>
  One message of the subscription loop: an exception out of \<open>_apply_event\<close> is caught by the
  loop, which drops the message and keeps the state.
\<close>

definition on_message :: "authz_cache \<Rightarrow> event \<Rightarrow> authz_cache" where
  "on_message c e = (case apply_event c e of Inl _ \<Rightarrow> c | Inr c' \<Rightarrow> c')"

text \<open>
  \<open>_resync_once\<close> reads the three keys (\<open>resync_read\<close>, suspended at each \<open>await\<close>) and then
  assigns the three structures (\<open>resync_apply\<close>): the first comprehension that raises ends
  the assignments.
\<close>

fun parse_versions :: "(uuid \<rightharpoonup> int) \<Rightarrow> (string \<times> string) list \<Rightarrow> (uuid \<rightharpoonup> int) option" where
  "parse_versions m [] = Some m"
| "parse_versions m ((k, v) # kvs) =
     (case uuid_parse k of None \<Rightarrow> None
      | Some u \<Rightarrow> (case parse_int v of None \<Rightarrow> None
        | Some n \<Rightarrow> parse_versions (m(u \<mapsto> n)) kvs))"

fun parse_ids :: "string list \<Rightarrow> uuid set option" where
  "parse_ids [] = Some {}"
| "parse_ids (s # ss) =
     (case uuid_parse s of None \<Rightarrow> None | Some u \<Rightarrow> map_option (insert u) (parse_ids ss))"

type_synonym snapshot = "(string \<times> string) list \<times> string list \<times> string list"

definition resync_read :: "redis \<Rightarrow> snapshot option" where
  "resync_read r = (if reachable r then Some (perm_versions r, inactive_users r, inactive_tenants r)
     else None)"

definition resync_apply :: "snapshot \<Rightarrow> authz_cache \<Rightarrow> authz_cache" where
  "resync_apply snap c = (case snap of (versions, us, ts) \<Rightarrow>
     (case parse_versions Map.empty versions of None \<Rightarrow> c
      | Some pv \<Rightarrow> (case parse_ids us of None \<Rightarrow> c\<lparr>perm_version := pv\<rparr>
        | Some uids \<Rightarrow> (case parse_ids ts of
            None \<Rightarrow> c\<lparr>perm_version := pv, inactive_user_ids := uids\<rparr>
          | Some tids \<Rightarrow>
              c\<lparr>perm_version := pv, inactive_user_ids := uids, inactive_tenant_ids := tids\<rparr>))))"

definition resync_once :: "redis \<Rightarrow> authz_cache \<Rightarrow> authz_cache" where
  "resync_once r c = (case resync_read r of None \<Rightarrow> c | Some snap \<Rightarrow> resync_apply snap c)"

subsection \<open>Replaying events\<close>

text \<open>
  The interface the cache's convergence rests on: an event overwrites what an earlier event
  with the same key wrote and commutes with every other event. Then applying a run of
  events a second time changes nothing, which is why a resync that runs while messages are
  still pending does no lasting harm.
\<close>

locale overwriting_events =
  fixes app :: "'s \<Rightarrow> 'e \<Rightarrow> 's" and key :: "'e \<Rightarrow> 'k"
  assumes overwrite: "key e = key f \<Longrightarrow> app (app s e) f = app s f"
    and commute: "key e \<noteq> key f \<Longrightarrow> app (app s e) f = app (app s f) e"
begin

lemma absorb: "key e \<in> key ` set es \<Longrightarrow> foldl app (app s e) es = foldl app s es"
proof (induction es arbitrary: s)
  case (Cons f es)
  show ?case
  proof (cases "key e = key f")
    case True
    then show ?thesis by (simp add: overwrite)
  next
    case False
    with Cons show ?thesis by (auto simp: commute [OF False])
  qed
qed simp

lemma absorb_many: "key ` set fs \<subseteq> key ` set es \<Longrightarrow> foldl app (foldl app s fs) es = foldl app s es"
  by (induction fs arbitrary: s) (auto simp: absorb)

lemma replay: "foldl app (foldl app s es) es = foldl app s es"
  by (rule absorb_many) simp

lemma replay_suffix: "foldl app (foldl app s (ds @ es)) es = foldl app s (ds @ es)"
  by (simp add: replay)

end

datatype cache_key = VersionOf "uuid option" | StatusOfUser "uuid option" | StatusOfTenant "uuid option"

fun event_key :: "event \<Rightarrow> cache_key" where
  "event_key (PermVersion uid v) = VersionOf (uuid_parse uid)"
| "event_key (UserStatus uid a) = StatusOfUser (uuid_parse uid)"
| "event_key (TenantStatus tid a) = StatusOfTenant (uuid_parse tid)"

lemma diff_diff_swap: "S - {a} - {b} = S - {b} - {a}"
  by blast

interpretation cache_events: overwriting_events on_message event_key
proof
  fix e f :: event and s :: authz_cache
  show "event_key e = event_key f \<Longrightarrow> on_message (on_message s e) f = on_message s f"
    by (cases e; cases f) (auto simp: on_message_def split: option.splits)
  show "event_key e \<noteq> event_key f \<Longrightarrow> on_message (on_message s e) f = on_message (on_message s f) e"
    by (cases e; cases f)
      (auto simp: on_message_def fun_upd_twist insert_commute insert_Diff_if diff_diff_swap
        split: option.splits)
qed

subsection \<open>The mirror as the authority\<close>

text \<open>What the mirror says, as a cache: the abstract state the caches approximate.\<close>

definition authority :: "redis \<Rightarrow> authz_cache" where
  "authority r =
     \<lparr>inactive_user_ids = {u. uuid_str u \<in> set (inactive_users r)},
      inactive_tenant_ids = {t. uuid_str t \<in> set (inactive_tenants r)},
      perm_version = (\<lambda>u. Option.bind (map_of (perm_versions r) (uuid_str u)) parse_int)\<rparr>"

text \<open>The mirror holds what the publisher writes: texts of UUIDs, decimal numbers.\<close>

definition canonical_ids :: "string list \<Rightarrow> bool" where
  "canonical_ids ss \<longleftrightarrow> set ss \<subseteq> range uuid_str"

definition canonical :: "redis \<Rightarrow> bool" where
  "canonical r \<longleftrightarrow> distinct (map fst (perm_versions r)) \<and>
     set (perm_versions r) \<subseteq> range uuid_str \<times> range str_int \<and>
     canonical_ids (inactive_users r) \<and> canonical_ids (inactive_tenants r)"

fun well_formed :: "event \<Rightarrow> bool" where
  "well_formed (PermVersion uid v) = (uid \<in> range uuid_str)"
| "well_formed (UserStatus uid a) = (uid \<in> range uuid_str)"
| "well_formed (TenantStatus tid a) = (tid \<in> range uuid_str)"

lemma map_of_AList_update: "map_of (AList.update k v xs) = (map_of xs)(k \<mapsto> v)"
  by (rule update_conv')

lemma set_AList_update: "set (AList.update k v xs) \<subseteq> insert (k, v) (set xs)"
  by (induction xs) auto

lemma authority_queue_event:
  assumes "well_formed e"
  shows "authority (queue_event r e) = on_message (authority r) e"
proof (cases e)
  case (PermVersion uid v)
  with assms obtain u where "uid = uuid_str u" by auto
  with PermVersion show ?thesis
    by (auto simp: authority_def queue_event_def on_message_def uuid_parse_str update_conv'
        parse_int_str_int)
next
  case (UserStatus uid a)
  with assms obtain u where "uid = uuid_str u" by auto
  with UserStatus show ?thesis
    by (auto simp: authority_def queue_event_def on_message_def uuid_parse_str)
next
  case (TenantStatus tid a)
  with assms obtain u where "tid = uuid_str u" by auto
  with TenantStatus show ?thesis
    by (auto simp: authority_def queue_event_def on_message_def uuid_parse_str)
qed

lemma canonical_queue_event: "canonical r \<Longrightarrow> well_formed e \<Longrightarrow> canonical (queue_event r e)"
proof (cases e)
  case (PermVersion uid v)
  moreover assume "canonical r" "well_formed e"
  ultimately show ?thesis
    using set_AList_update [of uid "str_int v" "perm_versions r"]
    by (auto simp: canonical_def queue_event_def distinct_update)
qed (auto simp: canonical_def canonical_ids_def queue_event_def)

lemma reachable_queue_event [simp]: "reachable (queue_event r e) = reachable r"
  by (cases e) (auto simp: queue_event_def)

lemma channel_queue_event [simp]: "channel (queue_event r e) = channel r @ [e]"
  by (cases e) (auto simp: queue_event_def)

lemma foldl_queue_event:
  assumes "\<forall>e \<in> set es. well_formed e"
  shows "authority (foldl queue_event r es) = foldl on_message (authority r) es"
    and "canonical r \<Longrightarrow> canonical (foldl queue_event r es)"
  using assms by (induction es arbitrary: r) (auto simp: authority_queue_event canonical_queue_event)

lemma channel_foldl: "channel (foldl queue_event r es) = channel r @ es"
  by (induction es arbitrary: r) auto

lemma reachable_foldl: "reachable (foldl queue_event r es) = reachable r"
  by (induction es arbitrary: r) auto

lemma reachable_publish [simp]: "reachable (publish_events es r) = reachable r"
  by (simp add: publish_events_def reachable_foldl)

lemma canonical_publish: "canonical r \<Longrightarrow> \<forall>e \<in> set es. well_formed e \<Longrightarrow> canonical (publish_events es r)"
  by (simp add: publish_events_def foldl_queue_event)

lemma authority_publish:
  "reachable r \<Longrightarrow> \<forall>e \<in> set es. well_formed e \<Longrightarrow>
     authority (publish_events es r) = foldl on_message (authority r) es"
  by (simp add: publish_events_def foldl_queue_event)

lemma channel_publish: "channel (publish_events es r) = channel r @ (if reachable r then es else [])"
  by (simp add: publish_events_def channel_foldl)

lemma publish_unreachable: "\<not> reachable r \<Longrightarrow> publish_events es r = r"
  by (simp add: publish_events_def)

text \<open>Parsing the mirror gives the authority.\<close>

lemma parse_versions_canonical:
  assumes "set kvs \<subseteq> range uuid_str \<times> range str_int" and "distinct (map fst kvs)"
  shows "parse_versions m kvs =
     Some (\<lambda>u. case map_of kvs (uuid_str u) of None \<Rightarrow> m u | Some v \<Rightarrow> parse_int v)"
  using assms
proof (induction kvs arbitrary: m)
  case (Cons kv kvs)
  then obtain u n where kv: "kv = (uuid_str u, str_int n)" by auto
  from Cons.prems have "map_of kvs (uuid_str u) = None" by (simp add: kv map_of_eq_None_iff)
  with Cons show ?case
    by (auto simp: kv uuid_parse_str parse_int_str_int fun_eq_iff split: option.splits)
qed simp

lemma parse_ids_canonical: "canonical_ids ss \<Longrightarrow> parse_ids ss = Some {u. uuid_str u \<in> set ss}"
  by (induction ss) (auto simp: canonical_ids_def uuid_parse_str)

lemma resync_apply_canonical:
  assumes "canonical r"
  shows "resync_apply (perm_versions r, inactive_users r, inactive_tenants r) c = authority r"
proof -
  have "parse_versions Map.empty (perm_versions r) = Some (perm_version (authority r))"
    using assms parse_versions_canonical [of "perm_versions r" Map.empty]
    by (auto simp: canonical_def authority_def bind_eq_Some_conv fun_eq_iff split: option.splits)
  moreover have "parse_ids (inactive_users r) = Some (inactive_user_ids (authority r))"
    "parse_ids (inactive_tenants r) = Some (inactive_tenant_ids (authority r))"
    using assms by (auto simp: canonical_def parse_ids_canonical authority_def)
  ultimately show ?thesis by (simp add: resync_apply_def)
qed

lemma resync_once_canonical:
  "canonical r \<Longrightarrow> resync_once r c = (if reachable r then authority r else c)"
  by (simp add: resync_once_def resync_read_def resync_apply_canonical)

end
