(* ===== verification/CacheWorker.thy ===== *)
theory CacheWorker
  imports AuthzCache
begin

text \<open>
  One worker process beside the publishers: the steps of \<open>_subscribe_loop\<close> and
  \<open>_resync_loop\<close> of \<^verbatim>\<open>app/core/authz_cache/cache.py\<close>, interleaved with publishes. Control
  changes hands where the code awaits: between two messages, and between the three reads of a
  resync and the assignments that follow them. The subscription's queue holds the messages
  Redis has sent and the loop has not read; it is gone when the connection is.
\<close>

record bus =
  mirror :: redis
  worker_cache :: authz_cache
  subscription :: "event list option"
  resync_pending :: "snapshot option"

definition start_worker :: "redis \<Rightarrow> bus" where
  "start_worker r = \<lparr>mirror = r, worker_cache = new_cache, subscription = None, resync_pending = None\<rparr>"

text \<open>A published message reaches the queue of a subscribed worker.\<close>

definition bus_publish :: "event list \<Rightarrow> bus \<Rightarrow> bus" where
  "bus_publish es b = b\<lparr>mirror := publish_events es (mirror b),
     subscription := (if reachable (mirror b) then map_option (\<lambda>q. q @ es) (subscription b)
       else subscription b)\<rparr>"

text \<open>
  One turn of \<open>async for message in pubsub.listen()\<close>: an exception leaves the \<open>try\<close>, whose
  \<open>finally\<close> closes the subscription.
\<close>

definition bus_deliver :: "bus \<Rightarrow> bus" where
  "bus_deliver b = (case subscription b of
       Some (e # q) \<Rightarrow>
         (case apply_event (worker_cache b) e of
            Inl _ \<Rightarrow> b\<lparr>subscription := None\<rparr>
          | Inr c \<Rightarrow> b\<lparr>worker_cache := c, subscription := Some q\<rparr>)
     | _ \<Rightarrow> b)"

definition bus_resync_read :: "bus \<Rightarrow> bus" where
  "bus_resync_read b = b\<lparr>resync_pending := resync_read (mirror b)\<rparr>"

definition bus_resync_apply :: "bus \<Rightarrow> bus" where
  "bus_resync_apply b = (case resync_pending b of
       None \<Rightarrow> b
     | Some snap \<Rightarrow> b\<lparr>worker_cache := resync_apply snap (worker_cache b), resync_pending := None\<rparr>)"

inductive bus_step :: "bus \<Rightarrow> bus \<Rightarrow> bool" where
  publish: "\<forall>e \<in> set es. well_formed e \<Longrightarrow> bus_step b (bus_publish es b)"
| deliver: "bus_step b (bus_deliver b)"
| subscribe: "reachable (mirror b) \<Longrightarrow> subscription b = None \<Longrightarrow> bus_step b (b\<lparr>subscription := Some []\<rparr>)"
| disconnect: "bus_step b (b\<lparr>subscription := None\<rparr>)"
| outage: "bus_step b (b\<lparr>mirror := (mirror b)\<lparr>reachable := False\<rparr>\<rparr>)"
| recover: "bus_step b (b\<lparr>mirror := (mirror b)\<lparr>reachable := True\<rparr>\<rparr>)"
| resync_read: "bus_step b (bus_resync_read b)"
| resync_apply: "bus_step b (bus_resync_apply b)"

inductive bus_reachable :: "bus \<Rightarrow> bool" where
  start: "canonical r \<Longrightarrow> bus_reachable (start_worker r)"
| step: "bus_reachable b \<Longrightarrow> bus_step b b' \<Longrightarrow> bus_reachable b'"

inductive_cases bus_stepE: "bus_step b b'"

lemmas bus_reachable_ops =
  bus_reachable.step [OF _ bus_step.publish] bus_reachable.step [OF _ bus_step.deliver]
  bus_reachable.step [OF _ bus_step.resync_read] bus_reachable.step [OF _ bus_step.resync_apply]

text \<open>Reading every message that is waiting.\<close>

fun drain_queue :: "event list \<Rightarrow> authz_cache \<Rightarrow> authz_cache" where
  "drain_queue [] c = c"
| "drain_queue (e # q) c = drain_queue q (on_message c e)"

lemma drain_queue_foldl: "drain_queue q c = foldl on_message c q"
  by (induction q arbitrary: c) auto

definition queue_of :: "bus \<Rightarrow> event list" where
  "queue_of b = (case subscription b of None \<Rightarrow> [] | Some q \<Rightarrow> q)"

definition drained :: "bus \<Rightarrow> authz_cache" where
  "drained b = drain_queue (queue_of b) (worker_cache b)"

text \<open>
  The invariant: the mirror is canonical, every waiting message is well formed and is already
  in the mirror, that is, the mirror is some earlier state followed by the events read so far
  and then by those that wait.
\<close>

definition in_mirror :: "redis \<Rightarrow> event list \<Rightarrow> bool" where
  "in_mirror r q \<longleftrightarrow> (\<exists>base ds. authority r = foldl on_message base (ds @ q))"

definition bus_inv :: "bus \<Rightarrow> bool" where
  "bus_inv b \<longleftrightarrow> canonical (mirror b) \<and> (\<forall>e \<in> set (queue_of b). well_formed e) \<and>
     in_mirror (mirror b) (queue_of b)"

lemma in_mirror_Nil [simp]: "in_mirror r []"
  unfolding in_mirror_def by (rule exI [of _ "authority r"], rule exI [of _ "[]"]) simp

lemma authority_reachable [simp]: "authority (r\<lparr>reachable := x\<rparr>) = authority r"
  by (simp add: authority_def)

lemma canonical_reachable [simp]: "canonical (r\<lparr>reachable := x\<rparr>) = canonical r"
  by (simp add: canonical_def)

lemma in_mirror_tl: "in_mirror r (e # q) \<Longrightarrow> in_mirror r q"
  unfolding in_mirror_def
proof (elim exE)
  fix base ds
  assume "authority r = foldl on_message base (ds @ e # q)"
  then have "authority r = foldl on_message base ((ds @ [e]) @ q)" by simp
  then show "\<exists>base ds. authority r = foldl on_message base (ds @ q)" by blast
qed

lemma in_mirror_replay: "in_mirror r q \<Longrightarrow> foldl on_message (authority r) q = authority r"
  unfolding in_mirror_def by (elim exE) (metis cache_events.replay_suffix)

lemma in_mirror_publish:
  assumes "in_mirror r q" "reachable r" "\<forall>e \<in> set es. well_formed e"
  shows "in_mirror (publish_events es r) (q @ es)"
proof -
  from assms(1) obtain base ds where "authority r = foldl on_message base (ds @ q)"
    by (auto simp: in_mirror_def)
  then have "authority (publish_events es r) = foldl on_message base (ds @ (q @ es))"
    using assms by (simp add: authority_publish)
  then show ?thesis unfolding in_mirror_def by blast
qed

lemma well_formed_apply: "well_formed e \<Longrightarrow> \<exists>c'. apply_event c e = Inr c'"
  by (cases e) (auto simp: uuid_parse_str)

lemma bus_inv_publish:
  assumes "bus_inv b" "\<forall>e \<in> set es. well_formed e"
  shows "bus_inv (bus_publish es b)"
  using assms
  by (auto simp: bus_inv_def bus_publish_def queue_of_def canonical_publish in_mirror_publish
      publish_unreachable split: option.splits)

lemma queue_of_deliver:
  "bus_inv b \<Longrightarrow> queue_of b = e # q \<Longrightarrow>
     bus_deliver b = b\<lparr>worker_cache := on_message (worker_cache b) e, subscription := Some q\<rparr>"
  using well_formed_apply [of e "worker_cache b"]
  by (auto simp: bus_inv_def queue_of_def bus_deliver_def on_message_def split: option.splits)

lemma queue_of_empty: "queue_of b = [] \<Longrightarrow> bus_deliver b = b"
  by (auto simp: queue_of_def bus_deliver_def split: option.splits)

lemma bus_inv_deliver:
  assumes "bus_inv b"
  shows "bus_inv (bus_deliver b)"
proof (cases "queue_of b")
  case Nil
  with assms show ?thesis by (simp add: queue_of_empty)
next
  case (Cons e q)
  with assms have "canonical (mirror b)" "\<forall>x \<in> set q. well_formed x" "in_mirror (mirror b) q"
    by (auto simp: bus_inv_def dest: in_mirror_tl)
  moreover from assms Cons
  have "bus_deliver b = b\<lparr>worker_cache := on_message (worker_cache b) e, subscription := Some q\<rparr>"
    by (rule queue_of_deliver)
  ultimately show ?thesis by (simp add: bus_inv_def queue_of_def)
qed

lemma bus_inv_resync: "bus_inv b \<Longrightarrow> bus_inv (bus_resync_read b)" "bus_inv b \<Longrightarrow> bus_inv (bus_resync_apply b)"
  by (simp_all add: bus_inv_def bus_resync_read_def bus_resync_apply_def queue_of_def split: option.splits)

lemma in_mirror_reachable [simp]: "in_mirror (r\<lparr>reachable := x\<rparr>) q = in_mirror r q"
  by (simp add: in_mirror_def)

lemma bus_step_inv: "bus_step b b' \<Longrightarrow> bus_inv b \<Longrightarrow> bus_inv b'"
  by (erule bus_stepE)
    (auto simp: bus_inv_publish bus_inv_deliver bus_inv_resync,
     auto simp: bus_inv_def queue_of_def split: option.splits)

lemma bus_reachable_inv: "bus_reachable b \<Longrightarrow> bus_inv b"
  by (induction rule: bus_reachable.induct)
    (auto simp: bus_step_inv, auto simp: bus_inv_def start_worker_def queue_of_def)

subsection \<open>Being in step with the mirror\<close>

text \<open>A worker is in step when reading what waits brings its cache to the mirror.\<close>

definition in_step :: "bus \<Rightarrow> bool" where
  "in_step b \<longleftrightarrow> drained b = authority (mirror b)"

lemma in_step_publish:
  assumes "in_step b" "subscription b \<noteq> None" "\<forall>e \<in> set es. well_formed e"
  shows "in_step (bus_publish es b)"
  using assms
  by (auto simp: in_step_def drained_def bus_publish_def queue_of_def drain_queue_foldl
      authority_publish publish_unreachable)

lemma drained_deliver: "bus_inv b \<Longrightarrow> drained (bus_deliver b) = drained b"
proof (cases "queue_of b")
  case (Cons e q)
  assume "bus_inv b"
  from queue_of_deliver [OF this Cons] Cons show ?thesis
    by (simp add: drained_def queue_of_def split: option.splits)
qed (simp add: queue_of_empty)

lemma mirror_deliver [simp]: "mirror (bus_deliver b) = mirror b"
  by (auto simp: bus_deliver_def split: option.splits list.splits sum.splits)

lemma in_step_deliver: "bus_inv b \<Longrightarrow> in_step b \<Longrightarrow> in_step (bus_deliver b)"
  by (simp add: in_step_def drained_deliver)

lemma subscription_publish [simp]: "subscription (bus_publish es b) = None \<longleftrightarrow> subscription b = None"
  by (simp add: bus_publish_def)

text \<open>What a resync finds at its end when it read the mirror before some more events came in.\<close>

lemma in_step_resync_apply:
  assumes "resync_pending b = Some (perm_versions r, inactive_users r, inactive_tenants r)"
    and "canonical r" and "in_mirror r pre"
    and "queue_of b = pre @ es" and "authority (mirror b) = foldl on_message (authority r) es"
  shows "in_step (bus_resync_apply b)"
proof -
  from assms(1,2) have "worker_cache (bus_resync_apply b) = authority r"
    by (simp add: bus_resync_apply_def resync_apply_canonical)
  moreover have "queue_of (bus_resync_apply b) = pre @ es" "mirror (bus_resync_apply b) = mirror b"
    using assms(1,4) by (simp_all add: bus_resync_apply_def queue_of_def)
  ultimately show ?thesis
    using in_mirror_replay [OF assms(3)] assms(5)
    by (simp add: in_step_def drained_def drain_queue_foldl)
qed

lemma in_mirror_drop: "in_mirror r q \<Longrightarrow> in_mirror r (drop n q)"
proof (induction n arbitrary: q)
  case (Suc n)
  then show ?case by (cases q) (auto dest: in_mirror_tl)
qed simp

lemma deliver_one:
  assumes "bus_inv b" "queue_of b = e # q"
  shows "bus_inv (bus_deliver b) \<and> queue_of (bus_deliver b) = q \<and> mirror (bus_deliver b) = mirror b \<and>
    resync_pending (bus_deliver b) = resync_pending b"
  using bus_inv_deliver [OF assms(1)] by (simp add: queue_of_deliver [OF assms] queue_of_def)

lemma deliver_many:
  assumes "bus_inv b" "n \<le> length (queue_of b)"
  shows "bus_inv ((bus_deliver ^^ n) b) \<and> queue_of ((bus_deliver ^^ n) b) = drop n (queue_of b) \<and>
    mirror ((bus_deliver ^^ n) b) = mirror b \<and>
    resync_pending ((bus_deliver ^^ n) b) = resync_pending b"
  using assms
proof (induction n)
  case (Suc n)
  then obtain e q where eq: "drop n (queue_of b) = e # q"
    by (metis Suc_le_lessD append_take_drop_id length_append length_drop list.exhaust list.size(3)
        not_add_less1 add_0_right length_take less_imp_le min_absorb2)
  with Suc have "drop (Suc n) (queue_of b) = q" "bus_inv ((bus_deliver ^^ n) b)"
    "queue_of ((bus_deliver ^^ n) b) = e # q"
    by (simp_all add: drop_Suc drop_tl flip: tl_drop)
  with Suc show ?case
    using deliver_one [of "(bus_deliver ^^ n) b" e q] by simp
qed simp

subsection \<open>Properties\<close>


definition example_user :: uuid where "example_user = 0x0123456789abcdef0123456789abcdef"

definition subscribed_start :: bus where
  "subscribed_start = (start_worker empty_redis)\<lparr>subscription := Some []\<rparr>"

lemma canonical_empty: "canonical empty_redis"
  by (simp add: canonical_def canonical_ids_def empty_redis_def)

lemma bus_reachable_subscribed_start: "bus_reachable subscribed_start"
  unfolding subscribed_start_def
  by (rule bus_reachable.step [OF bus_reachable.start [OF canonical_empty] bus_step.subscribe])
    (simp_all add: start_worker_def empty_redis_def)

lemma in_step_subscribed_start: "in_step subscribed_start"
  by (simp add: in_step_def drained_def queue_of_def subscribed_start_def start_worker_def
      authority_def empty_redis_def new_cache_def)

lemma subscribed_start_simps [simp]:
  "subscription subscribed_start = Some []" "resync_pending subscribed_start = None"
  "mirror subscribed_start = empty_redis" "worker_cache subscribed_start = new_cache"
  by (simp_all add: subscribed_start_def start_worker_def)




text \<open>
  The proviso is needed: the worker below has read the message that revokes version
  \<open>v\<close> of a user's tokens and refuses them; then a resync that had read the mirror before the
  message was published finishes, and the worker accepts those tokens again, although the
  mirror says they are revoked and no message about it is waiting.
\<close>

lemma resync_unlearns_revocation:
  "let b = bus_deliver (bus_publish [PermVersion (uuid_str u) (v + 1)] (bus_resync_read subscribed_start));
       b' = bus_resync_apply b
   in bus_reachable b' \<and> is_stale (worker_cache b) u v \<and> \<not> is_stale (drained b') u v \<and>
      is_stale (authority (mirror b')) u v"
proof -
  define b where
    "b = bus_deliver (bus_publish [PermVersion (uuid_str u) (v + 1)] (bus_resync_read subscribed_start))"
  have "bus_reachable (bus_resync_apply b)"
    unfolding b_def by (intro bus_reachable_ops bus_reachable_subscribed_start) simp
  moreover have "is_stale (worker_cache b) u v"
    by (simp add: b_def bus_deliver_def bus_publish_def bus_resync_read_def uuid_parse_str
        is_stale_def empty_redis_def)
  moreover have "drained (bus_resync_apply b) = new_cache"
    by (simp add: b_def bus_deliver_def bus_publish_def bus_resync_read_def uuid_parse_str
        empty_redis_def resync_read_def bus_resync_apply_def resync_apply_def drained_def
        queue_of_def new_cache_def)
  moreover have "is_stale (authority (mirror (bus_resync_apply b))) u v"
    by (simp add: b_def bus_deliver_def bus_publish_def bus_resync_read_def uuid_parse_str
        empty_redis_def resync_read_def bus_resync_apply_def publish_events_def queue_event_def
        is_stale_def authority_def parse_int_str_int)
  ultimately show ?thesis by (simp add: Let_def b_def [symmetric] is_stale_def new_cache_def)
qed

text \<open>
  A publish that finds Redis unreachable is lost for good: after the outage the mirror
  still says what it said before, so a resync of any worker gives exactly the cache it would
  have given had the change never been published.
\<close>

lemma publish_during_outage_is_lost:
  assumes "canonical r" "\<not> reachable r"
  shows "resync_once ((publish_events es r)\<lparr>reachable := True\<rparr>) c = authority r"
  using assms by (simp add: publish_unreachable resync_once_canonical)

lemma publish_during_outage_is_lost_witness:
  "resync_once ((publish_events [PermVersion (uuid_str example_user) 7]
      (empty_redis\<lparr>reachable := False\<rparr>))\<lparr>reachable := True\<rparr>) new_cache
    = authority (empty_redis\<lparr>reachable := False\<rparr>)"
  by (rule publish_during_outage_is_lost) (simp_all add: canonical_empty)

text \<open>
  Versions are overwritten, not maximised: when two requests bump a user's version to
  \<open>w\<close> and then to a greater one, and publish in the other order, a subscribed worker that is
  in step ends with \<open>w\<close>, and tokens of version \<open>w\<close>, which the database has revoked, are not
  stale to it.
\<close>

lemma late_publish_regresses:
  assumes "bus_reachable b" "in_step b" "reachable (mirror b)" "subscription b \<noteq> None" "w < w'"
  shows "is_stale (drained (bus_publish [PermVersion (uuid_str u) w'] b)) u w \<and>
    \<not> is_stale (drained (bus_publish [PermVersion (uuid_str u) w]
            (bus_publish [PermVersion (uuid_str u) w'] b))) u w"
proof -
  have *: "in_step (bus_publish [PermVersion (uuid_str u) w'] b)"
    "in_step (bus_publish [PermVersion (uuid_str u) w] (bus_publish [PermVersion (uuid_str u) w'] b))"
    using assms by (simp_all add: in_step_publish)
  have "mirror (bus_publish es b') = publish_events es (mirror b')" for es b'
    by (simp add: bus_publish_def)
  with * assms(3,5) show ?thesis
    by (simp add: in_step_def authority_publish on_message_def uuid_parse_str is_stale_def)
qed

lemma late_publish_regresses_witness:
  "is_stale (drained (bus_publish [PermVersion (uuid_str example_user) 4] subscribed_start)) example_user 3
   \<and> \<not> is_stale (drained (bus_publish [PermVersion (uuid_str example_user) 3]
      (bus_publish [PermVersion (uuid_str example_user) 4] subscribed_start))) example_user 3"
  by (rule late_publish_regresses [OF bus_reachable_subscribed_start in_step_subscribed_start])
    (simp_all add: empty_redis_def)

end
