(* ===== verification/Models.thy ===== *)
theory Models
  imports MaskCodec
begin

text \<open>
  The tables of \<^verbatim>\<open>app/models/\<close> and the objects loaded from them. A table is the list of its
  rows; an association table is the list of its key pairs. A loaded object extends its row
  with the relationships the query loads eagerly, as they were when it was loaded: what a
  service does with \<open>actor.roles\<close> or \<open>role.permission_mask\<close> reads the object, not the table.
\<close>

subsection \<open>Rows\<close>

record permission =
  p_id :: int
  p_name :: string
  p_bit_position :: "nat option"

record role =
  r_id :: int
  r_name :: string
  r_tenant_id :: "uuid option"
  r_permission_mask :: int

record tenant =
  t_id :: uuid
  t_name :: string
  t_is_active :: bool
  t_allowed_permission_mask :: int

record user =
  u_id :: uuid
  u_username :: string
  u_email :: string
  u_password :: "string option"
  u_is_verified :: bool
  u_is_superuser :: bool
  u_is_active :: bool
  u_created_by_id :: "uuid option"
  u_tenant_id :: "uuid option"
  u_perm_version :: int

text \<open>Times are microseconds since the epoch.\<close>

record refresh_token =
  k_token :: string
  k_user_id :: uuid
  k_expires_at :: int
  k_is_revoked :: bool

text \<open>\<open>Tenant.allowed_permissions\<close>, the name form of the ceiling.\<close>

definition allowed_permissions :: "tenant \<Rightarrow> string list" where
  "allowed_permissions t = names_for_mask (t_allowed_permission_mask t)"

subsection \<open>The database\<close>

text \<open>
  The last two fields are the sequences that number new roles and permissions. The pairs of
  \<open>grantable_roles\<close> and \<open>grantable_permissions\<close> are the association tables
  \<open>role_grantable_roles\<close> and \<open>role_grantable_permissions\<close>.
\<close>

record db =
  users :: "user list"
  roles :: "role list"
  permissions :: "permission list"
  tenants :: "tenant list"
  refresh_tokens :: "refresh_token list"
  user_roles :: "(uuid \<times> int) list"
  role_permissions :: "(int \<times> int) list"
  user_permissions :: "(uuid \<times> int) list"
  grantable_roles :: "(int \<times> int) list"
  grantable_permissions :: "(int \<times> int) list"
  next_role_id :: int
  next_permission_id :: int

definition empty_db :: db where
  "empty_db = \<lparr>users = [], roles = [], permissions = [], tenants = [], refresh_tokens = [],
     user_roles = [], role_permissions = [], user_permissions = [], grantable_roles = [],
     grantable_permissions = [], next_role_id = 1, next_permission_id = 1\<rparr>"

subsection \<open>Loaded objects\<close>

record role_obj = role +
  permissions_of :: "permission list"

record user_obj = user +
  roles_of :: "role_obj list"
  direct_permissions :: "permission list"
  tenant_of :: "tenant option"

text \<open>The rows a relationship joins: \<open>Role.permissions\<close>, \<open>User.roles\<close>, \<open>User.permissions\<close>.\<close>

definition role_perm_rows :: "db \<Rightarrow> int \<Rightarrow> permission list" where
  "role_perm_rows d rid = filter (\<lambda>p. (rid, p_id p) \<in> set (role_permissions d)) (permissions d)"

definition user_role_rows :: "db \<Rightarrow> uuid \<Rightarrow> role list" where
  "user_role_rows d uid = filter (\<lambda>r. (uid, r_id r) \<in> set (user_roles d)) (roles d)"

definition user_perm_rows :: "db \<Rightarrow> uuid \<Rightarrow> permission list" where
  "user_perm_rows d uid = filter (\<lambda>p. (uid, p_id p) \<in> set (user_permissions d)) (permissions d)"

definition load_role :: "db \<Rightarrow> role \<Rightarrow> role_obj" where
  "load_role d r = role.extend r \<lparr>permissions_of = role_perm_rows d (r_id r)\<rparr>"

definition tenant_by_id :: "db \<Rightarrow> uuid \<Rightarrow> tenant option" where
  "tenant_by_id d tid = List.find (\<lambda>t. t_id t = tid) (tenants d)"

definition load_user :: "db \<Rightarrow> user \<Rightarrow> user_obj" where
  "load_user d u = user.extend u
     \<lparr>roles_of = map (load_role d) (user_role_rows d (u_id u)),
      direct_permissions = user_perm_rows d (u_id u),
      tenant_of = (case u_tenant_id u of None \<Rightarrow> None | Some tid \<Rightarrow> tenant_by_id d tid)\<rparr>"

lemma load_role_simps [simp]:
  "r_id (load_role d r) = r_id r" "r_name (load_role d r) = r_name r"
  "r_tenant_id (load_role d r) = r_tenant_id r" "r_permission_mask (load_role d r) = r_permission_mask r"
  "permissions_of (load_role d r) = role_perm_rows d (r_id r)"
  by (simp_all add: load_role_def role.defs)

lemma load_user_simps [simp]:
  "u_id (load_user d u) = u_id u" "u_username (load_user d u) = u_username u"
  "u_email (load_user d u) = u_email u" "u_password (load_user d u) = u_password u"
  "u_is_verified (load_user d u) = u_is_verified u" "u_is_superuser (load_user d u) = u_is_superuser u"
  "u_is_active (load_user d u) = u_is_active u" "u_created_by_id (load_user d u) = u_created_by_id u"
  "u_tenant_id (load_user d u) = u_tenant_id u" "u_perm_version (load_user d u) = u_perm_version u"
  "roles_of (load_user d u) = map (load_role d) (user_role_rows d (u_id u))"
  "direct_permissions (load_user d u) = user_perm_rows d (u_id u)"
  "tenant_of (load_user d u) = (case u_tenant_id u of None \<Rightarrow> None | Some tid \<Rightarrow> tenant_by_id d tid)"
  by (simp_all add: load_user_def user.defs)

lemma set_role_perm_rows:
  "p \<in> set (role_perm_rows d rid) \<longleftrightarrow> p \<in> set (permissions d) \<and> (rid, p_id p) \<in> set (role_permissions d)"
  by (auto simp: role_perm_rows_def)

lemma set_user_role_rows:
  "r \<in> set (user_role_rows d uid) \<longleftrightarrow> r \<in> set (roles d) \<and> (uid, r_id r) \<in> set (user_roles d)"
  by (auto simp: user_role_rows_def)

lemma set_user_perm_rows:
  "p \<in> set (user_perm_rows d uid) \<longleftrightarrow> p \<in> set (permissions d) \<and> (uid, p_id p) \<in> set (user_permissions d)"
  by (auto simp: user_perm_rows_def)

subsection \<open>Constraints the tables declare\<close>

text \<open>
  Primary keys, unique columns and the two unique indexes of \<open>roles\<close> (names are unique among
  the roles of one tenant, and among the global roles), and the foreign keys of the
  association tables.
\<close>

definition role_name_taken :: "db \<Rightarrow> string \<Rightarrow> uuid option \<Rightarrow> bool" where
  "role_name_taken d name tid \<longleftrightarrow> (\<exists>r \<in> set (roles d). r_name r = name \<and> r_tenant_id r = tid)"

definition user_row_taken :: "db \<Rightarrow> uuid \<Rightarrow> string \<Rightarrow> string \<Rightarrow> bool" where
  "user_row_taken d uid username email \<longleftrightarrow>
     (\<exists>u \<in> set (users d). u_id u = uid \<or> u_username u = username \<or> u_email u = email)"

definition tenant_exists :: "db \<Rightarrow> uuid option \<Rightarrow> bool" where
  "tenant_exists d tid \<longleftrightarrow> (case tid of None \<Rightarrow> True | Some t \<Rightarrow> t \<in> t_id ` set (tenants d))"

definition user_keys :: "user list \<Rightarrow> bool" where
  "user_keys us \<longleftrightarrow> distinct (map u_id us) \<and> distinct (map u_username us) \<and> distinct (map u_email us)"

definition role_keys :: "role list \<Rightarrow> bool" where
  "role_keys rs \<longleftrightarrow> distinct (map r_id rs) \<and> distinct (map (\<lambda>r. (r_tenant_id r, r_name r)) rs)"

definition permission_keys :: "permission list \<Rightarrow> bool" where
  "permission_keys ps \<longleftrightarrow> distinct (map p_id ps) \<and> distinct (map p_name ps) \<and>
     (\<forall>p \<in> set ps. \<forall>q \<in> set ps. p_bit_position p \<noteq> None \<and> p_bit_position p = p_bit_position q \<longrightarrow> p = q)"

definition tenant_keys :: "tenant list \<Rightarrow> bool" where
  "tenant_keys ts \<longleftrightarrow> distinct (map t_id ts) \<and> distinct (map t_name ts)"

text \<open>The pairs of an association table refer to existing rows of both sides.\<close>

definition refers :: "('a \<times> 'b) list \<Rightarrow> 'a set \<Rightarrow> 'b set \<Rightarrow> bool" where
  "refers links A B \<longleftrightarrow> set links \<subseteq> A \<times> B"

abbreviation user_ids :: "db \<Rightarrow> uuid set" where "user_ids d \<equiv> u_id ` set (users d)"
abbreviation role_ids :: "db \<Rightarrow> int set" where "role_ids d \<equiv> r_id ` set (roles d)"
abbreviation permission_ids :: "db \<Rightarrow> int set" where "permission_ids d \<equiv> p_id ` set (permissions d)"

definition foreign_keys :: "db \<Rightarrow> bool" where
  "foreign_keys d \<longleftrightarrow>
     refers (user_roles d) (user_ids d) (role_ids d) \<and>
     refers (role_permissions d) (role_ids d) (permission_ids d) \<and>
     refers (user_permissions d) (user_ids d) (permission_ids d) \<and>
     refers (grantable_roles d) (role_ids d) (role_ids d) \<and>
     refers (grantable_permissions d) (role_ids d) (permission_ids d)"

text \<open>A sequence is past every number it has given out.\<close>

definition sequences :: "db \<Rightarrow> bool" where
  "sequences d \<longleftrightarrow> (\<forall>i \<in> role_ids d. i < next_role_id d) \<and>
     (\<forall>i \<in> permission_ids d. i < next_permission_id d)"

text \<open>The tenant of a user or role, when it has one, exists.\<close>

definition tenant_refs :: "db \<Rightarrow> bool" where
  "tenant_refs d \<longleftrightarrow> (\<forall>u \<in> set (users d). tenant_exists d (u_tenant_id u)) \<and>
     (\<forall>r \<in> set (roles d). tenant_exists d (r_tenant_id r))"

definition constraints :: "db \<Rightarrow> bool" where
  "constraints d \<longleftrightarrow> tenant_refs d \<and> user_keys (users d) \<and> role_keys (roles d) \<and> permission_keys (permissions d) \<and>
     tenant_keys (tenants d) \<and> foreign_keys d \<and> sequences d"

lemma tenant_exists_None [simp]: "tenant_exists d None"
  by (simp add: tenant_exists_def)

lemma tenant_exists_cong: "t_id ` set (tenants d') = t_id ` set (tenants d) \<Longrightarrow> tenant_exists d' t = tenant_exists d t"
  by (simp add: tenant_exists_def split: option.splits)

lemma tenant_exists_mono: "t_id ` set (tenants d) \<subseteq> t_id ` set (tenants d') \<Longrightarrow> tenant_exists d t \<Longrightarrow> tenant_exists d' t"
  by (auto simp: tenant_exists_def split: option.splits)

lemma tenant_exists_frame [simp]:
  "tenant_exists (d\<lparr>users := us\<rparr>) t = tenant_exists d t" "tenant_exists (d\<lparr>roles := rs\<rparr>) t = tenant_exists d t"
  "tenant_exists (d\<lparr>permissions := ps\<rparr>) t = tenant_exists d t"
  "tenant_exists (d\<lparr>refresh_tokens := ks\<rparr>) t = tenant_exists d t"
  "tenant_exists (d\<lparr>user_roles := l1\<rparr>) t = tenant_exists d t"
  "tenant_exists (d\<lparr>role_permissions := l2\<rparr>) t = tenant_exists d t"
  "tenant_exists (d\<lparr>user_permissions := l3\<rparr>) t = tenant_exists d t"
  "tenant_exists (d\<lparr>grantable_roles := l4\<rparr>) t = tenant_exists d t"
  "tenant_exists (d\<lparr>grantable_permissions := l5\<rparr>) t = tenant_exists d t"
  "tenant_exists (d\<lparr>next_role_id := i\<rparr>) t = tenant_exists d t"
  "tenant_exists (d\<lparr>next_permission_id := i\<rparr>) t = tenant_exists d t"
  by (simp_all add: tenant_exists_def split: option.split)

lemma refers_append [simp]: "refers (xs @ ys) A B \<longleftrightarrow> refers xs A B \<and> refers ys A B"
  by (auto simp: refers_def)

lemma refers_Nil [simp]: "refers [] A B"
  by (simp add: refers_def)

lemma refers_Cons [simp]: "refers ((a, b) # xs) A B \<longleftrightarrow> a \<in> A \<and> b \<in> B \<and> refers xs A B"
  by (auto simp: refers_def)

lemma refers_filter [intro]: "refers xs A B \<Longrightarrow> refers (filter P xs) A B"
  by (auto simp: refers_def)

lemma refers_map_pair [simp]: "refers (map (\<lambda>x. (a, f x)) xs) A B \<longleftrightarrow> xs = [] \<or> (a \<in> A \<and> f ` set xs \<subseteq> B)"
  by (cases xs) (auto simp: refers_def)

lemma refers_mono: "refers xs A B \<Longrightarrow> A \<subseteq> A' \<Longrightarrow> B \<subseteq> B' \<Longrightarrow> refers xs A' B'"
  by (auto simp: refers_def)

subsection \<open>The catalog in the database, and the cached masks\<close>

text \<open>
  After \<^verbatim>\<open>app/cli/sync_permissions.py\<close> has run, every name of the code's catalog has a row
  with its bit; a row with another name (a retired permission) keeps its old bit, which no
  catalog name uses and which fits the mask.
\<close>

definition catalog_synced :: "db \<Rightarrow> bool" where
  "catalog_synced d \<longleftrightarrow>
     (\<forall>n b. registry_bit n = Some b \<longrightarrow>
        (\<exists>p \<in> set (permissions d). p_name p = n)) \<and>
     (\<forall>p \<in> set (permissions d). \<forall>b. registry_bit (p_name p) = Some b \<longrightarrow> p_bit_position p = Some b) \<and>
     (\<forall>p \<in> set (permissions d). \<forall>b. p_bit_position p = Some b \<longrightarrow> b < 256)"

text \<open>The mask a role's permission rows amount to, and the invariant that it is the cached one.\<close>

definition bits_of :: "permission list \<Rightarrow> nat list" where
  "bits_of ps = List.map_filter p_bit_position ps"

definition row_mask :: "db \<Rightarrow> int \<Rightarrow> int" where
  "row_mask d rid = or_bits (bits_of (role_perm_rows d rid))"

definition masks_cached :: "db \<Rightarrow> bool" where
  "masks_cached d \<longleftrightarrow> (\<forall>r \<in> set (roles d). r_permission_mask r = row_mask d (r_id r))"

definition db_inv :: "db \<Rightarrow> bool" where
  "db_inv d \<longleftrightarrow> constraints d \<and> catalog_synced d \<and> masks_cached d"

lemma set_bits_of: "b \<in> set (bits_of ps) \<longleftrightarrow> (\<exists>p \<in> set ps. p_bit_position p = Some b)"
  by (force simp: bits_of_def List.map_filter_def)

lemma bit_row_mask [mask_simps]:
  "bit (row_mask d rid) k \<longleftrightarrow>
     (\<exists>p \<in> set (permissions d). (rid, p_id p) \<in> set (role_permissions d) \<and> p_bit_position p = Some k)"
  by (auto simp: row_mask_def bit_or_bits set_bits_of set_role_perm_rows)

lemma row_mask_valid:
  assumes "catalog_synced d"
  shows "valid_mask (row_mask d rid)"
proof -
  have "\<forall>b \<in> set (bits_of (role_perm_rows d rid)). b < 256"
    using assms by (auto simp: set_bits_of set_role_perm_rows catalog_synced_def)
  then show ?thesis unfolding row_mask_def by (intro conjI or_bits_less or_bits_nonneg)
qed

lemma cached_mask_valid:
  "masks_cached d \<Longrightarrow> catalog_synced d \<Longrightarrow> r \<in> set (roles d) \<Longrightarrow> valid_mask (r_permission_mask r)"
  using row_mask_valid by (auto simp: masks_cached_def)

lemma synced_bit:
  "catalog_synced d \<Longrightarrow> p \<in> set (permissions d) \<Longrightarrow> registry_bit (p_name p) = Some b \<Longrightarrow>
     p_bit_position p = Some b"
  by (simp add: catalog_synced_def)

lemma synced_row:
  "catalog_synced d \<Longrightarrow> registry_bit n = Some b \<Longrightarrow>
     \<exists>p \<in> set (permissions d). p_name p = n \<and> p_bit_position p = Some b"
  unfolding catalog_synced_def by metis

lemma bit_unique:
  "constraints d \<Longrightarrow> p \<in> set (permissions d) \<Longrightarrow> q \<in> set (permissions d) \<Longrightarrow>
     p_bit_position p = Some b \<Longrightarrow> p_bit_position q = Some b \<Longrightarrow> p = q"
  unfolding constraints_def permission_keys_def by (metis option.distinct(1))

lemma role_id_unique:
  "constraints d \<Longrightarrow> r \<in> set (roles d) \<Longrightarrow> s \<in> set (roles d) \<Longrightarrow> r_id r = r_id s \<Longrightarrow> r = s"
  by (auto simp: constraints_def user_keys_def role_keys_def permission_keys_def distinct_map dest: inj_onD)

lemma user_id_unique:
  "constraints d \<Longrightarrow> u \<in> set (users d) \<Longrightarrow> v \<in> set (users d) \<Longrightarrow> u_id u = u_id v \<Longrightarrow> u = v"
  by (auto simp: constraints_def user_keys_def role_keys_def permission_keys_def distinct_map dest: inj_onD)

lemma permission_id_unique:
  "constraints d \<Longrightarrow> p \<in> set (permissions d) \<Longrightarrow> q \<in> set (permissions d) \<Longrightarrow> p_id p = p_id q \<Longrightarrow> p = q"
  by (auto simp: constraints_def user_keys_def role_keys_def permission_keys_def distinct_map dest: inj_onD)

lemma permission_name_unique:
  "constraints d \<Longrightarrow> p \<in> set (permissions d) \<Longrightarrow> q \<in> set (permissions d) \<Longrightarrow>
     p_name p = p_name q \<Longrightarrow> p = q"
  by (auto simp: constraints_def user_keys_def role_keys_def permission_keys_def distinct_map dest: inj_onD)

end
