(* ===== verification/World.thy ===== *)
theory World
  imports Models AuthzCache
begin

text \<open>
  The state the repositories work on: the database and Redis. A repository method runs in one
  transaction of its session (\<open>commit\<close> at its end): a constraint the database refuses raises
  IntegrityError out of the method and leaves the database as it was. What the method
  publishes, it publishes after the commit.
\<close>

record world =
  w_db :: db
  w_redis :: redis

type_synonym 'a action = "world \<Rightarrow> (exn, 'a, world) outcome"

definition commit :: "db \<Rightarrow> event list \<Rightarrow> world \<Rightarrow> world" where
  "commit d events w = w\<lparr>w_db := d, w_redis := publish_events events (w_redis w)\<rparr>"

text \<open>\<open>await\<close> one call after another: an exception of the first is the exception of both.\<close>

definition and_then :: "'a action \<Rightarrow> ('a \<Rightarrow> 'b action) \<Rightarrow> 'b action" where
  "and_then m f w = (case m w of (Inl e, w') \<Rightarrow> (Inl e, w') | (Inr x, w') \<Rightarrow> f x w')"

text \<open>\<open>for x in xs: await f(x)\<close>.\<close>

fun for_each :: "('a \<Rightarrow> unit action) \<Rightarrow> 'a list \<Rightarrow> unit action" where
  "for_each f [] w = (Inr (), w)"
| "for_each f (x # xs) w = and_then (f x) (\<lambda>_. for_each f xs) w"

text \<open>
  What a sequence of calls does is what its calls do: a relation between worlds that is
  reflexive and transitive holds of \<open>and_then\<close> and \<open>for_each\<close> when it holds of each call. The
  services are proved by instances of it: the runs of the step relation, and leaving a part of
  the state as it was.
\<close>

locale composed_calls =
  fixes R :: "world \<Rightarrow> world \<Rightarrow> bool"
  assumes refl: "R w w" and trans: "R w w1 \<Longrightarrow> R w1 w2 \<Longrightarrow> R w w2"
begin

lemma and_then:
  assumes "R w (snd (m w))" "\<And>x. m w = (Inr x, snd (m w)) \<Longrightarrow> R (snd (m w)) (snd (f x (snd (m w))))"
  shows "R w (snd (and_then m f w))"
  using assms by (cases "m w"; cases "fst (m w)") (auto simp: and_then_def intro: trans)

lemma for_each:
  assumes "\<And>x w. x \<in> set xs \<Longrightarrow> R w (snd (f x w))"
  shows "R w (snd (for_each f xs w))"
  using assms by (induction xs arbitrary: w) (auto simp: refl intro!: and_then)

end

lemma and_then_Inr: "and_then m f w = (Inr y, w') \<longleftrightarrow> (\<exists>x w1. m w = (Inr x, w1) \<and> f x w1 = (Inr y, w'))"
  by (cases "m w"; cases "fst (m w)") (auto simp: and_then_def)

lemma and_then_Inl:
  "and_then m f w = (Inl e, w') \<longleftrightarrow> m w = (Inl e, w') \<or> (\<exists>x w1. m w = (Inr x, w1) \<and> f x w1 = (Inl e, w'))"
  by (cases "m w"; cases "fst (m w)") (auto simp: and_then_def)

lemma and_then_fst: "m w = (Inr x, w1) \<Longrightarrow> and_then m f w = f x w1"
  by (simp add: and_then_def)

text \<open>
  INSERT of one pair into an association table: refused when the pair is there already
  (primary key) or does not refer to existing rows (foreign keys). DELETE of one pair.
\<close>

definition insert_link :: "'a \<times> 'b \<Rightarrow> 'a list \<Rightarrow> 'b list \<Rightarrow> ('a \<times> 'b) list \<Rightarrow> ('a \<times> 'b) list option" where
  "insert_link ab as bs links =
     (if ab \<notin> set links \<and> fst ab \<in> set as \<and> snd ab \<in> set bs then Some (links @ [ab]) else None)"

definition delete_link :: "'a \<times> 'b \<Rightarrow> ('a \<times> 'b) list \<Rightarrow> ('a \<times> 'b) list" where
  "delete_link ab links = filter (\<lambda>x. x \<noteq> ab) links"

lemma insert_link_Some:
  "insert_link ab as bs links = Some l \<longleftrightarrow>
     ab \<notin> set links \<and> fst ab \<in> set as \<and> snd ab \<in> set bs \<and> l = links @ [ab]"
  by (auto simp: insert_link_def)

lemma set_delete_link [simp]: "set (delete_link ab links) = set links - {ab}"
  by (auto simp: delete_link_def)

lemma refers_delete_link [intro]: "refers xs A B \<Longrightarrow> refers (delete_link ab xs) A B"
  by (auto simp: refers_def)

text \<open>UPDATE of the rows with a key.\<close>

definition update_where :: "('a \<Rightarrow> bool) \<Rightarrow> ('a \<Rightarrow> 'a) \<Rightarrow> 'a list \<Rightarrow> 'a list" where
  "update_where P f xs = map (\<lambda>x. if P x then f x else x) xs"

lemma map_update_where:
  assumes "\<And>x. g (f x) = g x"
  shows "map g (update_where P f xs) = map g xs"
  using assms by (simp add: update_where_def)

lemma image_update_where:
  assumes "\<And>x. g (f x) = g x"
  shows "g ` set (update_where P f xs) = g ` set xs"
  by (metis assms list.set_map map_update_where)

lemma set_update_where: "set (update_where P f xs) = (\<lambda>x. if P x then f x else x) ` set xs"
  by (simp add: update_where_def)

lemma bex_update_where [simp]:
  "(\<exists>x \<in> set (update_where P f xs). Q x) \<longleftrightarrow> (\<exists>x \<in> set xs. Q (if P x then f x else x))"
  by (auto simp: update_where_def)

lemma find_update_where:
  assumes "\<And>x. k (f x) = k x"
  shows "List.find (\<lambda>x. k x = c) (update_where P f xs) =
    map_option (\<lambda>x. if P x then f x else x) (List.find (\<lambda>x. k x = c) xs)"
  unfolding update_where_def by (rule find_map_key) (simp add: assms)

lemma update_where_none: "(\<And>x. x \<in> set xs \<Longrightarrow> P x \<Longrightarrow> f x = x) \<Longrightarrow> update_where P f xs = xs"
  by (simp add: update_where_def map_idI)

subsection \<open>What keeps the invariant of the database\<close>

text \<open>One fact per table: what a write to it has to satisfy.\<close>

lemmas db_inv_defs = db_inv_def constraints_def tenant_refs_def foreign_keys_def sequences_def catalog_synced_def
  masks_cached_def row_mask_def role_perm_rows_def

lemma db_inv_user_roles:
  "db_inv d \<Longrightarrow> refers l (user_ids d) (role_ids d) \<Longrightarrow> db_inv (d\<lparr>user_roles := l\<rparr>)"
  by (simp add: db_inv_defs)

lemma db_inv_user_permissions:
  "db_inv d \<Longrightarrow> refers l (user_ids d) (permission_ids d) \<Longrightarrow> db_inv (d\<lparr>user_permissions := l\<rparr>)"
  by (simp add: db_inv_defs)

lemma db_inv_grantable_roles:
  "db_inv d \<Longrightarrow> refers l (role_ids d) (role_ids d) \<Longrightarrow> db_inv (d\<lparr>grantable_roles := l\<rparr>)"
  by (simp add: db_inv_defs)

lemma db_inv_grantable_permissions:
  "db_inv d \<Longrightarrow> refers l (role_ids d) (permission_ids d) \<Longrightarrow> db_inv (d\<lparr>grantable_permissions := l\<rparr>)"
  by (simp add: db_inv_defs)

lemma db_inv_tokens [simp]: "db_inv (d\<lparr>refresh_tokens := l\<rparr>) = db_inv d"
  by (simp add: db_inv_defs)

lemma db_inv_tenants:
  "db_inv d \<Longrightarrow> tenant_keys l \<Longrightarrow> t_id ` set (tenants d) \<subseteq> t_id ` set l \<Longrightarrow> db_inv (d\<lparr>tenants := l\<rparr>)"
  using tenant_exists_mono [of d "d\<lparr>tenants := l\<rparr>"] by (simp add: db_inv_defs)

lemma db_inv_users:
  assumes "db_inv d" "user_keys l" "user_ids d \<subseteq> u_id ` set l" "\<forall>u \<in> set l. tenant_exists d (u_tenant_id u)"
  shows "db_inv (d\<lparr>users := l\<rparr>)"
  using assms by (auto simp: db_inv_defs intro: refers_mono)

lemma db_inv_users_same:
  assumes "db_inv d" "map u_id l = map u_id (users d)" "map u_username l = map u_username (users d)"
    "map u_email l = map u_email (users d)" "map u_tenant_id l = map u_tenant_id (users d)"
  shows "db_inv (d\<lparr>users := l\<rparr>)"
proof (rule db_inv_users [OF assms(1)])
  show "user_keys l" using assms by (simp add: user_keys_def db_inv_def constraints_def)
  show "user_ids d \<subseteq> u_id ` set l" by (metis assms(2) list.set_map order_refl)
  have "u_tenant_id ` set l = u_tenant_id ` set (users d)" by (metis assms(5) list.set_map)
  moreover have "\<forall>t \<in> u_tenant_id ` set (users d). tenant_exists d t"
    using assms(1) by (simp add: db_inv_def constraints_def tenant_refs_def)
  ultimately show "\<forall>u \<in> set l. tenant_exists d (u_tenant_id u)" by (metis imageI)
qed

lemma db_inv_update_users:
  assumes "db_inv d" "\<And>u. u_id (f u) = u_id u" "\<And>u. u_username (f u) = u_username u"
    "\<And>u. u_email (f u) = u_email u" "\<And>u. u_tenant_id (f u) = u_tenant_id u"
  shows "db_inv (d\<lparr>users := update_where P f (users d)\<rparr>)"
  by (rule db_inv_users_same [OF assms(1)]) (simp_all add: map_update_where assms)

lemma db_inv_append_user:
  assumes "db_inv d" "\<not> user_row_taken d (u_id u) (u_username u) (u_email u)" "tenant_exists d (u_tenant_id u)"
  shows "db_inv (d\<lparr>users := users d @ [u]\<rparr>)"
  using assms
  by (intro db_inv_users) (auto simp: user_row_taken_def user_keys_def db_inv_def constraints_def tenant_refs_def)

lemma db_inv_update_tenants:
  assumes "db_inv d" "\<And>t. t_id (f t) = t_id t" "\<And>t. t_name (f t) = t_name t"
  shows "db_inv (d\<lparr>tenants := update_where P f (tenants d)\<rparr>)"
  by (rule db_inv_tenants [OF assms(1)])
    (use assms in \<open>simp_all add: tenant_keys_def map_update_where image_update_where db_inv_def constraints_def\<close>)

lemma db_inv_constraints: "db_inv d \<Longrightarrow> constraints d"
  by (simp add: db_inv_def)

lemma db_inv_synced: "db_inv d \<Longrightarrow> catalog_synced d"
  by (simp add: db_inv_def)

lemma db_inv_masks: "db_inv d \<Longrightarrow> masks_cached d"
  by (simp add: db_inv_def)

text \<open>The invariant of the whole state.\<close>

definition world_inv :: "world \<Rightarrow> bool" where
  "world_inv w \<longleftrightarrow> db_inv (w_db w) \<and> canonical (w_redis w)"

lemma commit_simps [simp]:
  "w_db (commit d es w) = d" "w_redis (commit d es w) = publish_events es (w_redis w)"
  by (simp_all add: commit_def)

lemma publish_none [simp]: "publish_events [] r = r"
  by (simp add: publish_events_def)

lemma world_inv_commit:
  "world_inv w \<Longrightarrow> db_inv d \<Longrightarrow> \<forall>e \<in> set es. well_formed e \<Longrightarrow> world_inv (commit d es w)"
  by (simp add: world_inv_def canonical_publish)

lemma world_inv_db [intro]: "world_inv w \<Longrightarrow> db_inv (w_db w)"
  by (simp add: world_inv_def)

end
