(* ===== verification/RoleRepo.thy ===== *)
theory RoleRepo
  imports World
begin

text \<open>
  \<^verbatim>\<open>app/repositories/rbac/role.py\<close>: the roles, what they hold, who holds them and what their
  holders may hand out. A method that changes what a user's permissions amount to also bumps
  the \<open>perm_version\<close> of those users in the same transaction and publishes the new versions
  after the commit.

  A method that is given a \<open>role\<close> object reads its attributes and writes absolute values back,
  as the object-relational mapper does: an attribute whose value did not change is not written.
\<close>

subsection \<open>Queries\<close>

definition get_role :: "int \<Rightarrow> db \<Rightarrow> role_obj option" where
  "get_role role_id d = map_option (load_role d) (List.find (\<lambda>r. r_id r = role_id) (roles d))"

definition get_role_by_name :: "string \<Rightarrow> uuid option \<Rightarrow> db \<Rightarrow> role option" where
  "get_role_by_name name tenant_id d =
     List.find (\<lambda>r. r_name r = name \<and> r_tenant_id r = tenant_id) (roles d)"

definition get_roles_by_ids :: "int list \<Rightarrow> db \<Rightarrow> role_obj list" where
  "get_roles_by_ids rids d =
     (if rids = [] then []
      else map (load_role d) (filter (\<lambda>r. r_id r \<in> set rids) (roles d)))"

definition list_roles :: "nat \<Rightarrow> nat \<Rightarrow> db \<Rightarrow> role_obj list" where
  "list_roles skip limit d = map (load_role d) (page skip limit (roles d))"

definition list_roles_by_tenant :: "uuid option \<Rightarrow> nat \<Rightarrow> nat \<Rightarrow> db \<Rightarrow> role_obj list" where
  "list_roles_by_tenant tenant_id skip limit d = map (load_role d) (page skip limit
     (filter (\<lambda>r. r_tenant_id r = tenant_id \<or> r_tenant_id r = None) (roles d)))"

definition user_has_role :: "uuid \<Rightarrow> int \<Rightarrow> db \<Rightarrow> bool" where
  "user_has_role user_id role_id d \<longleftrightarrow> (user_id, role_id) \<in> set (user_roles d)"

definition get_permission_by_id :: "int \<Rightarrow> db \<Rightarrow> permission option" where
  "get_permission_by_id permission_id d = List.find (\<lambda>p. p_id p = permission_id) (permissions d)"

definition grantable_role_link_exists :: "int \<Rightarrow> int \<Rightarrow> db \<Rightarrow> bool" where
  "grantable_role_link_exists role_id grantable_role_id d \<longleftrightarrow>
     (role_id, grantable_role_id) \<in> set (grantable_roles d)"

definition grantable_permission_link_exists :: "int \<Rightarrow> int \<Rightarrow> db \<Rightarrow> bool" where
  "grantable_permission_link_exists role_id permission_id d \<longleftrightarrow>
     (role_id, permission_id) \<in> set (grantable_permissions d)"

definition get_grantable_role_ids :: "int list \<Rightarrow> db \<Rightarrow> int set" where
  "get_grantable_role_ids rids d =
     (if rids = [] then {}
      else set (map snd (filter (\<lambda>(r, g). r \<in> set rids) (grantable_roles d))))"

definition get_grantable_permission_ids :: "int list \<Rightarrow> db \<Rightarrow> int set" where
  "get_grantable_permission_ids rids d =
     (if rids = [] then {}
      else set (map snd (filter (\<lambda>(r, p). r \<in> set rids) (grantable_permissions d))))"

definition get_grantable_permission_mask :: "int list \<Rightarrow> db \<Rightarrow> int" where
  "get_grantable_permission_mask rids d =
     (if rids = [] then 0
      else fold (\<lambda>bp m. case bp of None \<Rightarrow> m | Some b \<Rightarrow> m OR bit1 b)
             (concat (map (\<lambda>(r, pid). if r \<in> set rids
                then map p_bit_position (filter (\<lambda>p. p_id p = pid) (permissions d)) else [])
                (grantable_permissions d))) 0)"

subsection \<open>Version bumps\<close>

text \<open>\<open>UPDATE users SET perm_version = perm_version + 1 WHERE \<dots> RETURNING id, perm_version\<close>.\<close>

definition bump_user :: "user \<Rightarrow> user" where
  "bump_user u = u\<lparr>u_perm_version := u_perm_version u + 1\<rparr>"

definition version_event :: "user \<Rightarrow> event" where
  "version_event u = PermVersion (uuid_str (u_id u)) (u_perm_version u)"

definition bump_where :: "(user \<Rightarrow> bool) \<Rightarrow> db \<Rightarrow> db \<times> event list" where
  "bump_where P d = (let us = update_where P bump_user (users d) in
     (d\<lparr>users := us\<rparr>, map (version_event \<circ> bump_user) (filter P (users d))))"

definition bump_perm_version :: "uuid list \<Rightarrow> db \<Rightarrow> db \<times> event list" where
  "bump_perm_version uids d =
     (if uids = [] then (d, []) else bump_where (\<lambda>u. u_id u \<in> set uids) d)"

definition bump_perm_version_for_role_holders :: "int \<Rightarrow> db \<Rightarrow> db \<times> event list" where
  "bump_perm_version_for_role_holders role_id d =
     bump_where (\<lambda>u. u_id u \<in> set (map fst (filter (\<lambda>(x, r). r = role_id) (user_roles d)))) d"

subsection \<open>Creating and changing roles\<close>

definition role_create ::
    "string \<Rightarrow> uuid option \<Rightarrow> permission list \<Rightarrow> int \<Rightarrow> role_obj action" where
  "role_create name tenant_id perms permission_mask w =
     (let d = w_db w in
      case store_mask permission_mask of Inl e \<Rightarrow> (Inl e, w)
      | Inr m \<Rightarrow>
        if role_name_taken d name tenant_id \<or> \<not> tenant_exists d tenant_id \<or>
           \<not> p_id ` set perms \<subseteq> permission_ids d
        then (Inl IntegrityError, w)
        else
          let rid = next_role_id d;
              row = \<lparr>r_id = rid, r_name = name, r_tenant_id = tenant_id, r_permission_mask = m\<rparr>;
              d' = d\<lparr>roles := roles d @ [row],
                     role_permissions := role_permissions d @ map (\<lambda>p. (rid, p_id p)) perms,
                     next_role_id := rid + 1\<rparr>
          in (Inr (load_role d' row), commit d' [] w))"

text \<open>The rows of the permissions a tenant's root role gets under a ceiling.\<close>

definition root_role_mask :: "int \<Rightarrow> int" where
  "root_role_mask allowed_permission_mask = allowed_permission_mask AND TENANT_ROLE_MASK"

definition root_role_rows :: "int \<Rightarrow> db \<Rightarrow> permission list" where
  "root_role_rows effective_mask d =
     (let all_rows = filter (\<lambda>p. p_name p \<notin> set SUPERUSER_ONLY_PERMISSIONS) (permissions d) in
      filter (\<lambda>p. case p_bit_position p of None \<Rightarrow> False
                  | Some b \<Rightarrow> effective_mask AND bit1 b \<noteq> 0) all_rows)"

definition create_root_tenant_role :: "uuid \<Rightarrow> int \<Rightarrow> role_obj action" where
  "create_root_tenant_role tenant_id allowed_permission_mask w =
     (let d = w_db w;
          effective_mask = root_role_mask allowed_permission_mask;
          permission_rows = root_role_rows effective_mask d in
      case store_mask effective_mask of Inl e \<Rightarrow> (Inl e, w)
      | Inr m \<Rightarrow>
        if role_name_taken d ''tenant-admin'' (Some tenant_id) \<or> \<not> tenant_exists d (Some tenant_id)
        then (Inl IntegrityError, w)
        else
          let rid = next_role_id d;
              row = \<lparr>r_id = rid, r_name = ''tenant-admin'', r_tenant_id = Some tenant_id,
                     r_permission_mask = m\<rparr>;
              links = map (\<lambda>p. (rid, p_id p)) permission_rows;
              d' = d\<lparr>roles := roles d @ [row], role_permissions := role_permissions d @ links,
                     grantable_permissions := grantable_permissions d @ links,
                     next_role_id := rid + 1\<rparr>
          in (Inr (load_role d' row), commit d' [] w))"

definition drop_role :: "int \<Rightarrow> (int \<times> int) list \<Rightarrow> (int \<times> int) list" where
  "drop_role rid links = filter (\<lambda>(r, x). r \<noteq> rid) links"

definition sync_root_tenant_role_permissions :: "uuid \<Rightarrow> int \<Rightarrow> role_obj option action" where
  "sync_root_tenant_role_permissions tenant_id allowed_permission_mask w =
     (let d = w_db w in
      case List.find (\<lambda>r. r_tenant_id r = Some tenant_id \<and> r_name r = ''tenant-admin'') (roles d) of
        None \<Rightarrow> (Inr None, w)
      | Some role \<Rightarrow>
        let effective_mask = root_role_mask allowed_permission_mask;
            permission_rows = root_role_rows effective_mask d;
            links = map (\<lambda>p. (r_id role, p_id p)) permission_rows in
        (case store_mask effective_mask of Inl e \<Rightarrow> (Inl e, w)
         | Inr m \<Rightarrow>
           let d1 = d\<lparr>roles := update_where (\<lambda>r. r_id r = r_id role) (\<lambda>r. r\<lparr>r_permission_mask := m\<rparr>) (roles d),
                      role_permissions := drop_role (r_id role) (role_permissions d) @ links,
                      grantable_permissions := drop_role (r_id role) (grantable_permissions d) @ links\<rparr>;
               (d2, events) = bump_perm_version_for_role_holders (r_id role) d1
           in (Inr (get_role (r_id role) d2), commit d2 events w)))"

text \<open>\<open>update_data\<close> holds the fields of \<open>RoleUpdate\<close> that were set; its one field is \<open>name\<close>.\<close>

definition role_update :: "role_obj \<Rightarrow> string option \<Rightarrow> role_obj option action" where
  "role_update role new_name w =
     (let d = w_db w in
      case new_name of None \<Rightarrow> (Inr (get_role (r_id role) d), w)
      | Some name \<Rightarrow>
        if \<exists>r \<in> set (roles d). r_id r \<noteq> r_id role \<and> r_name r = name \<and> r_tenant_id r = r_tenant_id role
        then (Inl IntegrityError, w)
        else
          let d' = d\<lparr>roles := update_where (\<lambda>r. r_id r = r_id role) (\<lambda>r. r\<lparr>r_name := name\<rparr>) (roles d)\<rparr>
          in (Inr (get_role (r_id role) d'), commit d' [] w))"

text \<open>
  Deleting a role deletes the rows of every association table that refer to it, on either
  side of \<open>role_grantable_roles\<close>.
\<close>

definition role_delete :: "role_obj \<Rightarrow> unit action" where
  "role_delete role w =
     (let d = w_db w; rid = r_id role;
          d' = d\<lparr>roles := filter (\<lambda>r. r_id r \<noteq> rid) (roles d),
                 role_permissions := drop_role rid (role_permissions d),
                 user_roles := filter (\<lambda>(u, r). r \<noteq> rid) (user_roles d),
                 grantable_roles := filter (\<lambda>(r, g). r \<noteq> rid \<and> g \<noteq> rid) (grantable_roles d),
                 grantable_permissions := drop_role rid (grantable_permissions d)\<rparr>
      in (Inr (), commit d' [] w))"

subsection \<open>Holders\<close>

definition assign_to_user :: "int \<Rightarrow> uuid \<Rightarrow> unit action" where
  "assign_to_user role_id user_id w =
     (let d = w_db w in
      case insert_link (user_id, role_id) (map u_id (users d)) (map r_id (roles d)) (user_roles d) of
        None \<Rightarrow> (Inl IntegrityError, w)
      | Some links \<Rightarrow>
        let (d', events) = bump_perm_version [user_id] (d\<lparr>user_roles := links\<rparr>)
        in (Inr (), commit d' events w))"

definition remove_from_user :: "int \<Rightarrow> uuid \<Rightarrow> unit action" where
  "remove_from_user role_id user_id w =
     (let d = w_db w;
          (d', events) = bump_perm_version [user_id]
            (d\<lparr>user_roles := delete_link (user_id, role_id) (user_roles d)\<rparr>)
      in (Inr (), commit d' events w))"

subsection \<open>A role's permissions\<close>

definition write_role_mask :: "role_obj \<Rightarrow> int \<Rightarrow> db \<Rightarrow> db" where
  "write_role_mask role m d =
     (if m = r_permission_mask role then d
      else d\<lparr>roles := update_where (\<lambda>r. r_id r = r_id role) (\<lambda>r. r\<lparr>r_permission_mask := m\<rparr>) (roles d)\<rparr>)"

text \<open>\<open>db.refresh(role)\<close>: the row is there, since the same transaction just linked or unlinked it.\<close>

definition refresh_role :: "role_obj \<Rightarrow> db \<Rightarrow> role_obj" where
  "refresh_role role d = (case get_role (r_id role) d of Some r \<Rightarrow> r | None \<Rightarrow> role)"

definition add_permission :: "role_obj \<Rightarrow> permission \<Rightarrow> role_obj action" where
  "add_permission role perm w =
     (let d = w_db w;
          mask = (case p_bit_position perm of None \<Rightarrow> r_permission_mask role
                  | Some b \<Rightarrow> r_permission_mask role OR bit1 b) in
      case store_mask mask of Inl e \<Rightarrow> (Inl e, w)
      | Inr m \<Rightarrow>
        (case insert_link (r_id role, p_id perm) (map r_id (roles d)) (map p_id (permissions d))
            (role_permissions d) of
           None \<Rightarrow> (Inl IntegrityError, w)
         | Some links \<Rightarrow>
           let d1 = write_role_mask role m (d\<lparr>role_permissions := links\<rparr>);
               (d2, events) = bump_perm_version_for_role_holders (r_id role) d1
           in (Inr (refresh_role role d2), commit d2 events w)))"

definition remove_permission :: "role_obj \<Rightarrow> permission \<Rightarrow> role_obj action" where
  "remove_permission role perm w =
     (let d = w_db w;
          mask = (case p_bit_position perm of None \<Rightarrow> r_permission_mask role
                  | Some b \<Rightarrow> r_permission_mask role AND NOT (bit1 b)) in
      if p_id perm \<notin> p_id ` set (permissions_of role)
      then (Inl (ValueError ''list.remove(x): x not in list''), w)
      else if (r_id role, p_id perm) \<notin> set (role_permissions d)
      then (Inl StaleDataError, w)
      else
        (case store_mask mask of Inl e \<Rightarrow> (Inl e, w)
         | Inr m \<Rightarrow>
           let d1 = write_role_mask role m
                 (d\<lparr>role_permissions := delete_link (r_id role, p_id perm) (role_permissions d)\<rparr>);
               (d2, events) = bump_perm_version_for_role_holders (r_id role) d1
           in (Inr (refresh_role role d2), commit d2 events w)))"

subsection \<open>What holders may hand out\<close>

definition add_grantable_role :: "int \<Rightarrow> int \<Rightarrow> unit action" where
  "add_grantable_role role_id grantable_role_id w =
     (let d = w_db w in
      case insert_link (role_id, grantable_role_id) (map r_id (roles d)) (map r_id (roles d))
          (grantable_roles d) of
        None \<Rightarrow> (Inl IntegrityError, w)
      | Some links \<Rightarrow> (Inr (), commit (d\<lparr>grantable_roles := links\<rparr>) [] w))"

definition remove_grantable_role :: "int \<Rightarrow> int \<Rightarrow> unit action" where
  "remove_grantable_role role_id grantable_role_id w =
     (let d = w_db w in
      (Inr (), commit (d\<lparr>grantable_roles :=
         delete_link (role_id, grantable_role_id) (grantable_roles d)\<rparr>) [] w))"

definition add_grantable_permission :: "int \<Rightarrow> int \<Rightarrow> unit action" where
  "add_grantable_permission role_id permission_id w =
     (let d = w_db w in
      case insert_link (role_id, permission_id) (map r_id (roles d)) (map p_id (permissions d))
          (grantable_permissions d) of
        None \<Rightarrow> (Inl IntegrityError, w)
      | Some links \<Rightarrow> (Inr (), commit (d\<lparr>grantable_permissions := links\<rparr>) [] w))"

definition remove_grantable_permission :: "int \<Rightarrow> int \<Rightarrow> unit action" where
  "remove_grantable_permission role_id permission_id w =
     (let d = w_db w in
      (Inr (), commit (d\<lparr>grantable_permissions :=
         delete_link (role_id, permission_id) (grantable_permissions d)\<rparr>) [] w))"

lemmas role_repo_defs [op_defs] =
  role_create_def create_root_tenant_role_def sync_root_tenant_role_permissions_def role_update_def
  role_delete_def assign_to_user_def remove_from_user_def add_permission_def remove_permission_def
  add_grantable_role_def remove_grantable_role_def add_grantable_permission_def
  remove_grantable_permission_def

subsection \<open>Bumping\<close>

lemma bump_user_simps [simp]:
  "u_id (bump_user u) = u_id u" "u_username (bump_user u) = u_username u"
  "u_email (bump_user u) = u_email u" "u_tenant_id (bump_user u) = u_tenant_id u"
  "u_perm_version (bump_user u) = u_perm_version u + 1" "u_is_active (bump_user u) = u_is_active u"
  "u_is_superuser (bump_user u) = u_is_superuser u" "u_password (bump_user u) = u_password u"
  by (simp_all add: bump_user_def)

lemma well_formed_version_event [simp]: "well_formed (version_event u)"
  by (simp add: version_event_def)

lemma bump_where_db: "fst (bump_where P d) = d\<lparr>users := update_where P bump_user (users d)\<rparr>"
  by (simp add: bump_where_def)

lemma bump_where_events: "\<forall>e \<in> set (snd (bump_where P d)). well_formed e"
  by (simp add: bump_where_def)

lemma bump_is_where:
  "bump_perm_version uids d = bump_where (\<lambda>u. u_id u \<in> set uids) d \<or> uids = []"
  "uids \<noteq> [] \<Longrightarrow> bump_perm_version uids d = bump_where (\<lambda>u. u_id u \<in> set uids) d"
  by (simp_all add: bump_perm_version_def)

lemma holders_pred: "u \<in> set (map fst (filter (\<lambda>(x, r). r = rid) links)) \<longleftrightarrow> (u, rid) \<in> set links"
  by force

lemma bump_holders:
  "bump_perm_version_for_role_holders rid d = bump_where (\<lambda>u. (u_id u, rid) \<in> set (user_roles d)) d"
  unfolding bump_perm_version_for_role_holders_def holders_pred ..

lemma db_inv_bump: "db_inv d \<Longrightarrow> db_inv (fst (bump_where P d))"
  by (simp add: bump_where_db db_inv_update_users)

subsection \<open>Operations keep the invariant\<close>

text \<open>What an operation that is given a role object relies on: the object is what the database holds.\<close>

abbreviation loaded_role :: "db \<Rightarrow> role_obj \<Rightarrow> bool" where
  "loaded_role d role \<equiv> role \<in> load_role d ` set (roles d)"

lemma get_role_loaded: "get_role rid d = Some role \<Longrightarrow> loaded_role d role \<and> r_id role = rid"
  by (auto simp: get_role_def dest: find_SomeD)

lemma get_role_Some:
  assumes "constraints d" "r \<in> set (roles d)"
  shows "get_role (r_id r) d = Some (load_role d r)"
  using assms find_unique [of r_id "roles d" r]
  by (simp add: get_role_def constraints_def role_keys_def)

lemma get_role_None: "get_role rid d = None \<longleftrightarrow> rid \<notin> role_ids d"
  by (auto simp: get_role_def find_None_iff)

lemma db_inv_rolesI:
  assumes "db_inv d" "users d' = users d" "permissions d' = permissions d" "tenants d' = tenants d"
    "next_permission_id d' = next_permission_id d" "role_keys (roles d')" "foreign_keys d'"
    "\<forall>i \<in> role_ids d'. i < next_role_id d'" "masks_cached d'"
    "\<And>r. r \<in> set (roles d') \<Longrightarrow> tenant_exists d (r_tenant_id r)"
  shows "db_inv d'"
proof -
  have "tenant_exists d' = tenant_exists d" using assms(4) by (simp add: fun_eq_iff tenant_exists_def split: option.split)
  with assms show ?thesis
    by (simp add: db_inv_def constraints_def tenant_refs_def sequences_def catalog_synced_def)
qed

lemma role_tenant_exists: "constraints d \<Longrightarrow> r \<in> set (roles d) \<Longrightarrow> tenant_exists d (r_tenant_id r)"
  by (simp add: constraints_def tenant_refs_def)

lemma row_mask_eqI:
  assumes "\<And>k. bit m k \<longleftrightarrow>
    (\<exists>p \<in> set (permissions d). (rid, p_id p) \<in> set (role_permissions d) \<and> p_bit_position p = Some k)"
  shows "m = row_mask d rid"
  by (rule bit_eqI) (simp add: assms bit_row_mask)

lemma foreign_keys_roles: "foreign_keys d \<Longrightarrow> (rid, x) \<in> set (role_permissions d) \<Longrightarrow> rid \<in> role_ids d"
  by (auto simp: foreign_keys_def refers_def)

lemma next_role_id_fresh: "constraints d \<Longrightarrow> next_role_id d \<notin> role_ids d"
  by (auto simp: constraints_def sequences_def)

lemma fresh_role_no_rows:
  "constraints d \<Longrightarrow> (next_role_id d, x) \<notin> set (role_permissions d)"
  by (meson constraints_def foreign_keys_roles next_role_id_fresh)

text \<open>A new role with its permission rows.\<close>

definition add_role_row :: "role \<Rightarrow> permission list \<Rightarrow> (int \<times> int) list \<Rightarrow> db \<Rightarrow> db" where
  "add_role_row row ps grants d = d\<lparr>roles := roles d @ [row],
     role_permissions := role_permissions d @ map (\<lambda>p. (r_id row, p_id p)) ps,
     grantable_permissions := grantable_permissions d @ grants,
     next_role_id := r_id row + 1\<rparr>"

lemma db_inv_add_role:
  assumes inv: "db_inv d" and row: "r_id row = next_role_id d"
    and fresh: "\<not> role_name_taken d (r_name row) (r_tenant_id row)"
    and tid: "tenant_exists d (r_tenant_id row)"
    and ps: "set ps \<subseteq> set (permissions d)"
    and m: "\<And>k. bit (r_permission_mask row) k \<longleftrightarrow> (\<exists>p \<in> set ps. p_bit_position p = Some k)"
    and grants: "refers grants {r_id row} (permission_ids d)"
  shows "db_inv (add_role_row row ps grants d)" (is "db_inv ?d")
proof (rule db_inv_rolesI [OF inv])
  have c: "constraints d" using inv by (rule db_inv_constraints)
  note new = next_role_id_fresh [OF c] and norows = fresh_role_no_rows [OF c]
  show "role_keys (roles ?d)"
    using c fresh new row
    by (auto simp: add_role_row_def constraints_def role_keys_def role_name_taken_def)
  show "foreign_keys ?d"
    using c ps grants
    by (auto simp: constraints_def foreign_keys_def add_role_row_def elim!: refers_mono)
  show "\<forall>i \<in> role_ids ?d. i < next_role_id ?d"
    using c row by (auto simp: add_role_row_def constraints_def sequences_def)
  show "masks_cached ?d"
    unfolding masks_cached_def
  proof
    fix r
    assume "r \<in> set (roles ?d)"
    then consider "r \<in> set (roles d)" | "r = row" by (auto simp: add_role_row_def)
    then show "r_permission_mask r = row_mask ?d (r_id r)"
    proof cases
      case 1
      with new row have "r_id r \<noteq> r_id row" by force
      then have "row_mask ?d (r_id r) = row_mask d (r_id r)"
        by (intro bit_eqI) (auto simp: bit_row_mask add_role_row_def)
      with 1 inv show ?thesis by (simp add: db_inv_def masks_cached_def)
    next
      case 2
      have "(r_id row, p_id p) \<in> set (role_permissions ?d) \<longleftrightarrow> p \<in> set ps"
        if "p \<in> set (permissions d)" for p
        using ps permission_id_unique [OF c that] norows row
        by (force simp: add_role_row_def)
      moreover have "permissions ?d = permissions d" by (simp add: add_role_row_def)
      ultimately show ?thesis
        using 2 ps m by (intro row_mask_eqI) (metis subsetD)
    qed
  qed
qed (use tid role_tenant_exists [OF db_inv_constraints [OF inv]] in \<open>auto simp: add_role_row_def\<close>)

text \<open>New permission rows, and the mask that goes with them, for one role.\<close>

definition set_role_rows :: "int \<Rightarrow> int \<Rightarrow> (int \<times> int) list \<Rightarrow> (int \<times> int) list \<Rightarrow> db \<Rightarrow> db" where
  "set_role_rows rid m rows grants d =
     d\<lparr>roles := update_where (\<lambda>r. r_id r = rid) (\<lambda>r. r\<lparr>r_permission_mask := m\<rparr>) (roles d),
       role_permissions := rows, grantable_permissions := grants\<rparr>"

lemma role_keys_update:
  "(\<And>r. r_id (f r) = r_id r) \<Longrightarrow> (\<And>r. r_name (f r) = r_name r) \<Longrightarrow>
   (\<And>r. r_tenant_id (f r) = r_tenant_id r) \<Longrightarrow> role_keys (update_where P f rs) = role_keys rs"
  by (simp add: role_keys_def map_update_where)

lemma foreign_keys_same_ids:
  assumes "foreign_keys d" "u_id ` set (users d') = user_ids d" "r_id ` set (roles d') = role_ids d"
    "permission_ids d' = permission_ids d" "user_roles d' = user_roles d"
    "user_permissions d' = user_permissions d" "grantable_roles d' = grantable_roles d"
    "refers (role_permissions d') (role_ids d) (permission_ids d)"
    "refers (grantable_permissions d') (role_ids d) (permission_ids d)"
  shows "foreign_keys d'"
  using assms by (simp add: foreign_keys_def)

lemma role_ids_set_role_rows [simp]: "role_ids (set_role_rows rid m rows grants d) = role_ids d"
  by (simp add: set_role_rows_def image_update_where)

lemma db_inv_set_role_rows:
  assumes inv: "db_inv d"
    and rows: "refers rows (role_ids d) (permission_ids d)"
    and grants: "refers grants (role_ids d) (permission_ids d)"
    and others: "\<And>r x. r \<noteq> rid \<Longrightarrow> (r, x) \<in> set rows \<longleftrightarrow> (r, x) \<in> set (role_permissions d)"
    and m: "\<And>k. bit m k \<longleftrightarrow>
      (\<exists>p \<in> set (permissions d). (rid, p_id p) \<in> set rows \<and> p_bit_position p = Some k)"
  shows "db_inv (set_role_rows rid m rows grants d)" (is "db_inv ?d")
proof (rule db_inv_rolesI [OF inv])
  have c: "constraints d" using inv by (rule db_inv_constraints)
  show "role_keys (roles ?d)"
    using c by (simp add: set_role_rows_def role_keys_update constraints_def)
  show "foreign_keys ?d"
    by (rule foreign_keys_same_ids [of d])
      (use c rows grants in \<open>simp_all add: constraints_def set_role_rows_def image_update_where\<close>)
  show "\<forall>i \<in> role_ids ?d. i < next_role_id ?d"
    using c by (simp only: role_ids_set_role_rows) (simp add: set_role_rows_def constraints_def sequences_def)
  have "row_mask ?d rid = m"
    using m by (intro row_mask_eqI [symmetric]) (simp add: set_role_rows_def)
  moreover have "row_mask ?d r = row_mask d r" if "r \<noteq> rid" for r
    using that by (intro bit_eqI) (simp add: bit_row_mask set_role_rows_def others)
  moreover have "\<forall>r \<in> set (roles d). r_permission_mask r = row_mask d (r_id r)"
    using inv by (simp add: db_inv_def masks_cached_def)
  moreover have "set (roles ?d) = (\<lambda>r. if r_id r = rid then r\<lparr>r_permission_mask := m\<rparr> else r) ` set (roles d)"
    by (simp add: set_role_rows_def set_update_where)
  ultimately show "masks_cached ?d" unfolding masks_cached_def by auto
qed (use role_tenant_exists [OF db_inv_constraints [OF inv]] in
  \<open>auto simp: set_role_rows_def set_update_where\<close>)

lemma write_role_mask_loaded:
  assumes "loaded_role d role" "constraints d"
  shows "write_role_mask role m (d\<lparr>role_permissions := rows\<rparr>) =
    set_role_rows (r_id role) m rows (grantable_permissions d) d"
proof -
  from assms(1) obtain r where r: "r \<in> set (roles d)" "role = load_role d r" by auto
  have "update_where (\<lambda>x. r_id x = r_id role) (\<lambda>x. x\<lparr>r_permission_mask := r_permission_mask role\<rparr>)
      (roles d) = roles d"
    using r role_id_unique [OF assms(2)] by (intro update_where_none) fastforce
  then show ?thesis by (auto simp: write_role_mask_def set_role_rows_def)
qed

lemma loaded_role_mask:
  "db_inv d \<Longrightarrow> loaded_role d role \<Longrightarrow> r_permission_mask role = row_mask d (r_id role)"
  by (auto simp: db_inv_def masks_cached_def)

lemma refers_rows: "constraints d \<Longrightarrow> refers (role_permissions d) (role_ids d) (permission_ids d)"
  "constraints d \<Longrightarrow> refers (grantable_permissions d) (role_ids d) (permission_ids d)"
  "constraints d \<Longrightarrow> refers (user_roles d) (user_ids d) (role_ids d)"
  "constraints d \<Longrightarrow> refers (grantable_roles d) (role_ids d) (role_ids d)"
  "constraints d \<Longrightarrow> refers (user_permissions d) (user_ids d) (permission_ids d)"
  by (simp_all add: constraints_def foreign_keys_def)

lemma bit_mask_add:
  assumes inv: "db_inv d" and perm: "perm \<in> set (permissions d)" and role: "loaded_role d role"
  shows "bit (case p_bit_position perm of None \<Rightarrow> r_permission_mask role
              | Some b \<Rightarrow> r_permission_mask role OR bit1 b) k \<longleftrightarrow>
     (\<exists>p \<in> set (permissions d). (r_id role, p_id p) \<in> set (role_permissions d @ [(r_id role, p_id perm)])
        \<and> p_bit_position p = Some k)"
proof -
  have "p_id p = p_id perm \<longleftrightarrow> p = perm" if "p \<in> set (permissions d)" for p
    using permission_id_unique [OF db_inv_constraints [OF inv] that perm] by blast
  with perm loaded_role_mask [OF inv role] show ?thesis
    by (auto simp: bit_or_iff bit_bit1 bit_row_mask split: option.splits)
qed

lemma bit_mask_remove:
  assumes inv: "db_inv d" and perm: "perm \<in> set (permissions d)" and role: "loaded_role d role"
  shows "bit (case p_bit_position perm of None \<Rightarrow> r_permission_mask role
              | Some b \<Rightarrow> r_permission_mask role AND NOT (bit1 b)) k \<longleftrightarrow>
     (\<exists>p \<in> set (permissions d). (r_id role, p_id p) \<in>
        set (delete_link (r_id role, p_id perm) (role_permissions d)) \<and> p_bit_position p = Some k)"
proof -
  note c = db_inv_constraints [OF inv]
  have id: "p_id p = p_id perm \<longleftrightarrow> p = perm" if "p \<in> set (permissions d)" for p
    using permission_id_unique [OF c that perm] by blast
  have rows: "(\<exists>p \<in> set (permissions d). (r_id role, p_id p) \<in>
        set (delete_link (r_id role, p_id perm) (role_permissions d)) \<and> p_bit_position p = Some k) \<longleftrightarrow>
      (\<exists>p \<in> set (permissions d). (r_id role, p_id p) \<in> set (role_permissions d) \<and> p \<noteq> perm \<and>
        p_bit_position p = Some k)"
    using id by auto
  show ?thesis
  proof (cases "p_bit_position perm")
    case None
    then show ?thesis unfolding rows loaded_role_mask [OF inv role] by (auto simp: bit_row_mask)
  next
    case (Some b)
    have "p \<noteq> perm \<longleftrightarrow> k \<noteq> b" if "p \<in> set (permissions d)" "p_bit_position p = Some k" for p
      using bit_unique [OF c that(1) perm] Some that by auto
    then show ?thesis
      unfolding rows loaded_role_mask [OF inv role] using Some
      by (auto simp: bit_and_iff bit_not_iff bit_bit1 bit_row_mask)
  qed
qed

lemma valid_of_rows:
  assumes "catalog_synced d"
    and "\<And>k. bit m k \<longleftrightarrow> (\<exists>p \<in> set (permissions d). Q p \<and> p_bit_position p = Some k)"
  shows "valid_mask m"
proof -
  have eq: "m = or_bits (bits_of (filter Q (permissions d)))"
    by (rule bit_eqI) (auto simp: assms(2) bit_or_bits set_bits_of)
  have "\<forall>b \<in> set (bits_of (filter Q (permissions d))). b < 256"
    using assms(1) by (auto simp: set_bits_of catalog_synced_def)
  then show ?thesis unfolding eq by (intro conjI or_bits_less or_bits_nonneg)
qed

lemma set_root_role_rows:
  "p \<in> set (root_role_rows m d) \<longleftrightarrow> p \<in> set (permissions d) \<and>
     p_name p \<notin> set SUPERUSER_ONLY_PERMISSIONS \<and> (\<exists>b. p_bit_position p = Some b \<and> bit m b)"
  by (auto simp: root_role_rows_def and_bit1_nonzero split: option.splits)

lemma bit_root_role_mask:
  assumes "catalog_synced d"
  shows "bit (root_role_mask a) k \<longleftrightarrow>
    (\<exists>p \<in> set (root_role_rows (root_role_mask a) d). p_bit_position p = Some k)"
proof
  assume "bit (root_role_mask a) k"
  moreover from this obtain n where "registry_bit n = Some k" "n \<notin> set SUPERUSER_ONLY_PERMISSIONS"
    by (auto simp: root_role_mask_def bit_and_iff bit_tenant_role_mask)
  moreover from this(1) obtain p where "p \<in> set (permissions d)" "p_name p = n" "p_bit_position p = Some k"
    using synced_row [OF assms] by blast
  ultimately show "\<exists>p \<in> set (root_role_rows (root_role_mask a) d). p_bit_position p = Some k"
    by (auto simp: set_root_role_rows)
qed (auto simp: set_root_role_rows)

lemma valid_root_role_mask: "valid_mask (root_role_mask a)"
  using tenant_role_mask_bounds by (auto simp: root_role_mask_def intro: le_less_trans [OF AND_upper2])

lemma store_root_role_mask [simp]: "store_mask (root_role_mask a) = Inr (root_role_mask a)"
  by (rule store_mask_valid [OF valid_root_role_mask])

lemma set_drop_role: "(r, x) \<in> set (drop_role rid links) \<longleftrightarrow> r \<noteq> rid \<and> (r, x) \<in> set links"
  by (auto simp: drop_role_def)

lemma refers_drop_role [intro]: "refers l A B \<Longrightarrow> refers (drop_role rid l) A B"
  by (auto simp: drop_role_def)

lemma db_inv_role_create:
  assumes "world_inv w" "set ps \<subseteq> set (permissions (w_db w))"
    and "\<And>k. bit m k \<longleftrightarrow> (\<exists>p \<in> set ps. p_bit_position p = Some k)"
  shows "world_inv (snd (role_create name tid ps m w))"
proof -
  let ?d = "w_db w"
  let ?row = "\<lparr>r_id = next_role_id ?d, r_name = name, r_tenant_id = tid, r_permission_mask = m\<rparr>"
  have "db_inv (add_role_row ?row ps [] ?d)" if "\<not> role_name_taken ?d name tid" "tenant_exists ?d tid"
    using assms that by (intro db_inv_add_role) (auto simp: world_inv_db)
  then show ?thesis
    using assms(1)
    by (auto simp: role_create_def Let_def add_role_row_def store_mask_Inr world_inv_def
        split: sum.splits)
qed

lemma world_inv_create_root:
  assumes "world_inv w"
  shows "world_inv (snd (create_root_tenant_role tid a w))"
proof -
  let ?d = "w_db w" and ?m = "root_role_mask a"
  let ?row = "\<lparr>r_id = next_role_id ?d, r_name = ''tenant-admin'', r_tenant_id = Some tid,
     r_permission_mask = ?m\<rparr>"
  let ?ps = "root_role_rows ?m ?d"
  have "db_inv (add_role_row ?row ?ps (map (\<lambda>p. (r_id ?row, p_id p)) ?ps) ?d)"
    if "\<not> role_name_taken ?d ''tenant-admin'' (Some tid)" "tenant_exists ?d (Some tid)"
    using assms that
    by (intro db_inv_add_role) (auto simp: world_inv_db bit_root_role_mask [of ?d]
        db_inv_synced set_root_role_rows)
  then show ?thesis
    using assms
    by (auto simp: create_root_tenant_role_def Let_def add_role_row_def world_inv_def)
qed

lemma world_inv_bump:
  "world_inv w \<Longrightarrow> db_inv d \<Longrightarrow> world_inv (commit (fst (bump_where P d)) (snd (bump_where P d)) w)"
  by (intro world_inv_commit db_inv_bump bump_where_events)

lemma db_inv_sync_root:
  assumes inv: "db_inv d" and role: "role \<in> set (roles d)"
  shows "db_inv (set_role_rows (r_id role) (root_role_mask a)
    (drop_role (r_id role) (role_permissions d) @ map (\<lambda>p. (r_id role, p_id p)) (root_role_rows (root_role_mask a) d))
    (drop_role (r_id role) (grantable_permissions d) @ map (\<lambda>p. (r_id role, p_id p)) (root_role_rows (root_role_mask a) d))
    d)"
proof (rule db_inv_set_role_rows [OF inv])
  have c: "constraints d" using inv by (rule db_inv_constraints)
  let ?ps = "root_role_rows (root_role_mask a) d"
  have ids: "(r_id role, p_id p) \<in> set (drop_role (r_id role) (role_permissions d) @
      map (\<lambda>p. (r_id role, p_id p)) ?ps) \<longleftrightarrow> p \<in> set ?ps" if "p \<in> set (permissions d)" for p
    using permission_id_unique [OF c that] by (fastforce simp: set_drop_role set_root_role_rows)
  fix k
  show "bit (root_role_mask a) k \<longleftrightarrow> (\<exists>p \<in> set (permissions d). (r_id role, p_id p) \<in>
     set (drop_role (r_id role) (role_permissions d) @ map (\<lambda>p. (r_id role, p_id p)) ?ps) \<and>
     p_bit_position p = Some k)"
    unfolding bit_root_role_mask [OF db_inv_synced [OF inv], of a]
    using ids by (metis set_root_role_rows)
qed (use role refers_rows [OF db_inv_constraints [OF inv]] in
  \<open>auto simp: set_drop_role set_root_role_rows\<close>)

lemma world_inv_sync_root:
  assumes "world_inv w"
  shows "world_inv (snd (sync_root_tenant_role_permissions tid a w))"
  by (auto simp: sync_root_tenant_role_permissions_def Let_def bump_holders case_prod_beta assms
      split: option.splits dest!: find_SomeD simp flip: set_role_rows_def
      intro!: world_inv_bump [OF assms] db_inv_sync_root [OF world_inv_db [OF assms]])

lemma role_keys_rename:
  assumes keys: "role_keys rs" and role: "role \<in> set rs"
    and free: "\<forall>r \<in> set rs. r_id r \<noteq> r_id role \<longrightarrow> \<not> (r_name r = name \<and> r_tenant_id r = r_tenant_id role)"
  shows "role_keys (update_where (\<lambda>r. r_id r = r_id role) (\<lambda>r. r\<lparr>r_name := name\<rparr>) rs)"
proof -
  let ?f = "\<lambda>r. if r_id r = r_id role then r\<lparr>r_name := name\<rparr> else r"
  have id: "r = s" if "r \<in> set rs" "s \<in> set rs" "r_id r = r_id s" for r s
    using keys that by (auto simp: role_keys_def distinct_map dest: inj_onD)
  have name: "r = s" if "r \<in> set rs" "s \<in> set rs" "r_tenant_id r = r_tenant_id s" "r_name r = r_name s" for r s
    using keys that by (auto simp: role_keys_def distinct_map dest: inj_onD)
  have "inj_on (\<lambda>r. (r_tenant_id (?f r), r_name (?f r))) (set rs)"
  proof (rule inj_onI)
    fix r s
    assume *: "r \<in> set rs" "s \<in> set rs"
      "(r_tenant_id (?f r), r_name (?f r)) = (r_tenant_id (?f s), r_name (?f s))"
    show "r = s"
      using * free role id name by (cases "r_id r = r_id role"; cases "r_id s = r_id role") (simp; metis)+
  qed
  with keys show ?thesis
    by (simp add: role_keys_def map_update_where) (simp add: update_where_def distinct_map comp_def)
qed

lemma row_mask_roles [simp]: "row_mask (d\<lparr>roles := rs\<rparr>) rid = row_mask d rid"
  by (simp add: row_mask_def role_perm_rows_def)

lemma world_inv_role_update:
  assumes inv: "world_inv w" and role: "loaded_role (w_db w) role"
  shows "world_inv (snd (role_update role new_name w))"
proof -
  let ?d = "w_db w"
  have db: "db_inv ?d" using inv by (rule world_inv_db)
  from role obtain r where r: "r \<in> set (roles ?d)" "role = load_role ?d r" by auto
  have "db_inv (?d\<lparr>roles := update_where (\<lambda>r. r_id r = r_id role) (\<lambda>r. r\<lparr>r_name := name\<rparr>) (roles ?d)\<rparr>)"
    if "\<not> (\<exists>r \<in> set (roles ?d). r_id r \<noteq> r_id role \<and> r_name r = name \<and> r_tenant_id r = r_tenant_id role)" for name
  proof (rule db_inv_rolesI [OF db])
    have c: "constraints ?d" using db by (rule db_inv_constraints)
    show "role_keys (roles (?d\<lparr>roles := update_where (\<lambda>r. r_id r = r_id role) (\<lambda>r. r\<lparr>r_name := name\<rparr>) (roles ?d)\<rparr>))"
      using role_keys_rename [of "roles ?d" r name] r that c by (auto simp: constraints_def)
    show "foreign_keys (?d\<lparr>roles := update_where (\<lambda>r. r_id r = r_id role) (\<lambda>r. r\<lparr>r_name := name\<rparr>) (roles ?d)\<rparr>)"
      using c by (simp add: constraints_def foreign_keys_def image_update_where)
    show "\<forall>i \<in> role_ids (?d\<lparr>roles := update_where (\<lambda>r. r_id r = r_id role) (\<lambda>r. r\<lparr>r_name := name\<rparr>) (roles ?d)\<rparr>).
        i < next_role_id (?d\<lparr>roles := update_where (\<lambda>r. r_id r = r_id role) (\<lambda>r. r\<lparr>r_name := name\<rparr>) (roles ?d)\<rparr>)"
      using c by (auto simp: constraints_def sequences_def set_update_where)
    show "masks_cached (?d\<lparr>roles := update_where (\<lambda>r. r_id r = r_id role) (\<lambda>r. r\<lparr>r_name := name\<rparr>) (roles ?d)\<rparr>)"
      using db by (auto simp: db_inv_def masks_cached_def set_update_where)
  qed (use role_tenant_exists [OF db_inv_constraints [OF db]] in \<open>auto simp: set_update_where\<close>)
  then show ?thesis
    using inv by (auto simp: role_update_def Let_def world_inv_def split: option.splits)
qed

lemma refers_drop:
  "refers l A B \<Longrightarrow> refers (filter (\<lambda>(a, b). a \<noteq> x) l) (A - {x}) B"
  "refers k B A \<Longrightarrow> refers (filter (\<lambda>(b, a). a \<noteq> x) k) B (A - {x})"
  "refers g A A \<Longrightarrow> refers (filter (\<lambda>(a, b). a \<noteq> x \<and> b \<noteq> x) g) (A - {x}) (A - {x})"
  by (auto simp: refers_def)

lemma world_inv_role_delete:
  assumes inv: "world_inv w"
  shows "world_inv (snd (role_delete role w))"
proof -
  let ?d = "w_db w"
  let ?d' = "w_db (snd (role_delete role w))"
  have db: "db_inv ?d" using inv by (rule world_inv_db)
  then have c: "constraints ?d" by (rule db_inv_constraints)
  have ids: "r_id ` {r \<in> set (roles ?d). r_id r \<noteq> r_id role} = role_ids ?d - {r_id role}"
    by auto
  have "db_inv ?d'"
  proof (rule db_inv_rolesI [OF db])
    show "role_keys (roles ?d')"
      using c by (simp add: role_delete_def Let_def constraints_def role_keys_def distinct_map_filter)
    show "foreign_keys ?d'"
      using c by (simp add: ids constraints_def foreign_keys_def role_delete_def Let_def drop_role_def
          refers_drop)
    show "\<forall>i \<in> role_ids ?d'. i < next_role_id ?d'"
      using c by (auto simp: role_delete_def Let_def constraints_def sequences_def)
    have "row_mask ?d' i = row_mask ?d i" if "i \<noteq> r_id role" for i
      using that by (intro bit_eqI) (simp add: bit_row_mask role_delete_def Let_def set_drop_role)
    then show "masks_cached ?d'"
      using db by (auto simp: db_inv_def masks_cached_def) (simp add: role_delete_def Let_def)
  qed (use role_tenant_exists [OF c] in \<open>auto simp: role_delete_def Let_def\<close>)
  with inv show ?thesis by (simp add: world_inv_def role_delete_def Let_def)
qed

lemma world_inv_assign: "world_inv w \<Longrightarrow> world_inv (snd (assign_to_user rid uid w))"
  by (auto simp: assign_to_user_def Let_def bump_is_where(2) case_prod_beta insert_link_Some refers_rows
      db_inv_constraints world_inv_db split: option.splits intro!: world_inv_bump db_inv_user_roles)

lemma world_inv_remove: "world_inv w \<Longrightarrow> world_inv (snd (remove_from_user rid uid w))"
  by (auto simp: remove_from_user_def Let_def bump_is_where(2) case_prod_beta refers_rows
      db_inv_constraints world_inv_db intro!: world_inv_bump db_inv_user_roles)

lemma db_inv_add_permission:
  assumes inv: "db_inv d" and role: "loaded_role d role" and perm: "perm \<in> set (permissions d)"
  shows "db_inv (set_role_rows (r_id role)
     (case p_bit_position perm of None \<Rightarrow> r_permission_mask role | Some b \<Rightarrow> r_permission_mask role OR bit1 b)
     (role_permissions d @ [(r_id role, p_id perm)]) (grantable_permissions d) d)"
proof (rule db_inv_set_role_rows [OF inv])
  show "bit (case p_bit_position perm of None \<Rightarrow> r_permission_mask role | Some b \<Rightarrow> r_permission_mask role OR bit1 b) k
      \<longleftrightarrow> (\<exists>p \<in> set (permissions d). (r_id role, p_id p) \<in>
            set (role_permissions d @ [(r_id role, p_id perm)]) \<and> p_bit_position p = Some k)" for k
    by (rule bit_mask_add [OF inv perm role])
qed (use refers_rows [OF db_inv_constraints [OF inv]] role perm in auto)

lemma db_inv_remove_permission:
  assumes inv: "db_inv d" and role: "loaded_role d role" and perm: "perm \<in> set (permissions d)"
  shows "db_inv (set_role_rows (r_id role)
     (case p_bit_position perm of None \<Rightarrow> r_permission_mask role
      | Some b \<Rightarrow> r_permission_mask role AND NOT (bit1 b))
     (delete_link (r_id role, p_id perm) (role_permissions d)) (grantable_permissions d) d)"
proof (rule db_inv_set_role_rows [OF inv])
  show "bit (case p_bit_position perm of None \<Rightarrow> r_permission_mask role
        | Some b \<Rightarrow> r_permission_mask role AND NOT (bit1 b)) k
      \<longleftrightarrow> (\<exists>p \<in> set (permissions d). (r_id role, p_id p) \<in>
            set (delete_link (r_id role, p_id perm) (role_permissions d)) \<and> p_bit_position p = Some k)" for k
    by (rule bit_mask_remove [OF inv perm role])
qed (use refers_rows [OF db_inv_constraints [OF inv]] in auto)

text \<open>What the two operations on a loaded role amount to.\<close>

lemma add_permission_eq:
  assumes "world_inv w" "loaded_role (w_db w) role" "perm \<in> set (permissions (w_db w))"
  shows "add_permission role perm w =
    (let d = w_db w in
     if (r_id role, p_id perm) \<in> set (role_permissions d) then (Inl IntegrityError, w)
     else let b = bump_perm_version_for_role_holders (r_id role) (set_role_rows (r_id role)
           (case p_bit_position perm of None \<Rightarrow> r_permission_mask role | Some b \<Rightarrow> r_permission_mask role OR bit1 b)
           (role_permissions d @ [(r_id role, p_id perm)]) (grantable_permissions d) d)
       in (Inr (refresh_role role (fst b)), commit (fst b) (snd b) w))"
proof -
  have db: "db_inv (w_db w)" using assms(1) by (rule world_inv_db)
  let ?m = "case p_bit_position perm of None \<Rightarrow> r_permission_mask role | Some b \<Rightarrow> r_permission_mask role OR bit1 b"
  have "valid_mask ?m"
    using valid_of_rows [OF db_inv_synced [OF db] bit_mask_add [OF db assms(3,2)]] .
  then have "store_mask ?m = Inr ?m" by (rule store_mask_valid)
  moreover have "(r_id role, p_id perm) \<in> role_ids (w_db w) \<times> permission_ids (w_db w)"
    using assms(2,3) by auto
  ultimately show ?thesis
    using write_role_mask_loaded [OF assms(2) db_inv_constraints [OF db]]
    by (simp add: add_permission_def Let_def case_prod_beta insert_link_def)
qed

lemma remove_permission_eq:
  assumes "world_inv w" "loaded_role (w_db w) role" "perm \<in> set (permissions (w_db w))"
  shows "remove_permission role perm w =
    (let d = w_db w in
     if (r_id role, p_id perm) \<notin> set (role_permissions d)
     then (Inl (ValueError ''list.remove(x): x not in list''), w)
     else let b = bump_perm_version_for_role_holders (r_id role) (set_role_rows (r_id role)
           (case p_bit_position perm of None \<Rightarrow> r_permission_mask role
            | Some b \<Rightarrow> r_permission_mask role AND NOT (bit1 b))
           (delete_link (r_id role, p_id perm) (role_permissions d)) (grantable_permissions d) d)
       in (Inr (refresh_role role (fst b)), commit (fst b) (snd b) w))"
proof -
  have db: "db_inv (w_db w)" using assms(1) by (rule world_inv_db)
  let ?m = "case p_bit_position perm of None \<Rightarrow> r_permission_mask role
    | Some b \<Rightarrow> r_permission_mask role AND NOT (bit1 b)"
  have "valid_mask ?m"
    using valid_of_rows [OF db_inv_synced [OF db] bit_mask_remove [OF db assms(3,2)]] .
  then have "store_mask ?m = Inr ?m" by (rule store_mask_valid)
  moreover have "p_id perm \<in> p_id ` set (permissions_of role) \<longleftrightarrow>
      (r_id role, p_id perm) \<in> set (role_permissions (w_db w))"
    using assms(2,3) by (force simp: set_role_perm_rows)
  ultimately show ?thesis
    using write_role_mask_loaded [OF assms(2) db_inv_constraints [OF db]]
    by (simp add: remove_permission_def Let_def case_prod_beta)
qed

lemma world_inv_add_permission:
  assumes "world_inv w" "loaded_role (w_db w) role" "perm \<in> set (permissions (w_db w))"
  shows "world_inv (snd (add_permission role perm w))"
  using world_inv_bump [OF assms(1) db_inv_add_permission [OF world_inv_db [OF assms(1)] assms(2,3)]] assms(1)
  by (simp add: add_permission_eq [OF assms] Let_def bump_holders)

lemma world_inv_remove_permission:
  assumes "world_inv w" "loaded_role (w_db w) role" "perm \<in> set (permissions (w_db w))"
  shows "world_inv (snd (remove_permission role perm w))"
  using world_inv_bump [OF assms(1) db_inv_remove_permission [OF world_inv_db [OF assms(1)] assms(2,3)]] assms(1)
  by (simp add: remove_permission_eq [OF assms] Let_def bump_holders)

lemma world_inv_grantable:
  assumes "world_inv w"
  shows "world_inv (snd (add_grantable_role r g w))" "world_inv (snd (remove_grantable_role r g w))"
    "world_inv (snd (add_grantable_permission r g w))" "world_inv (snd (remove_grantable_permission r g w))"
proof -
  note c = refers_rows [OF db_inv_constraints [OF world_inv_db [OF assms]]]
  note i = db_inv_grantable_roles [OF world_inv_db [OF assms]]
    db_inv_grantable_permissions [OF world_inv_db [OF assms]]
  show "world_inv (snd (add_grantable_role r g w))" "world_inv (snd (remove_grantable_role r g w))"
    "world_inv (snd (add_grantable_permission r g w))" "world_inv (snd (remove_grantable_permission r g w))"
    using c assms
    by (auto simp: add_grantable_role_def remove_grantable_role_def add_grantable_permission_def
        remove_grantable_permission_def Let_def insert_link_Some split: option.splits
        intro!: world_inv_commit i)
qed

end
