(* ===== verification/Repositories.thy ===== *)
theory Repositories
  imports RoleRepo "HOL-Library.List_Lexorder" "HOL-Library.Char_ord"
begin

text \<open>
  The other repositories: users (\<^verbatim>\<open>app/repositories/auth/user.py\<close>), refresh tokens
  (\<^verbatim>\<open>app/repositories/auth/token.py\<close>), tenants (\<^verbatim>\<open>app/repositories/tenant/tenant.py\<close>) and
  permissions (\<^verbatim>\<open>app/repositories/rbac/permission.py\<close>). An identifier the code draws at random
  (\<open>uuid.uuid4()\<close>) is an argument. The database orders strings by code point.
\<close>

subsection \<open>Users: queries\<close>

definition exists_by_username :: "string \<Rightarrow> db \<Rightarrow> bool" where
  "exists_by_username username d \<longleftrightarrow> (\<exists>u \<in> set (users d). u_username u = username)"

definition exists_by_email :: "string \<Rightarrow> db \<Rightarrow> bool" where
  "exists_by_email email d \<longleftrightarrow> (\<exists>u \<in> set (users d). u_email u = email)"

definition get_user_by_username :: "string \<Rightarrow> db \<Rightarrow> user option" where
  "get_user_by_username username d = List.find (\<lambda>u. u_username u = username) (users d)"

definition get_user_by_email :: "string \<Rightarrow> db \<Rightarrow> user option" where
  "get_user_by_email email d = List.find (\<lambda>u. u_email u = email) (users d)"

definition get_user_by_id :: "uuid \<Rightarrow> db \<Rightarrow> user option" where
  "get_user_by_id user_id d = List.find (\<lambda>u. u_id u = user_id) (users d)"

definition get_user_with_grants :: "uuid \<Rightarrow> db \<Rightarrow> user_obj option" where
  "get_user_with_grants user_id d =
     map_option (load_user d) (List.find (\<lambda>u. u_id u = user_id) (users d))"

definition list_users :: "nat \<Rightarrow> nat \<Rightarrow> db \<Rightarrow> user_obj list" where
  "list_users skip limit d = map (load_user d) (page skip limit (sort_key u_username (users d)))"

definition list_users_by_tenant :: "uuid option \<Rightarrow> nat \<Rightarrow> nat \<Rightarrow> db \<Rightarrow> user_obj list" where
  "list_users_by_tenant tenant_id skip limit d = map (load_user d) (page skip limit
     (sort_key u_username (filter (\<lambda>u. u_tenant_id u = tenant_id) (users d))))"

definition count_users :: "db \<Rightarrow> nat" where
  "count_users d = length (users d)"

definition count_users_by_tenant :: "uuid option \<Rightarrow> db \<Rightarrow> nat" where
  "count_users_by_tenant tenant_id d = length (filter (\<lambda>u. u_tenant_id u = tenant_id) (users d))"

definition has_permission :: "uuid \<Rightarrow> int \<Rightarrow> db \<Rightarrow> bool" where
  "has_permission user_id permission_id d \<longleftrightarrow> (user_id, permission_id) \<in> set (user_permissions d)"

subsection \<open>Users: changes\<close>

definition user_create ::
    "uuid \<Rightarrow> string \<Rightarrow> string \<Rightarrow> string option \<Rightarrow> bool \<Rightarrow> bool \<Rightarrow> uuid option \<Rightarrow> uuid option \<Rightarrow> user action"
  where
  "user_create new_id username email password is_verified is_superuser created_by_id tenant_id w =
     (let d = w_db w;
          user = \<lparr>u_id = new_id, u_username = username, u_email = email, u_password = password,
                  u_is_verified = is_verified, u_is_superuser = is_superuser, u_is_active = True,
                  u_created_by_id = created_by_id, u_tenant_id = tenant_id, u_perm_version = 1\<rparr> in
      if user_row_taken d new_id username email \<or> \<not> tenant_exists d tenant_id \<or>
         (case created_by_id of None \<Rightarrow> False | Some c \<Rightarrow> c \<notin> user_ids d)
      then (Inl IntegrityError, w)
      else (Inr user, commit (d\<lparr>users := users d @ [user]\<rparr>) [] w))"

text \<open>UPDATE of the row of a user object.\<close>

definition write_user :: "uuid \<Rightarrow> (user \<Rightarrow> user) \<Rightarrow> db \<Rightarrow> db" where
  "write_user user_id f d = d\<lparr>users := update_where (\<lambda>u. u_id u = user_id) f (users d)\<rparr>"

definition set_verified :: "uuid \<Rightarrow> unit action" where
  "set_verified user_id w =
     (Inr (), commit (write_user user_id (\<lambda>u. u\<lparr>u_is_verified := True\<rparr>) (w_db w)) [] w)"

definition set_password :: "uuid \<Rightarrow> string \<Rightarrow> unit action" where
  "set_password user_id hashed_password w =
     (Inr (), commit (write_user user_id (\<lambda>u. u\<lparr>u_password := Some hashed_password\<rparr>) (w_db w)) [] w)"

text \<open>
  \<open>grant_permission\<close> and \<open>revoke_permission\<close> write \<open>user.perm_version + 1\<close>, computed from the
  user object.
\<close>

definition grant_permission :: "user_obj \<Rightarrow> permission \<Rightarrow> unit action" where
  "grant_permission user perm w =
     (let d = w_db w; version = u_perm_version user + 1 in
      case insert_link (u_id user, p_id perm) (map u_id (users d)) (map p_id (permissions d))
          (user_permissions d) of
        None \<Rightarrow> (Inl IntegrityError, w)
      | Some links \<Rightarrow>
        (Inr (), commit (write_user (u_id user) (\<lambda>u. u\<lparr>u_perm_version := version\<rparr>)
             (d\<lparr>user_permissions := links\<rparr>))
           [PermVersion (uuid_str (u_id user)) version] w))"

definition revoke_permission :: "user_obj \<Rightarrow> permission \<Rightarrow> unit action" where
  "revoke_permission user perm w =
     (let d = w_db w; version = u_perm_version user + 1 in
      if p_id perm \<notin> p_id ` set (direct_permissions user)
      then (Inl (ValueError ''list.remove(x): x not in list''), w)
      else if (u_id user, p_id perm) \<notin> set (user_permissions d)
      then (Inl StaleDataError, w)
      else
        (Inr (), commit (write_user (u_id user) (\<lambda>u. u\<lparr>u_perm_version := version\<rparr>)
             (d\<lparr>user_permissions := delete_link (u_id user, p_id perm) (user_permissions d)\<rparr>))
           [PermVersion (uuid_str (u_id user)) version] w))"

definition set_user_active :: "user \<Rightarrow> bool \<Rightarrow> user action" where
  "set_user_active user is_active w =
     (let d' = write_user (u_id user) (\<lambda>u. u\<lparr>u_is_active := is_active\<rparr>) (w_db w) in
      (Inr (user\<lparr>u_is_active := is_active\<rparr>),
       commit d' [UserStatus (uuid_str (u_id user)) is_active] w))"

subsection \<open>Refresh tokens\<close>

definition token_create :: "string \<Rightarrow> uuid \<Rightarrow> int \<Rightarrow> refresh_token action" where
  "token_create token user_id expires_at w =
     (let d = w_db w;
          row = \<lparr>k_token = token, k_user_id = user_id, k_expires_at = expires_at, k_is_revoked = False\<rparr> in
      if token \<in> k_token ` set (refresh_tokens d) \<or> user_id \<notin> user_ids d then (Inl IntegrityError, w)
      else (Inr row, commit (d\<lparr>refresh_tokens := refresh_tokens d @ [row]\<rparr>) [] w))"

definition get_by_token :: "string \<Rightarrow> db \<Rightarrow> refresh_token option" where
  "get_by_token token d = List.find (\<lambda>k. k_token k = token) (refresh_tokens d)"

definition delete_by_token :: "string \<Rightarrow> unit action" where
  "delete_by_token token w = (let d = w_db w in
     (Inr (), commit (d\<lparr>refresh_tokens := filter (\<lambda>k. k_token k \<noteq> token) (refresh_tokens d)\<rparr>) [] w))"

definition delete_all_for_user :: "uuid \<Rightarrow> unit action" where
  "delete_all_for_user user_id w = (let d = w_db w in
     (Inr (), commit (d\<lparr>refresh_tokens := filter (\<lambda>k. k_user_id k \<noteq> user_id) (refresh_tokens d)\<rparr>) [] w))"

definition token_revoke :: "refresh_token \<Rightarrow> unit action" where
  "token_revoke token_row w = (let d = w_db w in
     (Inr (), commit (d\<lparr>refresh_tokens := update_where (\<lambda>k. k_token k = k_token token_row)
        (\<lambda>k. k\<lparr>k_is_revoked := True\<rparr>) (refresh_tokens d)\<rparr>) [] w))"

definition token_delete_instance :: "refresh_token \<Rightarrow> unit action" where
  "token_delete_instance token_row w = delete_by_token (k_token token_row) w"

subsection \<open>Tenants\<close>

definition get_tenant_by_id :: "uuid \<Rightarrow> db \<Rightarrow> tenant option" where
  "get_tenant_by_id tenant_id d = tenant_by_id d tenant_id"

definition get_tenant_by_name :: "string \<Rightarrow> db \<Rightarrow> tenant option" where
  "get_tenant_by_name name d = List.find (\<lambda>t. t_name t = name) (tenants d)"

definition tenant_create :: "uuid \<Rightarrow> string \<Rightarrow> int \<Rightarrow> tenant action" where
  "tenant_create new_id name allowed_permission_mask w =
     (let d = w_db w in
      case store_mask allowed_permission_mask of Inl e \<Rightarrow> (Inl e, w)
      | Inr m \<Rightarrow>
        let tenant = \<lparr>t_id = new_id, t_name = name, t_is_active = True, t_allowed_permission_mask = m\<rparr> in
        if \<exists>t \<in> set (tenants d). t_id t = new_id \<or> t_name t = name then (Inl IntegrityError, w)
        else (Inr tenant, commit (d\<lparr>tenants := tenants d @ [tenant]\<rparr>) [] w))"

definition list_tenants :: "nat \<Rightarrow> nat \<Rightarrow> db \<Rightarrow> tenant list" where
  "list_tenants skip limit d = page skip limit (tenants d)"

definition set_allowed_permission_mask :: "tenant \<Rightarrow> int \<Rightarrow> tenant action" where
  "set_allowed_permission_mask tenant m w =
     (let d = w_db w in
      case store_mask m of Inl e \<Rightarrow> (Inl e, w)
      | Inr m' \<Rightarrow> (Inr (tenant\<lparr>t_allowed_permission_mask := m'\<rparr>),
          commit (d\<lparr>tenants := update_where (\<lambda>t. t_id t = t_id tenant)
             (\<lambda>t. t\<lparr>t_allowed_permission_mask := m'\<rparr>) (tenants d)\<rparr>) [] w))"

definition set_tenant_active :: "tenant \<Rightarrow> bool \<Rightarrow> tenant action" where
  "set_tenant_active tenant is_active w =
     (let d = w_db w in
      (Inr (tenant\<lparr>t_is_active := is_active\<rparr>),
       commit (d\<lparr>tenants := update_where (\<lambda>t. t_id t = t_id tenant)
           (\<lambda>t. t\<lparr>t_is_active := is_active\<rparr>) (tenants d)\<rparr>)
         [TenantStatus (uuid_str (t_id tenant)) is_active] w))"

subsection \<open>Permissions\<close>

definition get_permission_by_name :: "string \<Rightarrow> db \<Rightarrow> permission option" where
  "get_permission_by_name name d = List.find (\<lambda>p. p_name p = name) (permissions d)"

definition get_permissions_by_names :: "string list \<Rightarrow> db \<Rightarrow> permission list" where
  "get_permissions_by_names names d =
     (if names = [] then [] else filter (\<lambda>p. p_name p \<in> set names) (permissions d))"

definition get_permission_by_bit_position :: "nat \<Rightarrow> db \<Rightarrow> permission option" where
  "get_permission_by_bit_position bit_position d =
     List.find (\<lambda>p. p_bit_position p = Some bit_position) (permissions d)"

definition create_with_bit :: "string \<Rightarrow> nat \<Rightarrow> permission action" where
  "create_with_bit name bit_position w =
     (let d = w_db w;
          row = \<lparr>p_id = next_permission_id d, p_name = name, p_bit_position = Some bit_position\<rparr> in
      if \<exists>p \<in> set (permissions d). p_name p = name \<or> p_bit_position p = Some bit_position
      then (Inl IntegrityError, w)
      else (Inr row, commit (d\<lparr>permissions := permissions d @ [row],
              next_permission_id := next_permission_id d + 1\<rparr>) [] w))"

definition get_permissions_by_ids :: "int list \<Rightarrow> db \<Rightarrow> permission list" where
  "get_permissions_by_ids pids d =
     (if pids = [] then [] else filter (\<lambda>p. p_id p \<in> set pids) (permissions d))"

definition list_permissions :: "nat \<Rightarrow> nat \<Rightarrow> db \<Rightarrow> permission list" where
  "list_permissions skip limit d = page skip limit (permissions d)"

definition list_permissions_by_names :: "string list \<Rightarrow> nat \<Rightarrow> nat \<Rightarrow> db \<Rightarrow> permission list" where
  "list_permissions_by_names names skip limit d =
     (if names = [] then []
      else page skip limit (filter (\<lambda>p. p_name p \<in> set names) (permissions d)))"

lemmas repository_defs [op_defs] =
  user_create_def set_verified_def set_password_def grant_permission_def revoke_permission_def
  set_user_active_def token_create_def delete_by_token_def delete_all_for_user_def token_revoke_def
  token_delete_instance_def tenant_create_def set_allowed_permission_mask_def set_tenant_active_def
  create_with_bit_def

subsection \<open>Operations keep the invariant\<close>

abbreviation loaded_user :: "db \<Rightarrow> user_obj \<Rightarrow> bool" where
  "loaded_user d user \<equiv> user \<in> load_user d ` set (users d)"

lemma get_user_loaded: "get_user_with_grants uid d = Some user \<Longrightarrow> loaded_user d user \<and> u_id user = uid"
  by (auto simp: get_user_with_grants_def dest: find_SomeD)

lemma db_inv_write_user:
  assumes "db_inv d" "\<And>u. u_id (f u) = u_id u" "\<And>u. u_username (f u) = u_username u"
    "\<And>u. u_email (f u) = u_email u" "\<And>u. u_tenant_id (f u) = u_tenant_id u"
  shows "db_inv (write_user uid f d)"
  unfolding write_user_def by (rule db_inv_update_users [OF assms])

lemma well_formed_events [simp]:
  "well_formed (PermVersion (uuid_str u) v)" "well_formed (UserStatus (uuid_str u) a)"
  "well_formed (TenantStatus (uuid_str u) a)"
  by simp_all

lemma world_inv_user_create: "world_inv w \<Longrightarrow> world_inv (snd (user_create i n e p v s c t w))"
  by (auto simp: user_create_def Let_def intro!: world_inv_commit db_inv_append_user)

lemma world_inv_user_flags:
  assumes "world_inv w"
  shows "world_inv (snd (set_verified uid w))" "world_inv (snd (set_password uid pw w))"
    "world_inv (snd (set_user_active user a w))"
  using assms
  by (auto simp: set_verified_def set_password_def set_user_active_def Let_def
      intro!: world_inv_commit db_inv_write_user)

lemma refers_append_link:
  "refers l A B \<Longrightarrow> insert_link (a, b) as bs l = Some l' \<Longrightarrow> set as \<subseteq> A \<Longrightarrow> set bs \<subseteq> B \<Longrightarrow> refers l' A B"
  by (auto simp: insert_link_Some)

lemma db_inv_grant:
  assumes "db_inv d" "insert_link (uid, pid) (map u_id (users d)) (map p_id (permissions d))
    (user_permissions d) = Some links"
  shows "db_inv (d\<lparr>user_permissions := links\<rparr>)"
  using refers_append_link [OF refers_rows(5) [OF db_inv_constraints [OF assms(1)]] assms(2)]
  by (intro db_inv_user_permissions assms(1)) auto

lemma world_inv_grant: "world_inv w \<Longrightarrow> world_inv (snd (grant_permission user perm w))"
  by (auto simp: grant_permission_def Let_def split: option.splits
      intro!: world_inv_commit db_inv_write_user db_inv_grant [OF world_inv_db])

lemma world_inv_revoke: "world_inv w \<Longrightarrow> world_inv (snd (revoke_permission user perm w))"
  by (auto simp: revoke_permission_def Let_def refers_rows db_inv_constraints world_inv_db
      intro!: world_inv_commit db_inv_write_user db_inv_user_permissions)

lemma world_inv_tokens:
  assumes "world_inv w"
  shows "world_inv (snd (token_create k u x w))" "world_inv (snd (delete_by_token k w))"
    "world_inv (snd (delete_all_for_user u w))" "world_inv (snd (token_revoke t w))"
    "world_inv (snd (token_delete_instance t w))"
  using assms
  by (auto simp: token_create_def delete_by_token_def delete_all_for_user_def token_revoke_def
      token_delete_instance_def Let_def world_inv_db intro!: world_inv_commit)

lemma world_inv_tenant_create: "world_inv w \<Longrightarrow> world_inv (snd (tenant_create i n m w))"
  by (auto simp: tenant_create_def Let_def split: sum.splits intro!: world_inv_commit db_inv_tenants)
    (auto simp: tenant_keys_def world_inv_def db_inv_def constraints_def)

lemma world_inv_tenant_updates:
  assumes "world_inv w"
  shows "world_inv (snd (set_allowed_permission_mask t m w))" "world_inv (snd (set_tenant_active t a w))"
  using assms
  by (auto simp: set_allowed_permission_mask_def set_tenant_active_def Let_def split: sum.splits
      intro!: world_inv_commit db_inv_update_tenants)

text \<open>A new catalog row keeps the catalog in step with the code when its bit is the registry's.\<close>

lemma create_with_bit_keeps:
  assumes c: "constraints (w_db w)" and m: "masks_cached (w_db w)"
  shows "constraints (w_db (snd (create_with_bit name b w))) \<and> masks_cached (w_db (snd (create_with_bit name b w)))"
proof -
  let ?d = "w_db w"
  let ?row = "\<lparr>p_id = next_permission_id ?d, p_name = name, p_bit_position = Some b\<rparr>"
  let ?d' = "?d\<lparr>permissions := permissions ?d @ [?row], next_permission_id := next_permission_id ?d + 1\<rparr>"
  have fresh: "next_permission_id ?d \<notin> permission_ids ?d"
    using c by (auto simp: constraints_def sequences_def)
  have norows: "(r, next_permission_id ?d) \<notin> set (role_permissions ?d)" for r
    using c fresh by (auto simp: constraints_def foreign_keys_def refers_def)
  have "constraints ?d' \<and> masks_cached ?d'"
    if new: "\<not> (\<exists>p \<in> set (permissions ?d). p_name p = name \<or> p_bit_position p = Some b)"
  proof
    have "permission_keys (permissions ?d')"
      using c fresh new by (auto simp: constraints_def permission_keys_def)
    moreover have "foreign_keys ?d'"
      using c by (auto simp: constraints_def foreign_keys_def elim!: refers_mono)
    moreover have "sequences ?d'" using c by (auto simp: constraints_def sequences_def)
    ultimately show "constraints ?d'" using c by (simp add: constraints_def tenant_refs_def)
    have "row_mask ?d' r = row_mask ?d r" for r
      using norows by (intro bit_eqI) (auto simp: bit_row_mask)
    then show "masks_cached ?d'" using m by (simp add: masks_cached_def)
  qed
  with c m show ?thesis by (auto simp: create_with_bit_def Let_def)
qed

lemma world_inv_create_with_bit:
  assumes inv: "world_inv w" and b: "\<And>k. registry_bit name = Some k \<Longrightarrow> b = k" "b < 256"
  shows "world_inv (snd (create_with_bit name b w))"
proof -
  from inv have db: "db_inv (w_db w)" by (rule world_inv_db)
  then have "constraints (w_db w)" "masks_cached (w_db w)" by (simp_all add: db_inv_def)
  from create_with_bit_keeps [OF this, of name b]
  have "db_inv (w_db (snd (create_with_bit name b w)))"
    using db_inv_synced [OF db] b by (auto simp: db_inv_def catalog_synced_def create_with_bit_def Let_def)
  with inv show ?thesis by (auto simp: create_with_bit_def Let_def intro!: world_inv_commit)
qed

end
