(* ===== verification/Sample.thy ===== *)
theory Sample
  imports World
begin

text \<open>
  A small concrete database that satisfies the invariant, on which properties are applied: the
  catalog as the synchronisation leaves it, two tenants, an administrator and a reader of the
  first, and a superuser. Role 1 may hand out role 2 and the permissions with ids 2 and 8.
\<close>

definition catalog_rows :: "permission list" where
  "catalog_rows = map (\<lambda>(n, b). \<lparr>p_id = int b + 1, p_name = n, p_bit_position = Some b\<rparr>) PERMISSION_REGISTRY"

definition acme :: uuid where "acme = 0xA0"
definition globex :: uuid where "globex = 0xB0"
definition ann :: uuid where "ann = 0x1"
definition bob :: uuid where "bob = 0x2"
definition root :: uuid where "root = 0x3"

definition ann_row :: user where
  "ann_row = \<lparr>u_id = ann, u_username = ''ann'', u_email = ''ann@acme.org'', u_password = Some ''h1'',
     u_is_verified = True, u_is_superuser = False, u_is_active = True, u_created_by_id = None,
     u_tenant_id = Some acme, u_perm_version = 1\<rparr>"

definition bob_row :: user where
  "bob_row = \<lparr>u_id = bob, u_username = ''bob'', u_email = ''bob@acme.org'', u_password = None,
     u_is_verified = True, u_is_superuser = False, u_is_active = True, u_created_by_id = Some ann,
     u_tenant_id = Some acme, u_perm_version = 4\<rparr>"

definition root_row :: user where
  "root_row = \<lparr>u_id = root, u_username = ''root'', u_email = ''root@host.org'', u_password = Some ''h3'',
     u_is_verified = True, u_is_superuser = True, u_is_active = True, u_created_by_id = None,
     u_tenant_id = None, u_perm_version = 1\<rparr>"

definition admin_role :: role where
  "admin_role = \<lparr>r_id = 1, r_name = ''tenant-admin'', r_tenant_id = Some acme, r_permission_mask = 35\<rparr>"

definition reader_role :: role where
  "reader_role = \<lparr>r_id = 2, r_name = ''reader'', r_tenant_id = Some acme, r_permission_mask = 2\<rparr>"

definition acme_row :: tenant where
  "acme_row = \<lparr>t_id = acme, t_name = ''Acme'', t_is_active = True, t_allowed_permission_mask = TENANT_ROLE_MASK\<rparr>"

definition globex_row :: tenant where
  "globex_row = \<lparr>t_id = globex, t_name = ''Globex'', t_is_active = True, t_allowed_permission_mask = 3\<rparr>"

definition sample_db :: db where
  "sample_db = \<lparr>users = [ann_row, bob_row, root_row], roles = [admin_role, reader_role],
     permissions = catalog_rows, tenants = [acme_row, globex_row], refresh_tokens = [],
     user_roles = [(ann, 1), (bob, 2)], role_permissions = [(1, 1), (1, 2), (1, 6), (2, 2)],
     user_permissions = [(bob, 8)], grantable_roles = [(1, 2)],
     grantable_permissions = [(1, 2), (1, 8)], next_role_id = 3, next_permission_id = 20\<rparr>"

definition sample_world :: world where
  "sample_world = \<lparr>w_db = sample_db, w_redis = empty_redis\<rparr>"

lemmas sample_rows = ann_row_def bob_row_def root_row_def admin_role_def reader_role_def
  acme_row_def globex_row_def ann_def bob_def root_def acme_def globex_def

lemma catalog_rows_value: "catalog_rows =
    [\<lparr>p_id = 1, p_name = ''role:create'', p_bit_position = Some 0\<rparr>,
     \<lparr>p_id = 2, p_name = ''role:read'', p_bit_position = Some 1\<rparr>,
     \<lparr>p_id = 3, p_name = ''role:read.id'', p_bit_position = Some 2\<rparr>,
     \<lparr>p_id = 4, p_name = ''role:update'', p_bit_position = Some 3\<rparr>,
     \<lparr>p_id = 5, p_name = ''role:delete'', p_bit_position = Some 4\<rparr>,
     \<lparr>p_id = 6, p_name = ''role:add-permission'', p_bit_position = Some 5\<rparr>,
     \<lparr>p_id = 7, p_name = ''role:delete-permission'', p_bit_position = Some 6\<rparr>,
     \<lparr>p_id = 8, p_name = ''permission:read'', p_bit_position = Some 7\<rparr>,
     \<lparr>p_id = 9, p_name = ''permission:read.id'', p_bit_position = Some 8\<rparr>,
     \<lparr>p_id = 10, p_name = ''user:read'', p_bit_position = Some 9\<rparr>,
     \<lparr>p_id = 11, p_name = ''user:read.id'', p_bit_position = Some 10\<rparr>,
     \<lparr>p_id = 12, p_name = ''user:update'', p_bit_position = Some 11\<rparr>,
     \<lparr>p_id = 13, p_name = ''user:deactivate'', p_bit_position = Some 12\<rparr>,
     \<lparr>p_id = 14, p_name = ''tenant:create'', p_bit_position = Some 13\<rparr>,
     \<lparr>p_id = 15, p_name = ''tenant:read'', p_bit_position = Some 14\<rparr>,
     \<lparr>p_id = 16, p_name = ''tenant:read.id'', p_bit_position = Some 15\<rparr>,
     \<lparr>p_id = 17, p_name = ''tenant:update'', p_bit_position = Some 16\<rparr>,
     \<lparr>p_id = 18, p_name = ''tenant:deactivate'', p_bit_position = Some 17\<rparr>,
     \<lparr>p_id = 19, p_name = ''user:create'', p_bit_position = Some 18\<rparr>]"
  by (simp add: catalog_rows_def PERMISSION_REGISTRY_def)

lemma catalog_row_iff: "p \<in> set catalog_rows \<longleftrightarrow>
    (\<exists>n b. registry_bit n = Some b \<and> p = \<lparr>p_id = int b + 1, p_name = n, p_bit_position = Some b\<rparr>)"
proof -
  have "p \<in> set catalog_rows \<longleftrightarrow> (\<exists>n b. (n, b) \<in> set PERMISSION_REGISTRY \<and>
      p = \<lparr>p_id = int b + 1, p_name = n, p_bit_position = Some b\<rparr>)"
    by (auto simp: catalog_rows_def)
  then show ?thesis by (simp only: registry_bit_iff)
qed

lemma catalog_keys: "permission_keys catalog_rows"
proof -
  have "map p_name catalog_rows = map fst PERMISSION_REGISTRY"
    "map p_id catalog_rows = map ((\<lambda>b. int b + 1) \<circ> snd) PERMISSION_REGISTRY"
    by (auto simp: catalog_rows_def)
  moreover have "distinct (map ((\<lambda>b. int b + 1) \<circ> snd) PERMISSION_REGISTRY)"
    using registry_bits_distinct by (auto simp: distinct_map inj_on_def)
  moreover have "p = q" if "p \<in> set catalog_rows" "q \<in> set catalog_rows"
    "p_bit_position p = p_bit_position q" for p q
    using that registry_bit_inj by (auto simp: catalog_row_iff)
  ultimately show ?thesis using registry_names_distinct by (simp add: permission_keys_def)
qed

lemma catalog_rows_synced:
  assumes "permissions d = catalog_rows"
  shows "catalog_synced d"
  unfolding catalog_synced_def
proof (intro conjI allI ballI impI)
  fix n b
  assume "registry_bit n = Some b"
  then have "\<lparr>p_id = int b + 1, p_name = n, p_bit_position = Some b\<rparr> \<in> set (permissions d)"
    by (simp add: assms catalog_row_iff)
  then show "\<exists>p \<in> set (permissions d). p_name p = n" by force
next
  fix p b
  assume "p \<in> set (permissions d)" "p_bit_position p = Some b"
  then show "b < 256" using registry_bit_less by (fastforce simp: assms catalog_row_iff)
qed (auto simp: assms catalog_row_iff)

lemma catalog_ids: "p_id ` set catalog_rows = {1, 2, 3, 4, 5, 6, 7, 8, 9, 10, 11, 12, 13, 14, 15, 16, 17, 18, 19}"
  by (simp add: catalog_rows_value)

lemma sample_row_mask:
  "row_mask sample_db 1 = 35" "row_mask sample_db 2 = 2"
proof -
  have "bits_of (role_perm_rows sample_db 1) = [0, 1, 5]" "bits_of (role_perm_rows sample_db 2) = [1]"
    by (simp_all add: bits_of_def role_perm_rows_def sample_db_def catalog_rows_value List.map_filter_simps)
  then show "row_mask sample_db 1 = 35" "row_mask sample_db 2 = 2"
    by (simp_all add: row_mask_def or_bits_def bit1_def)
qed

lemma db_inv_sample: "db_inv sample_db"
  unfolding db_inv_def constraints_def
proof (intro conjI)
  show "tenant_refs sample_db"
    by (simp add: tenant_refs_def tenant_exists_def sample_db_def sample_rows)
  show "user_keys (users sample_db)" "role_keys (roles sample_db)" "tenant_keys (tenants sample_db)"
    by (simp_all add: sample_db_def sample_rows user_keys_def role_keys_def tenant_keys_def)
  show "permission_keys (permissions sample_db)" by (simp add: sample_db_def catalog_keys)
  show "foreign_keys sample_db"
    by (simp add: foreign_keys_def sample_db_def sample_rows catalog_ids)
  show "sequences sample_db" by (simp add: sequences_def sample_db_def sample_rows catalog_ids)
  show "catalog_synced sample_db" by (rule catalog_rows_synced) (simp add: sample_db_def)
  show "masks_cached sample_db"
    unfolding masks_cached_def using sample_row_mask
    by (simp add: sample_db_def admin_role_def reader_role_def)
qed

lemma world_inv_sample: "world_inv sample_world"
  by (simp add: world_inv_def sample_world_def db_inv_sample canonical_def canonical_ids_def empty_redis_def)

end
