(* ===== verification/Delegation.thy ===== *)
theory Delegation
  imports Repositories Sample
begin

text \<open>
  \<^verbatim>\<open>app/core/rbac/delegation.py\<close>: what a user holds, as a set of names and as a mask, and what
  a user may hand to others.
\<close>

definition effective_permissions :: "user_obj \<Rightarrow> string set" where
  "effective_permissions user =
     set (concat (map (\<lambda>r. map p_name (permissions_of r)) (roles_of user))) \<union>
     set (map p_name (direct_permissions user))"

definition effective_permission_mask :: "user_obj \<Rightarrow> int" where
  "effective_permission_mask user =
     fold (\<lambda>p m. case registry_bit (p_name p) of None \<Rightarrow> m | Some b \<Rightarrow> m OR bit1 b)
       (direct_permissions user)
       (fold (\<lambda>r m. m OR r_permission_mask r) (roles_of user) 0)"

definition can_grant_role :: "user_obj \<Rightarrow> int \<Rightarrow> db \<Rightarrow> bool" where
  "can_grant_role actor role_id d =
     (if u_is_superuser actor then True
      else if roles_of actor = [] then False
      else role_id \<in> get_grantable_role_ids (map r_id (roles_of actor)) d)"

definition can_grant_permission :: "user_obj \<Rightarrow> int \<Rightarrow> db \<Rightarrow> bool" where
  "can_grant_permission actor permission_id d =
     (if u_is_superuser actor then True
      else if roles_of actor = [] then False
      else permission_id \<in> get_grantable_permission_ids (map r_id (roles_of actor)) d)"

subsection \<open>Reading the mask\<close>

lemma bit_fold_or: "bit (fold (\<lambda>x m. m OR f x) xs m) k \<longleftrightarrow> bit m k \<or> (\<exists>x \<in> set xs. bit (f x) k)"
  for f :: "'a \<Rightarrow> int"
  by (induction xs arbitrary: m) (auto simp: bit_or_iff)

lemma bit_fold_option:
  "bit (fold (\<lambda>x m. case g x of None \<Rightarrow> m | Some b \<Rightarrow> m OR bit1 b) xs m) k \<longleftrightarrow>
     bit m k \<or> (\<exists>x \<in> set xs. g x = Some k)"
  by (induction xs arbitrary: m) (auto simp: bit_or_iff bit_bit1 split: option.splits)

lemma bit_effective_permission_mask [mask_simps]:
  "bit (effective_permission_mask user) k \<longleftrightarrow>
     (\<exists>r \<in> set (roles_of user). bit (r_permission_mask r) k) \<or>
     (\<exists>p \<in> set (direct_permissions user). registry_bit (p_name p) = Some k)"
  by (simp add: effective_permission_mask_def bit_fold_option bit_fold_or)

lemma set_effective_permissions:
  "n \<in> effective_permissions user \<longleftrightarrow>
     (\<exists>r \<in> set (roles_of user). n \<in> p_name ` set (permissions_of r)) \<or>
     n \<in> p_name ` set (direct_permissions user)"
  by (auto simp: effective_permissions_def)

text \<open>What a user of the database holds, bit by bit.\<close>

definition holds_bit :: "db \<Rightarrow> uuid \<Rightarrow> nat \<Rightarrow> bool" where
  "holds_bit d uid k \<longleftrightarrow>
     (\<exists>r \<in> set (roles d). (uid, r_id r) \<in> set (user_roles d) \<and> bit (r_permission_mask r) k) \<or>
     (\<exists>p \<in> set (permissions d). (uid, p_id p) \<in> set (user_permissions d) \<and> registry_bit (p_name p) = Some k)"

lemma bit_loaded_mask: "bit (effective_permission_mask (load_user d u)) k \<longleftrightarrow> holds_bit d (u_id u) k"
  by (auto simp: bit_effective_permission_mask holds_bit_def set_user_role_rows set_user_perm_rows)

lemma loaded_mask_eq:
  "effective_permission_mask (load_user d u) = effective_permission_mask (load_user d' u') \<longleftrightarrow>
     holds_bit d (u_id u) = holds_bit d' (u_id u')"
  by (auto simp: bit_eq_iff fun_eq_iff bit_loaded_mask)

text \<open>The row of a catalog name is the one row with its bit.\<close>

lemma row_of_bit:
  assumes "db_inv d" "p \<in> set (permissions d)" "registry_bit n = Some b"
  shows "p_bit_position p = Some b \<longleftrightarrow> p_name p = n"
proof
  from synced_row [OF db_inv_synced [OF assms(1)] assms(3)]
  obtain q where q: "q \<in> set (permissions d)" "p_name q = n" "p_bit_position q = Some b" by blast
  assume "p_bit_position p = Some b"
  with q have "p = q" using bit_unique [OF db_inv_constraints [OF assms(1)] assms(2) q(1)] by blast
  with q show "p_name p = n" by simp
next
  assume "p_name p = n"
  with assms show "p_bit_position p = Some b"
    using synced_bit [OF db_inv_synced [OF assms(1)] assms(2)] by simp
qed

lemma role_bit_iff_name:
  assumes "db_inv d" "r \<in> set (roles d)" "registry_bit n = Some b"
  shows "bit (r_permission_mask r) b \<longleftrightarrow> n \<in> p_name ` set (role_perm_rows d (r_id r))"
proof -
  have "r_permission_mask r = row_mask d (r_id r)"
    using assms by (simp add: db_inv_def masks_cached_def)
  then show ?thesis
    using row_of_bit [OF assms(1) _ assms(3)] by (auto simp: bit_row_mask set_role_perm_rows)
qed

lemma registry_bit_name: "registry_bit n = Some b \<Longrightarrow> registry_bit m = Some b \<longleftrightarrow> m = n"
  using registry_bit_inj by blast

lemma mask_bit_name:
  assumes "db_inv d" "u \<in> set (users d)" "registry_bit n = Some b"
  shows "bit (effective_permission_mask (load_user d u)) b \<longleftrightarrow> n \<in> effective_permissions (load_user d u)"
proof -
  have "bit (r_permission_mask r) b \<longleftrightarrow> n \<in> p_name ` set (permissions_of r)"
    if "r \<in> set (roles_of (load_user d u))" for r
  proof -
    from that obtain r' where "r' \<in> set (roles d)" "r = load_role d r'"
      by (auto simp: set_user_role_rows)
    with role_bit_iff_name [OF assms(1) _ assms(3)] show ?thesis by simp
  qed
  then show ?thesis
    by (auto simp: bit_effective_permission_mask set_effective_permissions
        registry_bit_name [OF assms(3)])
qed

text \<open>
  C17. The two ways the code asks what a user holds agree: for every name of the catalog, the
  name is among the user's effective permissions exactly when its bit is set in the mask that
  is minted into the user's tokens, although one reads the association tables and the other
  the roles' cached masks.
\<close>

theorem mask_agrees_with_names:
  assumes "db_inv d" "user \<in> load_user d ` set (users d)" "registry_bit n = Some b"
  shows "bit (effective_permission_mask user) b \<longleftrightarrow> n \<in> effective_permissions user"
  using assms mask_bit_name by blast

lemma mask_agrees_with_names_witness:
  "bit (effective_permission_mask (load_user sample_db ann_row)) 5 \<longleftrightarrow>
     ''role:add-permission'' \<in> effective_permissions (load_user sample_db ann_row)"
  by (rule mask_agrees_with_names [OF db_inv_sample])
    (simp_all add: sample_db_def PERMISSION_REGISTRY_def)

end
