(* ===== verification/Transitions.thy ===== *)
theory Transitions
  imports Delegation CacheWorker
begin

text \<open>
  Everything the repositories do to the database and to Redis, as one step relation, with two
  facts about every step: it keeps the invariant, and, deletion of a role apart, it follows
  the rule \<^verbatim>\<open>app/models/auth.py\<close> states for \<open>perm_version\<close>: the version of a user whose
  effective mask changes is bumped, and the new version is published.
\<close>

subsection \<open>The rule for one change\<close>

definition follows :: "db \<Rightarrow> db \<Rightarrow> event list \<Rightarrow> bool" where
  "follows d d' es \<longleftrightarrow> (\<forall>u \<in> set (users d). \<exists>u' \<in> set (users d'). u_id u' = u_id u \<and>
     (u_perm_version u' = u_perm_version u + 1 \<and> PermVersion (uuid_str (u_id u)) (u_perm_version u') \<in> set es \<or>
      u_perm_version u' = u_perm_version u \<and> holds_bit d' (u_id u) = holds_bit d (u_id u)) \<and>
     (\<forall>v. PermVersion (uuid_str (u_id u)) v \<in> set es \<longrightarrow> v = u_perm_version u')) \<and>
   (\<forall>i v. PermVersion i v \<in> set es \<longrightarrow> i \<in> uuid_str ` user_ids d)"

lemma followsD:
  assumes "follows d d' es" "u \<in> set (users d)"
  shows "\<exists>u' \<in> set (users d'). u_id u' = u_id u \<and>
     (u_perm_version u' = u_perm_version u + 1 \<and> PermVersion (uuid_str (u_id u)) (u_perm_version u') \<in> set es \<or>
      u_perm_version u' = u_perm_version u \<and> holds_bit d' (u_id u) = holds_bit d (u_id u)) \<and>
     (\<forall>v. PermVersion (uuid_str (u_id u)) v \<in> set es \<longrightarrow> v = u_perm_version u')"
  using assms unfolding follows_def by blast

lemma follows_same:
  assumes "\<And>u. u \<in> set (users d) \<Longrightarrow> \<exists>u' \<in> set (users d'). u_id u' = u_id u \<and> u_perm_version u' = u_perm_version u"
    and "\<And>u. u \<in> set (users d) \<Longrightarrow> holds_bit d' (u_id u) = holds_bit d (u_id u)"
    and "\<And>i v. PermVersion i v \<notin> set es"
  shows "follows d d' es"
  unfolding follows_def using assms by (intro conjI ballI) metis+

lemma holds_bit_frame [simp]:
  "holds_bit (d\<lparr>users := us\<rparr>) = holds_bit d" "holds_bit (d\<lparr>tenants := ts\<rparr>) = holds_bit d"
  "holds_bit (d\<lparr>refresh_tokens := ks\<rparr>) = holds_bit d" "holds_bit (d\<lparr>grantable_roles := gs\<rparr>) = holds_bit d"
  "holds_bit (d\<lparr>grantable_permissions := hs\<rparr>) = holds_bit d"
  "holds_bit (d\<lparr>role_permissions := hs\<rparr>) = holds_bit d"
  "holds_bit (d\<lparr>next_role_id := i\<rparr>) = holds_bit d" "holds_bit (d\<lparr>next_permission_id := i\<rparr>) = holds_bit d"
  by (simp_all add: fun_eq_iff holds_bit_def)

lemma holds_bit_write_user [simp]: "holds_bit (write_user uid f d) = holds_bit d"
  by (simp add: write_user_def)

lemma follows_frame:
  assumes "users d' = users d" "holds_bit d' = holds_bit d"
  shows "follows d d' []"
  by (rule follows_same) (auto simp: assms)

lemma follows_bump:
  assumes c: "constraints d" and us: "users d1 = users d"
    and same: "\<And>u. u \<in> set (users d) \<Longrightarrow> \<not> P u \<Longrightarrow> holds_bit d1 (u_id u) = holds_bit d (u_id u)"
  shows "follows d (fst (bump_where P d1)) (snd (bump_where P d1))"
  unfolding follows_def
proof (intro conjI ballI)
  show "\<forall>i v. PermVersion i v \<in> set (snd (bump_where P d1)) \<longrightarrow> i \<in> uuid_str ` user_ids d"
    by (auto simp: bump_where_def version_event_def us)
next
  fix u
  assume u: "u \<in> set (users d)"
  let ?d' = "fst (bump_where P d1)" and ?es = "snd (bump_where P d1)"
  let ?u = "if P u then bump_user u else u"
  have mem: "?u \<in> set (users ?d')"
    using u us by (simp add: bump_where_db set_update_where)
  have ev: "P u \<and> v = u_perm_version u + 1" if "PermVersion (uuid_str (u_id u)) v \<in> set ?es" for v
  proof -
    from that us obtain x where x: "x \<in> set (users d)" "P x" "u_id x = u_id u" "v = u_perm_version x + 1"
      by (auto simp: bump_where_def version_event_def)
    from user_id_unique [OF c x(1) u x(3)] x show ?thesis by simp
  qed
  have new: "P u \<Longrightarrow> PermVersion (uuid_str (u_id u)) (u_perm_version u + 1) \<in> set ?es"
    using u us by (force simp: bump_where_def version_event_def)
  have hold: "\<not> P u \<Longrightarrow> holds_bit ?d' (u_id u) = holds_bit d (u_id u)"
    using same [OF u] by (simp add: bump_where_db)
  show "\<exists>u' \<in> set (users ?d'). u_id u' = u_id u \<and>
     (u_perm_version u' = u_perm_version u + 1 \<and> PermVersion (uuid_str (u_id u)) (u_perm_version u') \<in> set ?es \<or>
      u_perm_version u' = u_perm_version u \<and> holds_bit ?d' (u_id u) = holds_bit d (u_id u)) \<and>
     (\<forall>v. PermVersion (uuid_str (u_id u)) v \<in> set ?es \<longrightarrow> v = u_perm_version u')"
  proof (intro bexI [OF _ mem] conjI allI impI)
    fix v
    assume "PermVersion (uuid_str (u_id u)) v \<in> set ?es"
    from ev [OF this] show "v = u_perm_version ?u" by simp
  qed (use new hold in auto)
qed

lemma holds_bit_set_role_rows:
  assumes "(uid, rid) \<notin> set (user_roles d)"
  shows "holds_bit (set_role_rows rid m rows grants d) uid = holds_bit d uid"
  using assms by (fastforce simp: fun_eq_iff holds_bit_def set_role_rows_def set_update_where)

lemma holds_bit_add_role:
  assumes "constraints d" "r_id row = next_role_id d"
  shows "holds_bit (add_role_row row ps grants d) = holds_bit d"
proof -
  have "(uid, next_role_id d) \<notin> set (user_roles d)" for uid
    using next_role_id_fresh [OF assms(1)] refers_rows(3) [OF assms(1)] by (auto simp: refers_def)
  with assms(2) show ?thesis by (auto simp: fun_eq_iff holds_bit_def add_role_row_def)
qed

lemma holds_bit_links:
  "uid \<noteq> uid' \<Longrightarrow> holds_bit (d\<lparr>user_roles := user_roles d @ [(uid', rid)]\<rparr>) uid = holds_bit d uid"
  "uid \<noteq> uid' \<Longrightarrow> holds_bit (d\<lparr>user_roles := delete_link (uid', rid) (user_roles d)\<rparr>) uid = holds_bit d uid"
  "uid \<noteq> uid' \<Longrightarrow> holds_bit (d\<lparr>user_permissions := user_permissions d @ [(uid', pid)]\<rparr>) uid = holds_bit d uid"
  "uid \<noteq> uid' \<Longrightarrow> holds_bit (d\<lparr>user_permissions := delete_link (uid', pid) (user_permissions d)\<rparr>) uid = holds_bit d uid"
  by (auto simp: fun_eq_iff holds_bit_def)

text \<open>A step is a commit that follows the rule, or nothing.\<close>

definition follows_world :: "world \<Rightarrow> world \<Rightarrow> bool" where
  "follows_world w w' \<longleftrightarrow> w' = w \<or> (\<exists>d' es. w' = commit d' es w \<and> follows (w_db w) d' es)"

lemma follows_world_refl [simp]: "follows_world w w"
  by (simp add: follows_world_def)

lemma follows_worldI: "follows (w_db w) d' es \<Longrightarrow> follows_world w (commit d' es w)"
  by (auto simp: follows_world_def)

subsection \<open>Each operation follows it\<close>

lemma inv_constraints: "world_inv w \<Longrightarrow> constraints (w_db w)"
  by (intro db_inv_constraints world_inv_db)

lemma follows_role_create:
  assumes inv: "world_inv w"
  shows "follows_world w (snd (role_create name tid ps m w))"
proof -
  let ?d = "w_db w"
  let ?row = "\<lparr>r_id = next_role_id ?d, r_name = name, r_tenant_id = tid, r_permission_mask = m\<rparr>"
  have "follows ?d (add_role_row ?row ps [] ?d) []"
    by (rule follows_frame) (simp_all add: holds_bit_add_role [OF inv_constraints [OF inv]], simp add: add_role_row_def)
  then show ?thesis
    by (auto simp: role_create_def Let_def add_role_row_def store_mask_Inr split: sum.splits
        intro!: follows_worldI)
qed

lemma follows_create_root:
  assumes inv: "world_inv w"
  shows "follows_world w (snd (create_root_tenant_role tid a w))"
proof -
  let ?d = "w_db w" and ?m = "root_role_mask a"
  let ?row = "\<lparr>r_id = next_role_id ?d, r_name = ''tenant-admin'', r_tenant_id = Some tid,
     r_permission_mask = ?m\<rparr>"
  let ?ps = "root_role_rows ?m ?d"
  have "follows ?d (add_role_row ?row ?ps (map (\<lambda>p. (r_id ?row, p_id p)) ?ps) ?d) []"
    by (rule follows_frame) (simp_all add: holds_bit_add_role [OF inv_constraints [OF inv]], simp add: add_role_row_def)
  then show ?thesis
    by (auto simp: create_root_tenant_role_def Let_def add_role_row_def intro!: follows_worldI)
qed

lemma follows_set_role_rows:
  assumes inv: "world_inv w"
  shows "follows (w_db w)
     (fst (bump_perm_version_for_role_holders rid (set_role_rows rid m rows grants (w_db w))))
     (snd (bump_perm_version_for_role_holders rid (set_role_rows rid m rows grants (w_db w))))"
  unfolding bump_holders
proof (rule follows_bump [OF inv_constraints [OF inv]])
  fix u
  assume "(u_id u, rid) \<notin> set (user_roles (set_role_rows rid m rows grants (w_db w)))"
  then show "holds_bit (set_role_rows rid m rows grants (w_db w)) (u_id u) = holds_bit (w_db w) (u_id u)"
    by (intro holds_bit_set_role_rows) (simp add: set_role_rows_def)
qed (simp add: set_role_rows_def)

lemma follows_sync_root: "world_inv w \<Longrightarrow> follows_world w (snd (sync_root_tenant_role_permissions tid a w))"
  by (auto simp: sync_root_tenant_role_permissions_def Let_def case_prod_beta
      split: option.splits simp flip: set_role_rows_def
      intro!: follows_worldI follows_set_role_rows)

lemma holds_bit_update_roles:
  assumes "\<And>r. r_id (f r) = r_id r" "\<And>r. r_permission_mask (f r) = r_permission_mask r"
  shows "holds_bit (d\<lparr>roles := update_where P f (roles d)\<rparr>) = holds_bit d"
proof -
  have "r_id (if P r then f r else r) = r_id r"
    "r_permission_mask (if P r then f r else r) = r_permission_mask r" for r
    by (simp_all add: assms)
  then show ?thesis by (simp add: fun_eq_iff holds_bit_def del: if_split)
qed

lemma follows_role_update: "world_inv w \<Longrightarrow> follows_world w (snd (role_update role name w))"
  by (auto simp: role_update_def Let_def holds_bit_update_roles
      split: option.splits intro!: follows_worldI follows_frame)

lemma follows_assign: "world_inv w \<Longrightarrow> follows_world w (snd (assign_to_user rid uid w))"
  by (auto simp: assign_to_user_def Let_def case_prod_beta bump_is_where(2) insert_link_Some
      holds_bit_links split: option.splits intro!: follows_worldI follows_bump inv_constraints)

lemma follows_remove: "world_inv w \<Longrightarrow> follows_world w (snd (remove_from_user rid uid w))"
  by (auto simp: remove_from_user_def Let_def case_prod_beta bump_is_where(2) holds_bit_links
      intro!: follows_worldI follows_bump inv_constraints)

lemma follows_add_permission:
  assumes inv: "world_inv w" and loaded: "loaded_role (w_db w) role" "perm \<in> set (permissions (w_db w))"
  shows "follows_world w (snd (add_permission role perm w))"
  by (auto simp: add_permission_eq [OF assms] Let_def inv intro!: follows_worldI follows_set_role_rows)

lemma follows_remove_permission:
  assumes inv: "world_inv w" and loaded: "loaded_role (w_db w) role" "perm \<in> set (permissions (w_db w))"
  shows "follows_world w (snd (remove_permission role perm w))"
  by (auto simp: remove_permission_eq [OF assms] Let_def inv intro!: follows_worldI follows_set_role_rows)

lemma follows_grantable:
  "follows_world w (snd (add_grantable_role r g w))" "follows_world w (snd (remove_grantable_role r g w))"
  "follows_world w (snd (add_grantable_permission r p w))"
  "follows_world w (snd (remove_grantable_permission r p w))"
  by (auto simp: add_grantable_role_def remove_grantable_role_def add_grantable_permission_def
      remove_grantable_permission_def Let_def split: option.splits intro!: follows_worldI follows_frame)

lemma follows_tokens:
  "follows_world w (snd (token_create k uid x w))" "follows_world w (snd (delete_by_token k w))"
  "follows_world w (snd (delete_all_for_user uid w))" "follows_world w (snd (token_revoke t w))"
  "follows_world w (snd (token_delete_instance t w))"
  by (auto simp: token_create_def delete_by_token_def delete_all_for_user_def token_revoke_def
      token_delete_instance_def Let_def intro!: follows_worldI follows_frame)

lemma follows_tenants:
  "follows_world w (snd (tenant_create i n m w))"
  "follows_world w (snd (set_allowed_permission_mask t m w))"
  by (auto simp: tenant_create_def set_allowed_permission_mask_def Let_def split: sum.splits
      intro!: follows_worldI follows_frame)

lemma follows_set_tenant_active: "follows_world w (snd (set_tenant_active t a w))"
  by (auto simp: set_tenant_active_def Let_def intro!: follows_worldI follows_same)

lemma follows_user_create: "follows_world w (snd (user_create i n e p v s cb t w))"
  by (auto simp: user_create_def Let_def intro!: follows_worldI follows_same)

lemma write_user_row:
  assumes "u \<in> set (users d)" "\<And>u. u_id (f u) = u_id u" "\<And>u. u_perm_version (f u) = u_perm_version u"
  shows "\<exists>u' \<in> set (users (write_user uid f d)). u_id u' = u_id u \<and> u_perm_version u' = u_perm_version u"
  using assms by (auto simp: write_user_def intro!: bexI [of _ u])

lemma follows_user_flags:
  "follows_world w (snd (set_verified uid w))" "follows_world w (snd (set_password uid pw w))"
  "follows_world w (snd (set_user_active user a w))"
  by (auto simp: set_verified_def set_password_def set_user_active_def Let_def write_user_row
      intro!: follows_worldI follows_same)

lemma follows_write_version:
  assumes c: "constraints d" and user: "loaded_user d user" and us: "users d1 = users d"
    and same: "\<And>uid. uid \<noteq> u_id user \<Longrightarrow> holds_bit d1 uid = holds_bit d uid"
  shows "follows d (write_user (u_id user) (\<lambda>u. u\<lparr>u_perm_version := u_perm_version user + 1\<rparr>) d1)
    [PermVersion (uuid_str (u_id user)) (u_perm_version user + 1)]"
proof -
  from user obtain x where x: "x \<in> set (users d)" "u_id user = u_id x" "u_perm_version user = u_perm_version x"
    by auto
  have pv: "u_perm_version u = u_perm_version user" if "u \<in> set (users d)" "u_id u = u_id user" for u
    using user_id_unique [OF c that(1) x(1)] that(2) x by simp
  show ?thesis
    unfolding follows_def
  proof (intro conjI ballI)
    show "\<forall>i v. PermVersion i v \<in> set [PermVersion (uuid_str (u_id user)) (u_perm_version user + 1)] \<longrightarrow>
        i \<in> uuid_str ` user_ids d"
      using x by auto
  next
    fix u
    assume "u \<in> set (users d)"
    with pv [OF this] same [of "u_id u"] us
    show "\<exists>u' \<in> set (users (write_user (u_id user) (\<lambda>u. u\<lparr>u_perm_version := u_perm_version user + 1\<rparr>) d1)).
       u_id u' = u_id u \<and>
       (u_perm_version u' = u_perm_version u + 1 \<and> PermVersion (uuid_str (u_id u)) (u_perm_version u')
            \<in> set [PermVersion (uuid_str (u_id user)) (u_perm_version user + 1)] \<or>
        u_perm_version u' = u_perm_version u \<and>
          holds_bit (write_user (u_id user) (\<lambda>u. u\<lparr>u_perm_version := u_perm_version user + 1\<rparr>) d1) (u_id u) =
          holds_bit d (u_id u)) \<and>
       (\<forall>v. PermVersion (uuid_str (u_id u)) v
            \<in> set [PermVersion (uuid_str (u_id user)) (u_perm_version user + 1)] \<longrightarrow> v = u_perm_version u')"
      by (auto simp: write_user_def intro!: bexI [of _ u])
  qed
qed

lemma follows_grant:
  assumes "world_inv w" "loaded_user (w_db w) user"
  shows "follows_world w (snd (grant_permission user perm w))"
  using assms
  by (auto simp: grant_permission_def Let_def insert_link_Some holds_bit_links split: option.splits
      intro!: follows_worldI follows_write_version inv_constraints)

lemma follows_revoke:
  assumes "world_inv w" "loaded_user (w_db w) user"
  shows "follows_world w (snd (revoke_permission user perm w))"
  using assms
  by (auto simp: revoke_permission_def Let_def holds_bit_links
      intro!: follows_worldI follows_write_version inv_constraints)

lemma follows_create_with_bit:
  assumes inv: "world_inv w"
  shows "follows_world w (snd (create_with_bit name b w))"
proof -
  let ?d = "w_db w"
  have c: "constraints ?d" using inv by (rule inv_constraints)
  then have "next_permission_id ?d \<notin> permission_ids ?d" by (auto simp: constraints_def sequences_def)
  then have "(uid, next_permission_id ?d) \<notin> set (user_permissions ?d)" for uid
    using refers_rows(5) [OF c] by (auto simp: refers_def)
  then show ?thesis
    by (auto simp: create_with_bit_def Let_def fun_eq_iff holds_bit_def intro!: follows_worldI follows_frame)
qed

subsection \<open>The step relation\<close>

text \<open>
  The premises of a step are what the services ensure when they make the call: an object they
  pass was loaded from the database, the rows a new role is given are permission rows and its
  mask is theirs, a catalog row gets the bit the catalog gives its name.
\<close>

inductive repo_step :: "world \<Rightarrow> world \<Rightarrow> bool" where
  role_create: "set ps \<subseteq> set (permissions (w_db w)) \<Longrightarrow>
     (\<And>k. bit m k \<longleftrightarrow> (\<exists>p \<in> set ps. p_bit_position p = Some k)) \<Longrightarrow>
     repo_step w (snd (role_create name tid ps m w))"
| create_root_tenant_role: "repo_step w (snd (create_root_tenant_role t a w))"
| sync_root: "repo_step w (snd (sync_root_tenant_role_permissions t a w))"
| role_update: "loaded_role (w_db w) role \<Longrightarrow> repo_step w (snd (role_update role new_name w))"
| assign_to_user: "repo_step w (snd (assign_to_user rid uid w))"
| remove_from_user: "repo_step w (snd (remove_from_user rid uid w))"
| add_permission: "loaded_role (w_db w) role \<Longrightarrow> perm \<in> set (permissions (w_db w)) \<Longrightarrow>
     repo_step w (snd (add_permission role perm w))"
| remove_permission: "loaded_role (w_db w) role \<Longrightarrow> perm \<in> set (permissions (w_db w)) \<Longrightarrow>
     repo_step w (snd (remove_permission role perm w))"
| add_grantable_role: "repo_step w (snd (add_grantable_role rid gid w))"
| remove_grantable_role: "repo_step w (snd (remove_grantable_role rid gid w))"
| add_grantable_permission: "repo_step w (snd (add_grantable_permission rid pid w))"
| remove_grantable_permission: "repo_step w (snd (remove_grantable_permission rid pid w))"
| user_create: "repo_step w (snd (user_create i n e p v s cb tid w))"
| set_verified: "repo_step w (snd (set_verified uid w))"
| set_password: "repo_step w (snd (set_password uid pw w))"
| grant_permission: "loaded_user (w_db w) user \<Longrightarrow> repo_step w (snd (grant_permission user perm w))"
| revoke_permission: "loaded_user (w_db w) user \<Longrightarrow> repo_step w (snd (revoke_permission user perm w))"
| set_user_active: "repo_step w (snd (set_user_active row active w))"
| token_create: "repo_step w (snd (token_create k uid x w))"
| delete_by_token: "repo_step w (snd (delete_by_token k w))"
| delete_all_for_user: "repo_step w (snd (delete_all_for_user uid w))"
| token_revoke: "repo_step w (snd (token_revoke tok w))"
| token_delete_instance: "repo_step w (snd (token_delete_instance tok w))"
| tenant_create: "repo_step w (snd (tenant_create i n m w))"
| set_allowed_permission_mask: "repo_step w (snd (set_allowed_permission_mask t m w))"
| set_tenant_active: "repo_step w (snd (set_tenant_active t active w))"
| create_with_bit: "(\<And>k. registry_bit n = Some k \<Longrightarrow> b = k) \<Longrightarrow> b < 256 \<Longrightarrow>
     repo_step w (snd (create_with_bit n b w))"

text \<open>A worker of the application may also delete a role; Redis comes and goes.\<close>

inductive world_step :: "world \<Rightarrow> world \<Rightarrow> bool" where
  repo: "repo_step w w' \<Longrightarrow> world_step w w'"
| role_delete: "world_step w (snd (role_delete role w))"
| redis_state: "world_step w (w\<lparr>w_redis := (w_redis w)\<lparr>reachable := up\<rparr>\<rparr>)"

inductive_cases repo_stepE: "repo_step w w'"
inductive_cases world_stepE: "world_step w w'"

lemmas world_inv_ops = db_inv_role_create world_inv_create_root world_inv_sync_root
  world_inv_role_update world_inv_assign world_inv_remove world_inv_add_permission
  world_inv_remove_permission world_inv_grantable world_inv_user_create world_inv_user_flags
  world_inv_grant world_inv_revoke world_inv_tokens world_inv_tenant_create
  world_inv_tenant_updates world_inv_create_with_bit

lemmas follows_ops = follows_role_create follows_create_root follows_sync_root follows_role_update
  follows_assign follows_remove follows_add_permission follows_remove_permission follows_grantable
  follows_user_create follows_user_flags follows_grant follows_revoke follows_tokens
  follows_tenants follows_set_tenant_active follows_create_with_bit

lemma repo_step_inv: "repo_step w w' \<Longrightarrow> world_inv w \<Longrightarrow> world_inv w'"
  by (erule repo_step.cases) (simp_all add: world_inv_ops)

lemma repo_step_follows: "repo_step w w' \<Longrightarrow> world_inv w \<Longrightarrow> follows_world w w'"
  by (erule repo_step.cases) (simp_all add: follows_ops)

interpretation runs: composed_calls "world_step\<^sup>*\<^sup>*"
  by unfold_locales auto

interpretation same_redis: composed_calls "\<lambda>w w'. w_redis w' = w_redis w"
  by unfold_locales auto

lemma world_step_inv: "world_step w w' \<Longrightarrow> world_inv w \<Longrightarrow> world_inv w'"
  by (erule world_step.cases)
    (auto simp: repo_step_inv world_inv_role_delete, simp_all add: world_inv_def)

subsection \<open>Versions in the mirror\<close>

lemma perm_version_queue_event:
  "perm_version (authority (queue_event r e)) uid =
     (case e of PermVersion i v \<Rightarrow> if i = uuid_str uid then Some v else perm_version (authority r) uid
      | _ \<Rightarrow> perm_version (authority r) uid)"
  by (cases e) (auto simp: authority_def queue_event_def update_conv' parse_int_str_int)

lemma perm_version_publish:
  assumes "\<forall>v. PermVersion (uuid_str uid) v \<in> set es \<longrightarrow> v = x"
  shows "perm_version (authority (publish_events es r)) uid =
    (if reachable r \<and> (\<exists>v. PermVersion (uuid_str uid) v \<in> set es) then Some x
     else perm_version (authority r) uid)"
proof -
  have "perm_version (authority (foldl queue_event r es)) uid =
      (if \<exists>v. PermVersion (uuid_str uid) v \<in> set es then Some x else perm_version (authority r) uid)"
    using assms
  proof (induction es rule: rev_induct)
    case (snoc e es)
    then have IH: "perm_version (authority (foldl queue_event r es)) uid =
        (if \<exists>v. PermVersion (uuid_str uid) v \<in> set es then Some x else perm_version (authority r) uid)"
      by simp
    show ?case
    proof (cases "\<exists>v. e = PermVersion (uuid_str uid) v")
      case True
      then obtain v where "e = PermVersion (uuid_str uid) v" by blast
      moreover from this snoc.prems have "v = x" by simp
      ultimately show ?thesis by (simp add: perm_version_queue_event) blast
    next
      case False
      then have "perm_version (authority (foldl queue_event r (es @ [e]))) uid =
          perm_version (authority (foldl queue_event r es)) uid"
        by (cases e) (auto simp: perm_version_queue_event)
      with False IH show ?thesis by auto
    qed
  qed simp
  then show ?thesis by (simp add: publish_events_def)
qed

definition mirror_sound :: "world \<Rightarrow> bool" where
  "mirror_sound w \<longleftrightarrow> (\<forall>uid v. perm_version (authority (w_redis w)) uid = Some v \<longrightarrow>
     (\<exists>u \<in> set (users (w_db w)). u_id u = uid \<and> v \<le> u_perm_version u))"

lemma mirror_sound_follows:
  assumes c: "constraints (w_db w)" and f: "follows_world w w'" and m: "mirror_sound w"
  shows "mirror_sound w'"
proof (cases "w' = w")
  case False
  with f obtain d' es where w': "w' = commit d' es w" and fl: "follows (w_db w) d' es"
    by (auto simp: follows_world_def)
  show ?thesis
    unfolding mirror_sound_def
  proof (intro allI impI)
    fix uid v
    assume v: "perm_version (authority (w_redis w')) uid = Some v"
    show "\<exists>u \<in> set (users (w_db w')). u_id u = uid \<and> v \<le> u_perm_version u"
    proof (cases "uid \<in> user_ids (w_db w)")
      case True
      then obtain u where u: "u \<in> set (users (w_db w))" "u_id u = uid" by auto
      from followsD [OF fl u(1)] obtain u' where u': "u' \<in> set (users d')" "u_id u' = u_id u"
        "u_perm_version u' = u_perm_version u + 1 \<or> u_perm_version u' = u_perm_version u"
        "\<forall>v. PermVersion (uuid_str uid) v \<in> set es \<longrightarrow> v = u_perm_version u'"
        unfolding u(2) by blast
      from v w' u'(4) have "v = u_perm_version u' \<or> perm_version (authority (w_redis w)) uid = Some v"
        by (simp add: perm_version_publish split: if_splits)
      moreover have "v \<le> u_perm_version u" if "perm_version (authority (w_redis w)) uid = Some v"
        using m that u user_id_unique [OF c] unfolding mirror_sound_def by blast
      ultimately have "v \<le> u_perm_version u'" using u'(3) by force
      with u' u w' show ?thesis by auto
    next
      case False
      then have "\<not> (\<exists>v. PermVersion (uuid_str uid) v \<in> set es)"
        using fl by (auto simp: follows_def)
      with v w' m False show ?thesis
        by (auto simp: perm_version_publish mirror_sound_def)
    qed
  qed
qed (simp add: m)

lemma role_delete_frame:
  "users (w_db (snd (role_delete role w))) = users (w_db w)" "w_redis (snd (role_delete role w)) = w_redis w"
  by (simp_all add: role_delete_def Let_def)

lemma mirror_sound_step:
  assumes "world_step w w'" "world_inv w" "mirror_sound w"
  shows "mirror_sound w'"
  using assms(1)
proof cases
  case repo
  from mirror_sound_follows [OF inv_constraints [OF assms(2)] repo_step_follows [OF this assms(2)] assms(3)]
  show ?thesis .
qed (use assms in \<open>simp_all add: mirror_sound_def role_delete_frame\<close>)

lemma world_steps_inv: "world_step\<^sup>*\<^sup>* w w' \<Longrightarrow> world_inv w \<Longrightarrow> world_inv w'"
  by (induction rule: rtranclp_induct) (auto simp: world_step_inv)

text \<open>Worlds a deployment can reach from a synchronised database and an empty Redis.\<close>

inductive reachable_world :: "world \<Rightarrow> bool" where
  start: "db_inv d \<Longrightarrow> reachable_world \<lparr>w_db = d, w_redis = empty_redis\<rparr>"
| step: "reachable_world w \<Longrightarrow> world_step w w' \<Longrightarrow> reachable_world w'"

lemma reachable_world_sound: "reachable_world w \<Longrightarrow> world_inv w \<and> mirror_sound w"
proof (induction rule: reachable_world.induct)
  case (start d)
  then show ?case
    by (simp add: world_inv_def canonical_empty mirror_sound_def) (simp add: authority_def empty_redis_def)
next
  case (step w w')
  then show ?case using world_step_inv mirror_sound_step by blast
qed

lemma reachable_world_steps: "world_step\<^sup>*\<^sup>* w w' \<Longrightarrow> reachable_world w \<Longrightarrow> reachable_world w'"
  by (induction rule: rtranclp_induct) (auto intro: reachable_world.step)

subsection \<open>Properties\<close>


lemma reachable_sample: "reachable_world sample_world"
  unfolding sample_world_def by (rule reachable_world.start [OF db_inv_sample])


definition synced_worker :: "redis \<Rightarrow> bus" where
  "synced_worker r = (start_worker r)\<lparr>worker_cache := authority r\<rparr>"

lemma synced_worker: "in_step (synced_worker r)" "mirror (synced_worker r) = r"
  "drained (synced_worker r) = authority r"
  by (simp_all add: synced_worker_def start_worker_def in_step_def drained_def queue_of_def)

lemmas sample_eval = sample_world_def sample_db_def sample_rows user_role_rows_def user_perm_rows_def
  effective_permission_mask_def catalog_rows_value PERMISSION_REGISTRY_def bit1_def


definition without_reader :: world where
  "without_reader = snd (remove_from_user 2 bob sample_world)"

lemma without_reader_db: "w_db without_reader =
    sample_db\<lparr>users := [ann_row, bump_user bob_row, root_row], user_roles := [(ann, 1)]\<rparr>"
  by (simp add: without_reader_def remove_from_user_def sample_world_def sample_db_def bump_where_def
      bump_perm_version_def update_where_def delete_link_def sample_rows)


text \<open>
  Deleting a role is the exception to the rule. A user who held a bit only through the
  deleted role no longer holds it afterwards, but the user's version is what it was and nothing
  is published, so a token that carries the bit is exactly as acceptable to every worker as it
  was before.
\<close>

lemma role_delete_leaves_tokens_valid:
  assumes "loaded_role (w_db w) role" "u \<in> set (users (w_db w))" "world_inv w"
    and "(u_id u, r_id role) \<in> set (user_roles (w_db w))" "bit (r_permission_mask role) k"
    and "\<forall>r \<in> set (roles_of (load_user (w_db w) u)). r_id r \<noteq> r_id role \<longrightarrow> \<not> bit (r_permission_mask r) k"
    and "\<forall>p \<in> set (direct_permissions (load_user (w_db w) u)). registry_bit (p_name p) \<noteq> Some k"
  shows "let w' = snd (role_delete role w) in
    bit (effective_permission_mask (load_user (w_db w) u)) k \<and>
    \<not> bit (effective_permission_mask (load_user (w_db w') u)) k \<and>
    u \<in> set (users (w_db w')) \<and> w_redis w' = w_redis w"
proof -
  have "holds_bit (w_db w) (u_id u) k"
    using assms(1,4,5) by (auto simp: holds_bit_def)
  moreover have "\<not> holds_bit (w_db (snd (role_delete role w))) (u_id u) k"
    using assms(6,7) by (auto simp: holds_bit_def role_delete_def Let_def set_user_role_rows set_user_perm_rows)
  ultimately show ?thesis
    using assms(2) by (simp add: Let_def bit_loaded_mask role_delete_frame)
qed

lemma role_delete_leaves_tokens_valid_witness:
  "let w' = snd (role_delete (load_role sample_db admin_role) sample_world) in
    bit (effective_permission_mask (load_user (w_db sample_world) ann_row)) 5 \<and>
    \<not> bit (effective_permission_mask (load_user (w_db w') ann_row)) 5 \<and>
    ann_row \<in> set (users (w_db w')) \<and> w_redis w' = w_redis sample_world"
proof (rule role_delete_leaves_tokens_valid)
  show "world_inv sample_world" by (rule world_inv_sample)
  show "bit (r_permission_mask (load_role sample_db admin_role)) 5"
    by (simp add: admin_role_def bit_iff_odd)
qed (simp_all add: sample_eval)

end
