(* ===== verification/Tokens.thy ===== *)
theory Tokens
  imports Transitions
begin

text \<open>
  Access and refresh tokens: \<^verbatim>\<open>app/services/auth/token.py\<close>, \<^verbatim>\<open>app/services/auth/mint.py\<close> and
  \<^verbatim>\<open>app/services/auth/current_user.py\<close>, with the claims of \<^verbatim>\<open>app/schema/auth.py\<close>.

  PyJWT is not part of the repository: it is the pair of functions of the record \<open>jwt_lib\<close>,
  of which the proofs assume only what \<open>jwt_roundtrip\<close> states. A set of claims is the
  dictionary given to \<open>jwt.encode\<close>. Times are microseconds; an \<open>exp\<close> claim is in whole
  seconds, as PyJWT writes a \<open>datetime\<close>.
\<close>

type_synonym claims = "(string \<times> json) list"

record jwt_lib =
  jwt_encode :: "claims \<Rightarrow> string \<Rightarrow> string"
  jwt_decode :: "string \<Rightarrow> string \<Rightarrow> int \<Rightarrow> claims option"

record config =
  SECRET_KEY :: string
  REFRESH_KEY :: string
  ACCESS_TOKEN_EXPIRE_MINUTES :: int
  REFRESH_TOKEN_EXPIRE :: int

definition minutes :: "int \<Rightarrow> int" where "minutes n = n * 60 * 1000000"
definition days :: "int \<Rightarrow> int" where "days n = n * 24 * 60 * 60 * 1000000"

text \<open>
  What PyJWT documents: decoding with the key a token was signed with gives the claims back
  until the second \<open>exp\<close> names, and raises from then on.
\<close>

definition jwt_roundtrip :: "jwt_lib \<Rightarrow> bool" where
  "jwt_roundtrip J \<longleftrightarrow> (\<forall>c k now t. map_of c ''exp'' = Some (JInt t) \<longrightarrow>
     jwt_decode J (jwt_encode J c k) k now = (if now < t * 1000000 then Some c else None))"

subsection \<open>Claims\<close>

record token_payload =
  tp_id :: uuid
  tp_tenant_id :: "uuid option"
  tp_is_superuser :: bool
  tp_perm_mask :: string
  tp_perm_version :: int
  tp_exp :: int
  tp_auth_method :: string

definition json_uuid :: "uuid option \<Rightarrow> json" where
  "json_uuid u = (case u of None \<Rightarrow> JNull | Some x \<Rightarrow> JStr (uuid_str x))"

text \<open>\<open>payload.model_dump(mode="json", exclude={"exp"})\<close> with \<open>exp\<close> put back.\<close>

definition to_encode :: "token_payload \<Rightarrow> claims" where
  "to_encode p =
     [(''id'', JStr (uuid_str (tp_id p))), (''tenant_id'', json_uuid (tp_tenant_id p)),
      (''is_superuser'', JBool (tp_is_superuser p)), (''perm_mask'', JStr (tp_perm_mask p)),
      (''perm_version'', JInt (tp_perm_version p)), (''auth_method'', JStr (tp_auth_method p)),
      (''exp'', JInt (tp_exp p div 1000000))]"

text \<open>
  \<open>TokenPayload.model_validate\<close>: the fields with their defaults, None for a ValidationError.
  A claim of another JSON type than the field's is refused; the coercions pydantic would try
  on one never arise on what \<open>create_access_token\<close> signs.
\<close>

fun as_uuid :: "json \<Rightarrow> uuid option" where
  "as_uuid (JStr s) = uuid_parse s"
| "as_uuid _ = None"

fun as_optional_uuid :: "json option \<Rightarrow> uuid option option" where
  "as_optional_uuid None = Some None"
| "as_optional_uuid (Some JNull) = Some None"
| "as_optional_uuid (Some j) = map_option Some (as_uuid j)"

fun as_str :: "json \<Rightarrow> string option" where
  "as_str (JStr s) = Some s"
| "as_str _ = None"

fun as_int :: "json \<Rightarrow> int option" where
  "as_int (JInt i) = Some i"
| "as_int _ = None"

fun as_bool :: "json \<Rightarrow> bool option" where
  "as_bool (JBool b) = Some b"
| "as_bool _ = None"

definition required :: "(json \<Rightarrow> 'a option) \<Rightarrow> claims \<Rightarrow> string \<Rightarrow> 'a option" where
  "required f raw k = Option.bind (map_of raw k) f"

definition defaulted :: "(json \<Rightarrow> 'a option) \<Rightarrow> 'a \<Rightarrow> claims \<Rightarrow> string \<Rightarrow> 'a option" where
  "defaulted f x raw k = (case map_of raw k of None \<Rightarrow> Some x | Some j \<Rightarrow> f j)"

definition model_validate :: "claims \<Rightarrow> token_payload option" where
  "model_validate raw =
     Option.bind (required as_uuid raw ''id'') (\<lambda>i.
     Option.bind (as_optional_uuid (map_of raw ''tenant_id'')) (\<lambda>t.
     Option.bind (defaulted as_bool False raw ''is_superuser'') (\<lambda>s.
     Option.bind (required as_str raw ''perm_mask'') (\<lambda>m.
     Option.bind (required as_int raw ''perm_version'') (\<lambda>v.
     Option.bind (required as_int raw ''exp'') (\<lambda>x.
     Option.bind (defaulted as_str ''password'' raw ''auth_method'') (\<lambda>a.
       Some \<lparr>tp_id = i, tp_tenant_id = t, tp_is_superuser = s, tp_perm_mask = m,
             tp_perm_version = v, tp_exp = x * 1000000, tp_auth_method = a\<rparr>)))))))"

subsection \<open>Creating and verifying\<close>

text \<open>
  \<open>create_access_token\<close>; \<open>expires_delta\<close>, which no caller passes, is left at its default.
  \<open>mask_to_hex\<close> raises OverflowError for an integer that is not a 256-bit mask.
\<close>

definition create_access_token ::
    "jwt_lib \<Rightarrow> config \<Rightarrow> int \<Rightarrow> uuid \<Rightarrow> uuid option \<Rightarrow> bool \<Rightarrow> int \<Rightarrow> int \<Rightarrow> string \<Rightarrow> exn + string" where
  "create_access_token J C now user_id tenant_id is_superuser perm_mask version auth_method =
     (let expires = now + minutes (ACCESS_TOKEN_EXPIRE_MINUTES C) in
      map_sum id (\<lambda>hex.
        jwt_encode J (to_encode \<lparr>tp_id = user_id, tp_tenant_id = tenant_id, tp_is_superuser = is_superuser,
            tp_perm_mask = hex, tp_perm_version = version, tp_exp = expires,
            tp_auth_method = auth_method\<rparr>) (SECRET_KEY C))
        (mask_to_hex (Some perm_mask)))"

text \<open>The subject of a refresh token is always \<open>{"id": str(user.id)}\<close>; \<open>jti\<close> is the random nonce.\<close>

definition create_refresh_token :: "jwt_lib \<Rightarrow> config \<Rightarrow> int \<Rightarrow> uuid \<Rightarrow> uuid \<Rightarrow> int \<Rightarrow> string" where
  "create_refresh_token J C now user_id jti expires_delta =
     jwt_encode J [(''exp'', JInt ((now + expires_delta) div 1000000)),
        (''user'', JObj [(''id'', JStr (uuid_str user_id))]), (''jti'', JStr (uuid_hex jti))] (REFRESH_KEY C)"

definition verify_token :: "jwt_lib \<Rightarrow> config \<Rightarrow> int \<Rightarrow> string \<Rightarrow> token_payload option" where
  "verify_token J C now token = Option.bind (jwt_decode J token (SECRET_KEY C) now) model_validate"

subsection \<open>Authentication\<close>

record principal =
  pr_id :: uuid
  pr_tenant_id :: "uuid option"
  pr_is_superuser :: bool
  pr_perm_mask :: int
  pr_perm_version :: int

definition authenticate :: "jwt_lib \<Rightarrow> config \<Rightarrow> int \<Rightarrow> authz_cache \<Rightarrow> string \<Rightarrow> exn + token_payload" where
  "authenticate J C now cache token =
     (case verify_token J C now token of
        None \<Rightarrow> Inl InvalidToken
      | Some payload \<Rightarrow>
        if is_user_inactive cache (tp_id payload) then Inl UserDeactivated
        else if is_tenant_inactive cache (tp_tenant_id payload) then Inl TenantInactive
        else if is_stale cache (tp_id payload) (tp_perm_version payload) then Inl StaleToken
        else Inr payload)"

definition get_current_principal :: "jwt_lib \<Rightarrow> config \<Rightarrow> int \<Rightarrow> authz_cache \<Rightarrow> string \<Rightarrow> exn + principal" where
  "get_current_principal J C now cache token =
     (case authenticate J C now cache token of
        Inl e \<Rightarrow> Inl e
      | Inr payload \<Rightarrow>
        (case hex_to_mask (Some (tp_perm_mask payload)) of
           Inl e \<Rightarrow> Inl e
         | Inr m \<Rightarrow> Inr \<lparr>pr_id = tp_id payload, pr_tenant_id = tp_tenant_id payload,
             pr_is_superuser = tp_is_superuser payload, pr_perm_mask = m,
             pr_perm_version = tp_perm_version payload\<rparr>))"

definition get_current_user :: "jwt_lib \<Rightarrow> config \<Rightarrow> int \<Rightarrow> authz_cache \<Rightarrow> string \<Rightarrow> db \<Rightarrow> exn + user_obj" where
  "get_current_user J C now cache token d =
     (case authenticate J C now cache token of
        Inl e \<Rightarrow> Inl e
      | Inr payload \<Rightarrow>
        (case get_user_with_grants (tp_id payload) d of
           None \<Rightarrow> Inl (UserNotFound (IdUuid (tp_id payload)))
         | Some user \<Rightarrow> Inr user))"

subsection \<open>Minting\<close>

definition mint_access_token ::
    "jwt_lib \<Rightarrow> config \<Rightarrow> int \<Rightarrow> string \<Rightarrow> user_obj \<Rightarrow> db \<Rightarrow> exn + string" where
  "mint_access_token J C now auth_method user d =
     (let token = create_access_token J C now (u_id user) (u_tenant_id user) (u_is_superuser user)
            (effective_permission_mask user) (u_perm_version user) auth_method in
      if \<not> u_is_active user then Inl UserDeactivated
      else case u_tenant_id user of
        None \<Rightarrow> token
      | Some tenant_id \<Rightarrow>
          (case get_tenant_by_id tenant_id d of
             None \<Rightarrow> Inl TenantInactive
           | Some t \<Rightarrow> if \<not> t_is_active t then Inl TenantInactive else token))"

end
