(* ===== verification/SampleJwt.thy ===== *)
theory SampleJwt
  imports Tokens
begin

text \<open>
  A concrete pair of functions that satisfies \<open>jwt_roundtrip\<close>, on which the properties about
  tokens are applied: the claims are written as a self-delimiting text, followed by the key.
  It says nothing about PyJWT; it shows that the hypothesis can hold.
\<close>

definition esc :: "string \<Rightarrow> string" where
  "esc s = concat (map (\<lambda>c. [CHR ''+'', c]) s) @ ''.''"

fun unesc :: "string \<Rightarrow> (string \<times> string) option" where
  "unesc (x # xs) =
     (if x = CHR ''.'' then Some ([], xs)
      else case xs of [] \<Rightarrow> None
           | c # ys \<Rightarrow> map_option (\<lambda>(s, r). (c # s, r)) (unesc ys))"
| "unesc [] = None"

lemma unesc_esc: "unesc (esc s @ r) = Some (s, r)"
  by (induction s) (auto simp: esc_def)

fun render :: "json \<Rightarrow> string" where
  "render JNull = ''n''"
| "render (JBool b) = (if b then ''t'' else ''f'')"
| "render (JInt i) = ''i'' @ esc (str_int i)"
| "render (JStr s) = ''s'' @ esc s"
| "render (JList js) = ''l'' @ concat (map (\<lambda>j. '','' @ render j) js) @ ''.''"
| "render (JObj kvs) = ''o'' @ concat (map (\<lambda>(k, j). '','' @ esc k @ render j) kvs) @ ''.''"

text \<open>The first argument bounds the depth of the calls; the length of the text is enough.\<close>

fun parse :: "nat \<Rightarrow> string \<Rightarrow> (json \<times> string) option"
  and parse_items :: "nat \<Rightarrow> string \<Rightarrow> (json list \<times> string) option"
  and parse_fields :: "nat \<Rightarrow> string \<Rightarrow> (claims \<times> string) option" where
  "parse 0 _ = None"
| "parse (Suc n) [] = None"
| "parse (Suc n) (x # xs) =
     (if x = CHR ''n'' then Some (JNull, xs)
      else if x = CHR ''t'' then Some (JBool True, xs)
      else if x = CHR ''f'' then Some (JBool False, xs)
      else if x = CHR ''i'' then Option.bind (unesc xs) (\<lambda>(s, r). map_option (\<lambda>i. (JInt i, r)) (parse_int s))
      else if x = CHR ''s'' then map_option (\<lambda>(s, r). (JStr s, r)) (unesc xs)
      else if x = CHR ''l'' then map_option (\<lambda>(js, r). (JList js, r)) (parse_items n xs)
      else if x = CHR ''o'' then map_option (\<lambda>(kvs, r). (JObj kvs, r)) (parse_fields n xs)
      else None)"
| "parse_items 0 _ = None"
| "parse_items (Suc n) [] = None"
| "parse_items (Suc n) (x # xs) =
     (if x = CHR ''.'' then Some ([], xs)
      else Option.bind (parse n xs) (\<lambda>(j, r).
        map_option (\<lambda>(js, r'). (j # js, r')) (parse_items n r)))"
| "parse_fields 0 _ = None"
| "parse_fields (Suc n) [] = None"
| "parse_fields (Suc n) (x # xs) =
     (if x = CHR ''.'' then Some ([], xs)
      else Option.bind (unesc xs) (\<lambda>(k, r).
        Option.bind (parse n r) (\<lambda>(j, r').
          map_option (\<lambda>(kvs, r''). ((k, j) # kvs, r'')) (parse_fields n r'))))"

lemma parse_items_render:
  assumes "\<And>j n r. j \<in> set js \<Longrightarrow> length (render j) \<le> n \<Longrightarrow> parse n (render j @ r) = Some (j, r)"
    and "length (concat (map (\<lambda>j. '','' @ render j) js)) < n"
  shows "parse_items n (concat (map (\<lambda>j. '','' @ render j) js) @ ''.'' @ r) = Some (js, r)"
  using assms
proof (induction js arbitrary: n)
  case Nil
  then show ?case by (cases n) auto
next
  case (Cons j js)
  then obtain m where n: "n = Suc m" by (cases n) auto
  have "parse m (render j @ concat (map (\<lambda>j. '','' @ render j) js) @ ''.'' @ r) =
      Some (j, concat (map (\<lambda>j. '','' @ render j) js) @ ''.'' @ r)"
    using Cons.prems n by (intro Cons.prems(1)) auto
  moreover have "parse_items m (concat (map (\<lambda>j. '','' @ render j) js) @ ''.'' @ r) = Some (js, r)"
    using Cons.prems n by (intro Cons.IH) auto
  ultimately show ?case by (simp add: n)
qed

lemma parse_fields_render:
  assumes "\<And>k j n r. (k, j) \<in> set kvs \<Longrightarrow> length (render j) \<le> n \<Longrightarrow> parse n (render j @ r) = Some (j, r)"
    and "length (concat (map (\<lambda>(k, j). '','' @ esc k @ render j) kvs)) < n"
  shows "parse_fields n (concat (map (\<lambda>(k, j). '','' @ esc k @ render j) kvs) @ ''.'' @ r) = Some (kvs, r)"
  using assms
proof (induction kvs arbitrary: n)
  case Nil
  then show ?case by (cases n) auto
next
  case (Cons kj kvs)
  obtain k j where kj: "kj = (k, j)" by (cases kj)
  from Cons.prems obtain m where n: "n = Suc m" by (cases n) auto
  let ?rest = "concat (map (\<lambda>(k, j). '','' @ esc k @ render j) kvs) @ ''.'' @ r"
  have "parse m (render j @ ?rest) = Some (j, ?rest)"
    using Cons.prems n kj by (intro Cons.prems(1) [of k]) auto
  moreover have "parse_fields m ?rest = Some (kvs, r)"
    using Cons.prems n kj by (intro Cons.IH) auto
  ultimately show ?case by (simp add: n kj unesc_esc)
qed

lemma parse_render: "length (render j) \<le> n \<Longrightarrow> parse n (render j @ r) = Some (j, r)"
proof (induction j arbitrary: n r rule: render.induct)
  case (5 js)
  then obtain m where n: "n = Suc m" by (cases n) auto
  with 5 show ?case by (simp add: parse_items_render [where r = r, simplified])
next
  case (6 kvs)
  then obtain m where n: "n = Suc m" by (cases n) auto
  with 6 show ?case by (simp add: parse_fields_render [where r = r, simplified])
qed (case_tac [!] n, auto simp: unesc_esc parse_int_str_int split: if_splits)

definition plain_jwt :: jwt_lib where
  "plain_jwt = \<lparr>jwt_encode = (\<lambda>c k. render (JObj c) @ k),
     jwt_decode = (\<lambda>s k now. case parse (length s) s of
        Some (JObj c, k') \<Rightarrow>
          (case map_of c ''exp'' of
             Some (JInt t) \<Rightarrow> if k' = k \<and> now < t * 1000000 then Some c else None
           | _ \<Rightarrow> None)
      | _ \<Rightarrow> None)\<rparr>"

lemma jwt_roundtrip_plain: "jwt_roundtrip plain_jwt"
  by (auto simp: jwt_roundtrip_def plain_jwt_def parse_render simp del: render.simps)

definition sample_config :: config where
  "sample_config = \<lparr>SECRET_KEY = ''k1'', REFRESH_KEY = ''k2'', ACCESS_TOKEN_EXPIRE_MINUTES = 15,
     REFRESH_TOKEN_EXPIRE = 7\<rparr>"

end
