(* ===== verification/TokenSafety.thy ===== *)
theory TokenSafety
  imports SampleJwt
begin

text \<open>
  From the database to a decision: what a token minted in one state of the database is worth in
  a later one. The mirror in Redis is read as a collection of cells, each written by one kind of
  event, and every operation of a repository is shown to publish what it changes of an account.
\<close>

subsection \<open>Cells of the mirror\<close>

text \<open>A part of the mirror that an event either overwrites or leaves alone.\<close>

locale mirrored_cell =
  fixes cell :: "redis \<Rightarrow> 'v" and wrote :: "event \<Rightarrow> 'v option"
  assumes queue: "cell (queue_event r e) = (case wrote e of None \<Rightarrow> cell r | Some v \<Rightarrow> v)"
begin

lemma foldl_queue:
  assumes "\<And>e v. e \<in> set es \<Longrightarrow> wrote e = Some v \<Longrightarrow> v = x"
  shows "cell (foldl queue_event r es) = (if \<exists>e \<in> set es. wrote e \<noteq> None then x else cell r)"
  using assms
proof (induction es rule: rev_induct)
  case (snoc e es)
  then have "cell (foldl queue_event r es) = (if \<exists>e \<in> set es. wrote e \<noteq> None then x else cell r)"
    by (metis butlast_snoc in_set_butlastD)
  with snoc.prems [of e] show ?case by (simp add: queue split: option.split)
qed simp

lemma publish:
  assumes "\<And>e v. e \<in> set es \<Longrightarrow> wrote e = Some v \<Longrightarrow> v = x"
  shows "cell (publish_events es r) = (if reachable r \<and> (\<exists>e \<in> set es. wrote e \<noteq> None) then x else cell r)"
  using foldl_queue [OF assms] by (auto simp: publish_events_def)

lemma publish_once:
  "reachable r \<Longrightarrow> (\<And>e v. e \<in> set es \<Longrightarrow> wrote e = Some v \<Longrightarrow> v = x) \<Longrightarrow> e \<in> set es \<Longrightarrow> wrote e = Some v \<Longrightarrow>
     cell (publish_events es r) = x"
  by (subst publish) auto

lemma cell_publish_none: "(\<And>e. e \<in> set es \<Longrightarrow> wrote e = None) \<Longrightarrow> cell (publish_events es r) = cell r"
  by (subst publish [where x = "cell r"]) auto

end

fun version_written :: "uuid \<Rightarrow> event \<Rightarrow> int option option" where
  "version_written uid (PermVersion i v) = (if i = uuid_str uid then Some (Some v) else None)"
| "version_written uid _ = None"

fun user_status_written :: "uuid \<Rightarrow> event \<Rightarrow> bool option" where
  "user_status_written uid (UserStatus i a) = (if i = uuid_str uid then Some (\<not> a) else None)"
| "user_status_written uid _ = None"

fun tenant_status_written :: "uuid \<Rightarrow> event \<Rightarrow> bool option" where
  "tenant_status_written tid (TenantStatus i a) = (if i = uuid_str tid then Some (\<not> a) else None)"
| "tenant_status_written tid _ = None"

interpretation version_cell: mirrored_cell "\<lambda>r. perm_version (authority r) uid" "version_written uid" for uid
  by unfold_locales (auto simp: perm_version_queue_event split: event.split)

interpretation user_cell: mirrored_cell "\<lambda>r. uid \<in> inactive_user_ids (authority r)" "user_status_written uid" for uid
proof
  show "(uid \<in> inactive_user_ids (authority (queue_event r e))) =
      (case user_status_written uid e of None \<Rightarrow> uid \<in> inactive_user_ids (authority r) | Some v \<Rightarrow> v)" for r e
    by (cases e) (auto simp: authority_def queue_event_def)
qed

interpretation tenant_cell: mirrored_cell "\<lambda>r. tid \<in> inactive_tenant_ids (authority r)" "tenant_status_written tid" for tid
proof
  show "(tid \<in> inactive_tenant_ids (authority (queue_event r e))) =
      (case tenant_status_written tid e of None \<Rightarrow> tid \<in> inactive_tenant_ids (authority r) | Some v \<Rightarrow> v)" for r e
    by (cases e) (auto simp: authority_def queue_event_def)
qed

subsection \<open>What an operation does to an account\<close>

text \<open>
  The flags of a user that matter for authentication, and the status of a tenant: an operation
  leaves each as it was or publishes the new value; the superuser flag and the tenant of an
  account never change.
\<close>

definition accounts_follow :: "db \<Rightarrow> db \<Rightarrow> event list \<Rightarrow> bool" where
  "accounts_follow d d' es \<longleftrightarrow>
     (\<forall>u \<in> set (users d). \<exists>u' \<in> set (users d'). u_id u' = u_id u \<and>
        u_is_superuser u' = u_is_superuser u \<and> u_tenant_id u' = u_tenant_id u \<and>
        (\<forall>a. UserStatus (uuid_str (u_id u)) a \<in> set es \<longrightarrow> a = u_is_active u') \<and>
        (u_is_active u' = u_is_active u \<or> UserStatus (uuid_str (u_id u)) (u_is_active u') \<in> set es)) \<and>
     (\<forall>t \<in> set (tenants d). \<exists>t' \<in> set (tenants d'). t_id t' = t_id t \<and>
        (\<forall>a. TenantStatus (uuid_str (t_id t)) a \<in> set es \<longrightarrow> a = t_is_active t') \<and>
        (t_is_active t' = t_is_active t \<or> TenantStatus (uuid_str (t_id t)) (t_is_active t') \<in> set es))"

definition accounts_world :: "world \<Rightarrow> world \<Rightarrow> bool" where
  "accounts_world w w' \<longleftrightarrow> w' = w \<or> (\<exists>d' es. w' = commit d' es w \<and> accounts_follow (w_db w) d' es)"

lemma accounts_world_refl [simp]: "accounts_world w w"
  by (simp add: accounts_world_def)

lemma accounts_worldI: "accounts_follow (w_db w) d' es \<Longrightarrow> accounts_world w (commit d' es w)"
  by (auto simp: accounts_world_def)

definition no_status :: "event list \<Rightarrow> bool" where
  "no_status es \<longleftrightarrow> (\<forall>i a. UserStatus i a \<notin> set es \<and> TenantStatus i a \<notin> set es)"

text \<open>Rewriting the rows of users in place without touching those flags.\<close>

lemma accounts_update:
  assumes "users d' = update_where P f (users d)" "tenants d' = tenants d" "no_status es"
    and "\<And>u. u_id (f u) = u_id u \<and> u_is_superuser (f u) = u_is_superuser u \<and>
      u_tenant_id (f u) = u_tenant_id u \<and> u_is_active (f u) = u_is_active u"
  shows "accounts_follow d d' es"
  unfolding accounts_follow_def
proof (intro conjI ballI)
  fix u
  assume "u \<in> set (users d)"
  then have "(if P u then f u else u) \<in> set (users d')" by (auto simp: assms(1) set_update_where)
  with assms(3,4) [unfolded no_status_def]
  show "\<exists>u' \<in> set (users d'). u_id u' = u_id u \<and> u_is_superuser u' = u_is_superuser u \<and>
      u_tenant_id u' = u_tenant_id u \<and>
      (\<forall>a. UserStatus (uuid_str (u_id u)) a \<in> set es \<longrightarrow> a = u_is_active u') \<and>
      (u_is_active u' = u_is_active u \<or> UserStatus (uuid_str (u_id u)) (u_is_active u') \<in> set es)"
    by (intro bexI [of _ "if P u then f u else u"]) auto
qed (use assms(2,3) in \<open>auto simp: no_status_def\<close>)

lemma accounts_frame:
  assumes "set (users d) \<subseteq> set (users d')" "set (tenants d) \<subseteq> set (tenants d')" "no_status es"
  shows "accounts_follow d d' es"
  using assms by (auto simp: accounts_follow_def no_status_def)

lemma no_status_Nil [simp]: "no_status []"
  by (simp add: no_status_def)

lemma no_status_version [simp]: "no_status [PermVersion i v]"
  by (simp add: no_status_def)

lemma accounts_bump:
  assumes "users d1 = users d" "tenants d1 = tenants d"
  shows "accounts_follow d (fst (bump_where P d1)) (snd (bump_where P d1))"
proof (rule accounts_update)
  show "users (fst (bump_where P d1)) = update_where P bump_user (users d)"
    by (simp add: bump_where_db assms)
  show "tenants (fst (bump_where P d1)) = tenants d" by (simp add: bump_where_db assms)
  show "no_status (snd (bump_where P d1))" by (auto simp: no_status_def bump_where_def version_event_def)
qed (simp add: bump_user_def)

lemma accounts_role_create: "accounts_world w (snd (role_create name tid ps m w))"
  by (auto simp: role_create_def Let_def split: option.splits sum.splits
      intro!: accounts_worldI accounts_frame)

lemma accounts_create_root: "accounts_world w (snd (create_root_tenant_role tid a w))"
  by (auto simp: create_root_tenant_role_def Let_def split: option.splits sum.splits
      intro!: accounts_worldI accounts_frame)

lemma accounts_bump_holders:
  assumes "users d1 = users d" "tenants d1 = tenants d"
  shows "accounts_follow d (fst (bump_perm_version_for_role_holders rid d1))
    (snd (bump_perm_version_for_role_holders rid d1))"
  unfolding bump_holders by (rule accounts_bump [OF assms])

lemma accounts_sync_root: "accounts_world w (snd (sync_root_tenant_role_permissions tid a w))"
  by (auto simp: sync_root_tenant_role_permissions_def Let_def case_prod_beta split: option.splits
      intro!: accounts_worldI accounts_bump_holders)

lemma accounts_role_update: "accounts_world w (snd (role_update role new_name w))"
  by (auto simp: role_update_def Let_def split: option.splits intro!: accounts_worldI accounts_frame)

lemma accounts_links:
  "accounts_world w (snd (assign_to_user rid uid w))" "accounts_world w (snd (remove_from_user rid uid w))"
  by (auto simp: assign_to_user_def remove_from_user_def Let_def case_prod_beta bump_is_where(2)
      split: option.splits intro!: accounts_worldI accounts_bump)

lemma accounts_role_permissions:
  assumes "world_inv w" "loaded_role (w_db w) role" "perm \<in> set (permissions (w_db w))"
  shows "accounts_world w (snd (add_permission role perm w))"
    "accounts_world w (snd (remove_permission role perm w))"
  by (auto simp: add_permission_eq [OF assms] remove_permission_eq [OF assms] Let_def set_role_rows_def
      intro!: accounts_worldI accounts_bump_holders)

lemma accounts_grantable:
  "accounts_world w (snd (add_grantable_role r g w))" "accounts_world w (snd (remove_grantable_role r g w))"
  "accounts_world w (snd (add_grantable_permission r p w))"
  "accounts_world w (snd (remove_grantable_permission r p w))"
  by (auto simp: add_grantable_role_def remove_grantable_role_def add_grantable_permission_def
      remove_grantable_permission_def Let_def split: option.splits intro!: accounts_worldI accounts_frame)

lemma accounts_tokens:
  "accounts_world w (snd (token_create k uid x w))" "accounts_world w (snd (delete_by_token k w))"
  "accounts_world w (snd (delete_all_for_user uid w))" "accounts_world w (snd (token_revoke t w))"
  "accounts_world w (snd (token_delete_instance t w))"
  by (auto simp: token_create_def delete_by_token_def delete_all_for_user_def token_revoke_def
      token_delete_instance_def Let_def intro!: accounts_worldI accounts_frame)

lemma accounts_creation:
  "accounts_world w (snd (tenant_create i n m w))" "accounts_world w (snd (user_create i n e p v s cb t w))"
  "accounts_world w (snd (create_with_bit n b w))"
  by (auto simp: tenant_create_def user_create_def create_with_bit_def Let_def split: sum.splits
      intro!: accounts_worldI accounts_frame)

lemma accounts_write_user:
  assumes "users d1 = users d" "tenants d1 = tenants d" "no_status es"
    and "\<And>u. u_id (f u) = u_id u \<and> u_is_superuser (f u) = u_is_superuser u \<and>
      u_tenant_id (f u) = u_tenant_id u \<and> u_is_active (f u) = u_is_active u"
  shows "accounts_follow d (write_user uid f d1) es"
  by (rule accounts_update [OF _ _ assms(3,4)]) (simp_all add: write_user_def assms(1,2))

lemma accounts_user_writes:
  "accounts_world w (snd (set_verified uid w))" "accounts_world w (snd (set_password uid pw w))"
  "accounts_world w (snd (grant_permission user perm w))" "accounts_world w (snd (revoke_permission user perm w))"
  by (auto simp: set_verified_def set_password_def grant_permission_def revoke_permission_def Let_def
      split: option.splits intro!: accounts_worldI accounts_write_user)

lemma accounts_set_user_active: "accounts_world w (snd (set_user_active user a w))"
proof -
  let ?d = "w_db w" and ?es = "[UserStatus (uuid_str (u_id user)) a]"
  have "accounts_follow ?d (write_user (u_id user) (\<lambda>u. u\<lparr>u_is_active := a\<rparr>) ?d) ?es"
    unfolding accounts_follow_def
  proof (intro conjI ballI)
    fix u
    assume "u \<in> set (users ?d)"
    then show "\<exists>u' \<in> set (users (write_user (u_id user) (\<lambda>u. u\<lparr>u_is_active := a\<rparr>) ?d)).
        u_id u' = u_id u \<and> u_is_superuser u' = u_is_superuser u \<and> u_tenant_id u' = u_tenant_id u \<and>
        (\<forall>a. UserStatus (uuid_str (u_id u)) a \<in> set ?es \<longrightarrow> a = u_is_active u') \<and>
        (u_is_active u' = u_is_active u \<or> UserStatus (uuid_str (u_id u)) (u_is_active u') \<in> set ?es)"
      by (intro bexI [of _ "if u_id u = u_id user then u\<lparr>u_is_active := a\<rparr> else u"])
        (auto simp: write_user_def set_update_where)
  qed (auto simp: write_user_def)
  then show ?thesis by (simp add: set_user_active_def Let_def accounts_worldI)
qed

lemma accounts_update_tenants:
  assumes "\<And>t. t_id (f t) = t_id t" "\<And>i a. UserStatus i a \<notin> set es"
    and "\<And>t. P t \<Longrightarrow> t_is_active (f t) = t_is_active t \<or>
      TenantStatus (uuid_str (t_id t)) (t_is_active (f t)) \<in> set es"
    and "\<And>t a. TenantStatus (uuid_str (t_id t)) a \<in> set es \<Longrightarrow> P t \<and> a = t_is_active (f t)"
  shows "accounts_follow d (d\<lparr>tenants := update_where P f (tenants d)\<rparr>) es"
  unfolding accounts_follow_def
proof (intro conjI ballI)
  fix t
  assume "t \<in> set (tenants d)"
  then show "\<exists>t' \<in> set (tenants (d\<lparr>tenants := update_where P f (tenants d)\<rparr>)). t_id t' = t_id t \<and>
        (\<forall>a. TenantStatus (uuid_str (t_id t)) a \<in> set es \<longrightarrow> a = t_is_active t') \<and>
        (t_is_active t' = t_is_active t \<or> TenantStatus (uuid_str (t_id t)) (t_is_active t') \<in> set es)"
    using assms(1,3,4) by (intro bexI [of _ "if P t then f t else t"]) (auto simp: set_update_where)
qed (use assms(2) in auto)

lemma accounts_ceiling: "accounts_world w (snd (set_allowed_permission_mask t m w))"
  by (auto simp: set_allowed_permission_mask_def Let_def split: sum.splits
      intro!: accounts_worldI accounts_update_tenants)

lemma accounts_set_tenant_active: "accounts_world w (snd (set_tenant_active t a w))"
  by (auto simp: set_tenant_active_def Let_def intro!: accounts_worldI accounts_update_tenants)

lemmas accounts_ops = accounts_role_create accounts_create_root accounts_sync_root accounts_role_update
  accounts_links accounts_role_permissions accounts_grantable accounts_tokens accounts_creation
  accounts_user_writes accounts_set_user_active accounts_ceiling accounts_set_tenant_active

lemma repo_step_accounts: "repo_step w w' \<Longrightarrow> world_inv w \<Longrightarrow> accounts_world w w'"
  by (erule repo_step.cases) (simp_all add: accounts_ops)

subsection \<open>What a token knows\<close>

text \<open>
  A run of repository operations while Redis answers. The facts a minted token carries of user
  \<open>uid\<close>: its version \<open>v\<close>, and the bits \<open>H\<close>, the superuser flag and the tenant of the account.
\<close>

definition online_step :: "world \<Rightarrow> world \<Rightarrow> bool" where
  "online_step w w' \<longleftrightarrow> repo_step w w' \<and> reachable (w_redis w)"

text \<open>
  What stays true of them: as long as the user's version is the token's, the bits are the
  token's; once it is not, the mirror has a later one; and an account or a tenant that was
  active when the token was minted and no longer is, is marked in the mirror.
\<close>

definition version_covered :: "uuid \<Rightarrow> int \<Rightarrow> (nat \<Rightarrow> bool) \<Rightarrow> user \<Rightarrow> world \<Rightarrow> bool" where
  "version_covered uid v H u w \<longleftrightarrow> v \<le> u_perm_version u \<and>
     (if u_perm_version u = v then holds_bit (w_db w) uid = H
      else \<exists>x > v. perm_version (authority (w_redis w)) uid = Some x)"

definition covered :: "uuid \<Rightarrow> int \<Rightarrow> (nat \<Rightarrow> bool) \<Rightarrow> bool \<Rightarrow> uuid option \<Rightarrow> world \<Rightarrow> bool" where
  "covered uid v H s tid w \<longleftrightarrow>
     (\<exists>u \<in> set (users (w_db w)). u_id u = uid \<and> u_is_superuser u = s \<and> u_tenant_id u = tid \<and>
        version_covered uid v H u w \<and>
        (u_is_active u \<or> uid \<in> inactive_user_ids (authority (w_redis w)))) \<and>
     (\<forall>i. tid = Some i \<longrightarrow> (\<exists>t \<in> set (tenants (w_db w)). t_id t = i \<and>
        (t_is_active t \<or> i \<in> inactive_tenant_ids (authority (w_redis w)))))"

lemma version_covered_step:
  assumes fl: "follows d d' es" and c: "constraints d'" and r: "reachable r"
    and u: "u \<in> set (users d)" "u_id u = uid" and u': "u' \<in> set (users d')" "u_id u' = uid"
    and cov: "version_covered uid v H u \<lparr>w_db = d, w_redis = r\<rparr>"
  shows "version_covered uid v H u' \<lparr>w_db = d', w_redis = publish_events es r\<rparr>"
proof -
  from followsD [OF fl u(1)] obtain x where x: "x \<in> set (users d')" "u_id x = uid"
    "u_perm_version x = u_perm_version u + 1 \<and> PermVersion (uuid_str uid) (u_perm_version x) \<in> set es \<or>
      u_perm_version x = u_perm_version u \<and> holds_bit d' uid = holds_bit d uid"
    "\<forall>v. PermVersion (uuid_str uid) v \<in> set es \<longrightarrow> v = u_perm_version x"
    unfolding u(2) by blast
  have "x = u'" by (rule user_id_unique [OF c x(1) u'(1)]) (simp add: x(2) u'(2))
  note x = x [unfolded this]
  have pv: "perm_version (authority (publish_events es r)) uid =
      (if \<exists>v. PermVersion (uuid_str uid) v \<in> set es then Some (u_perm_version u')
       else perm_version (authority r) uid)"
    using r by (simp add: perm_version_publish [OF x(4)])
  show ?thesis
  proof (cases "\<exists>v. PermVersion (uuid_str uid) v \<in> set es")
    case True
    with x(3) cov pv show ?thesis by (auto simp: version_covered_def split: if_splits)
  next
    case False
    with x(3) cov pv show ?thesis by (auto simp: version_covered_def split: if_splits)
  qed
qed

text \<open>One commit for both readings of a step: what is published tells the two apart.\<close>

lemma online_commit:
  assumes "online_step w w'" "world_inv w"
  shows "w' = w \<or> (\<exists>d es. w' = commit d es w \<and> follows (w_db w) d es \<and> accounts_follow (w_db w) d es)"
proof (cases "w' = w")
  case False
  from assms(1) have step: "repo_step w w'" and r: "reachable (w_redis w)" by (simp_all add: online_step_def)
  from repo_step_accounts [OF step assms(2)] False obtain d es where
    w1: "w' = commit d es w" "accounts_follow (w_db w) d es" by (auto simp: accounts_world_def)
  from repo_step_follows [OF step assms(2)] False obtain d' es' where
    w2: "w' = commit d' es' w" "follows (w_db w) d' es'" by (auto simp: follows_world_def)
  have "d' = d" using w1(1) w2(1) by (metis commit_simps(1))
  moreover have "channel (w_redis w) @ es = channel (w_redis w) @ es'"
    using arg_cong [of _ _ "\<lambda>w. channel (w_redis w)", OF w1(1)] arg_cong [of _ _ "\<lambda>w. channel (w_redis w)", OF w2(1)] r
    by (simp add: channel_publish)
  ultimately show ?thesis using w1 w2 by auto
qed simp

lemma status_written_iff:
  "user_status_written uid e = Some v \<longleftrightarrow> e = UserStatus (uuid_str uid) (\<not> v)"
  "tenant_status_written tid e = Some v \<longleftrightarrow> e = TenantStatus (uuid_str tid) (\<not> v)"
  by (cases e; auto)+

lemma user_status_covered:
  assumes "reachable r" "\<forall>a. UserStatus (uuid_str uid) a \<in> set es \<longrightarrow> a = u_is_active u'"
    and "u_is_active u' = u_is_active u \<or> UserStatus (uuid_str uid) (u_is_active u') \<in> set es"
    and "u_is_active u \<or> uid \<in> inactive_user_ids (authority r)"
  shows "u_is_active u' \<or> uid \<in> inactive_user_ids (authority (publish_events es r))"
proof -
  have w: "v = (\<not> u_is_active u')" if "e \<in> set es" "user_status_written uid e = Some v" for e v
    using that assms(2) by (auto simp: status_written_iff)
  show ?thesis
  proof (cases "\<exists>e \<in> set es. user_status_written uid e \<noteq> None")
    case False
    then have "UserStatus (uuid_str uid) a \<notin> set es" for a by force
    with assms(3,4) False show ?thesis by (simp add: user_cell.publish [OF w])
  qed (simp add: user_cell.publish [OF w] assms(1))
qed

lemma tenant_status_covered:
  assumes "reachable r" "\<forall>a. TenantStatus (uuid_str tid) a \<in> set es \<longrightarrow> a = t_is_active t'"
    and "t_is_active t' = t_is_active t \<or> TenantStatus (uuid_str tid) (t_is_active t') \<in> set es"
    and "t_is_active t \<or> tid \<in> inactive_tenant_ids (authority r)"
  shows "t_is_active t' \<or> tid \<in> inactive_tenant_ids (authority (publish_events es r))"
proof -
  have w: "v = (\<not> t_is_active t')" if "e \<in> set es" "tenant_status_written tid e = Some v" for e v
    using that assms(2) by (auto simp: status_written_iff)
  show ?thesis
  proof (cases "\<exists>e \<in> set es. tenant_status_written tid e \<noteq> None")
    case False
    then have "TenantStatus (uuid_str tid) a \<notin> set es" for a by force
    with assms(3,4) False show ?thesis by (simp add: tenant_cell.publish [OF w])
  qed (simp add: tenant_cell.publish [OF w] assms(1))
qed

lemma covered_step:
  assumes "online_step w w'" "world_inv w" "covered uid v H s tid w"
  shows "covered uid v H s tid w'"
  using online_commit [OF assms(1,2)]
proof
  assume "\<exists>d es. w' = commit d es w \<and> follows (w_db w) d es \<and> accounts_follow (w_db w) d es"
  then obtain d es where w': "w' = commit d es w" and fl: "follows (w_db w) d es"
    and acc: "accounts_follow (w_db w) d es" by blast
  from assms(1) have step: "repo_step w w'" and r: "reachable (w_redis w)" by (simp_all add: online_step_def)
  have c': "constraints d" using inv_constraints [OF repo_step_inv [OF step assms(2)]] by (simp add: w')
  from assms(3) obtain u where u: "u \<in> set (users (w_db w))" "u_id u = uid" "u_is_superuser u = s"
    "u_tenant_id u = tid" "version_covered uid v H u w"
    "u_is_active u \<or> uid \<in> inactive_user_ids (authority (w_redis w))"
    by (auto simp: covered_def)
  from acc u(1) [folded u(2)] obtain u' where u': "u' \<in> set (users d)" "u_id u' = u_id u"
    "u_is_superuser u' = u_is_superuser u" "u_tenant_id u' = u_tenant_id u"
    "\<forall>a. UserStatus (uuid_str (u_id u)) a \<in> set es \<longrightarrow> a = u_is_active u'"
    "u_is_active u' = u_is_active u \<or> UserStatus (uuid_str (u_id u)) (u_is_active u') \<in> set es"
    unfolding accounts_follow_def by blast
  have "version_covered uid v H u' \<lparr>w_db = d, w_redis = publish_events es (w_redis w)\<rparr>"
    by (rule version_covered_step [OF fl c' r u(1,2) u'(1)]) (use u(2,5) u'(2) in \<open>simp_all add: version_covered_def\<close>)
  then have "version_covered uid v H u' w'" by (simp add: w' version_covered_def split: if_splits)
  moreover have "u_is_active u' \<or> uid \<in> inactive_user_ids (authority (w_redis w'))"
    using user_status_covered [OF r u'(5,6) u(6) [folded u(2)]] by (simp add: w' u(2))
  moreover have "\<exists>t' \<in> set (tenants (w_db w')). t_id t' = i \<and>
      (t_is_active t' \<or> i \<in> inactive_tenant_ids (authority (w_redis w')))" if "tid = Some i" for i
  proof -
    from assms(3) that obtain t where t: "t \<in> set (tenants (w_db w))" "t_id t = i"
      "t_is_active t \<or> i \<in> inactive_tenant_ids (authority (w_redis w))" by (auto simp: covered_def)
    from acc t(1) [folded t(2)] obtain t' where t': "t' \<in> set (tenants d)" "t_id t' = t_id t"
      "\<forall>a. TenantStatus (uuid_str (t_id t)) a \<in> set es \<longrightarrow> a = t_is_active t'"
      "t_is_active t' = t_is_active t \<or> TenantStatus (uuid_str (t_id t)) (t_is_active t') \<in> set es"
      unfolding accounts_follow_def by blast
    with tenant_status_covered [OF r t'(3,4) t(3) [folded t(2)]] t(2) show ?thesis by (auto simp: w')
  qed
  ultimately show ?thesis using u u' by (auto simp: covered_def w')
qed (simp add: assms(3))

lemma online_run:
  assumes "online_step\<^sup>*\<^sup>* w0 w" "world_inv w0" "covered uid v H s tid w0"
  shows "world_inv w \<and> covered uid v H s tid w"
  using assms
proof (induction rule: rtranclp_induct)
  case (step w1 w2)
  then have "world_inv w1" "covered uid v H s tid w1" by simp_all
  with step.hyps(2) show ?case by (meson covered_step online_step_def repo_step_inv)
qed simp

subsection \<open>Minting and accepting\<close>

lemma effective_mask_valid:
  assumes "db_inv d" "loaded_user d user"
  shows "valid_mask (effective_permission_mask user)"
proof -
  from assms(2) obtain u where u: "u \<in> set (users d)" "user = load_user d u" by auto
  let ?m = "effective_permission_mask user"
  have "\<exists>p \<in> set (permissions d). p_bit_position p = Some k" if "bit ?m k" for k
    using that assms(1)
    by (auto simp: u bit_effective_permission_mask set_user_role_rows set_user_perm_rows db_inv_def
        masks_cached_def bit_row_mask) (use synced_bit in blast)
  then have "bit ?m k \<longleftrightarrow> (\<exists>p \<in> set (permissions d).
      (\<exists>b. p_bit_position p = Some b \<and> bit ?m b) \<and> p_bit_position p = Some k)" for k
    by (metis option.inject)
  then show ?thesis by (rule valid_of_rows [OF db_inv_synced [OF assms(1)]])
qed

lemma model_validate_to_encode:
  "model_validate (to_encode p) = Some (p\<lparr>tp_exp := tp_exp p div 1000000 * 1000000\<rparr>)"
  by (cases p) (auto simp: model_validate_def to_encode_def required_def defaulted_def uuid_parse_str
      json_uuid_def split: option.split)

lemma verify_own_token:
  assumes "jwt_roundtrip J"
  shows "verify_token J C now (jwt_encode J (to_encode p) (SECRET_KEY C)) =
    (if now < tp_exp p div 1000000 * 1000000 then Some (p\<lparr>tp_exp := tp_exp p div 1000000 * 1000000\<rparr>) else None)"
proof -
  have "map_of (to_encode p) ''exp'' = Some (JInt (tp_exp p div 1000000))" by (simp add: to_encode_def)
  with assms show ?thesis
    by (simp add: verify_token_def jwt_roundtrip_def model_validate_to_encode)
qed

definition tenant_active :: "uuid option \<Rightarrow> db \<Rightarrow> bool" where
  "tenant_active tid d \<longleftrightarrow> (case tid of None \<Rightarrow> True
     | Some i \<Rightarrow> (case get_tenant_by_id i d of None \<Rightarrow> False | Some t \<Rightarrow> t_is_active t))"

lemma mint_eq:
  "mint_access_token J C now method user d =
     (if \<not> u_is_active user then Inl UserDeactivated
      else if \<not> tenant_active (u_tenant_id user) d then Inl TenantInactive
      else create_access_token J C now (u_id user) (u_tenant_id user) (u_is_superuser user)
             (effective_permission_mask user) (u_perm_version user) method)"
  by (auto simp: mint_access_token_def tenant_active_def Let_def split: option.splits)

lemma create_access_token_valid:
  assumes "valid_mask m"
  shows "create_access_token J C now uid tid s m v method =
    Inr (jwt_encode J (to_encode \<lparr>tp_id = uid, tp_tenant_id = tid, tp_is_superuser = s,
      tp_perm_mask = bytes_hex (be_bytes MASK_BYTES m), tp_perm_version = v,
      tp_exp = now + minutes (ACCESS_TOKEN_EXPIRE_MINUTES C), tp_auth_method = method\<rparr>) (SECRET_KEY C))"
  by (simp add: create_access_token_def Let_def mask_to_hex_valid [OF assms])

text \<open>What a cache decides on a minted token.\<close>

lemma principal_of_minted:
  assumes "jwt_roundtrip J" "db_inv d" "loaded_user d user"
    and mint: "mint_access_token J C t0 method user d = Inr token"
  shows "get_current_principal J C now cache token =
    (if now \<ge> (t0 + minutes (ACCESS_TOKEN_EXPIRE_MINUTES C)) div 1000000 * 1000000 then Inl InvalidToken
     else if is_user_inactive cache (u_id user) then Inl UserDeactivated
     else if is_tenant_inactive cache (u_tenant_id user) then Inl TenantInactive
     else if is_stale cache (u_id user) (u_perm_version user) then Inl StaleToken
     else Inr \<lparr>pr_id = u_id user, pr_tenant_id = u_tenant_id user, pr_is_superuser = u_is_superuser user,
            pr_perm_mask = effective_permission_mask user, pr_perm_version = u_perm_version user\<rparr>)"
proof -
  note v = effective_mask_valid [OF assms(2,3)]
  from mint have "token = jwt_encode J (to_encode \<lparr>tp_id = u_id user, tp_tenant_id = u_tenant_id user,
      tp_is_superuser = u_is_superuser user,
      tp_perm_mask = bytes_hex (be_bytes MASK_BYTES (effective_permission_mask user)),
      tp_perm_version = u_perm_version user, tp_exp = t0 + minutes (ACCESS_TOKEN_EXPIRE_MINUTES C),
      tp_auth_method = method\<rparr>) (SECRET_KEY C)"
    by (simp add: mint_eq create_access_token_valid [OF v] split: if_splits)
  then show ?thesis
    by (simp add: get_current_principal_def authenticate_def verify_own_token [OF assms(1)]
        hex_to_mask_hex [OF v])
qed

lemma covered_start:
  assumes "loaded_user d user" "constraints d" "u_is_active user" "tenant_active (u_tenant_id user) d"
    and "w_db w = d"
  shows "covered (u_id user) (u_perm_version user) (holds_bit d (u_id user)) (u_is_superuser user)
    (u_tenant_id user) w"
proof -
  from assms(1) obtain u where u: "u \<in> set (users d)" "user = load_user d u" by auto
  have "\<exists>t \<in> set (tenants d). t_id t = i \<and> t_is_active t" if "u_tenant_id user = Some i" for i
    using assms(4) that
    by (auto simp: tenant_active_def get_tenant_by_id_def tenant_by_id_def dest: find_SomeD split: option.splits)
  with u assms(3,5) show ?thesis
    by (auto simp: covered_def version_covered_def intro!: bexI [of _ u])
qed

lemma get_tenant_row:
  "constraints d \<Longrightarrow> t \<in> set (tenants d) \<Longrightarrow> get_tenant_by_id (t_id t) d = Some t"
  by (auto simp: get_tenant_by_id_def tenant_by_id_def constraints_def tenant_keys_def intro: find_unique)

lemma get_user_row:
  "constraints d \<Longrightarrow> u \<in> set (users d) \<Longrightarrow> get_user_with_grants (u_id u) d = Some (load_user d u)"
  by (auto simp: get_user_with_grants_def constraints_def user_keys_def find_unique)

lemma accepted_row:
  assumes J: "jwt_roundtrip J" and w0: "reachable_world w0"
    and user: "get_user_with_grants uid (w_db w0) = Some user"
    and mint: "mint_access_token J C t0 method user (w_db w0) = Inr token"
    and run: "online_step\<^sup>*\<^sup>* w0 w" and b: "in_step b" "mirror b = w_redis w"
    and ok: "get_current_principal J C now (drained b) token = Inr p"
  shows "now < t0 + minutes (ACCESS_TOKEN_EXPIRE_MINUTES C) \<and> world_inv w \<and>
    (\<exists>u \<in> set (users (w_db w)). u_id u = uid \<and> u_is_active u \<and> tenant_active (u_tenant_id u) (w_db w) \<and>
       p = \<lparr>pr_id = uid, pr_tenant_id = u_tenant_id u, pr_is_superuser = u_is_superuser u,
         pr_perm_mask = effective_permission_mask (load_user (w_db w) u), pr_perm_version = u_perm_version u\<rparr>)"
proof -
  let ?d0 = "w_db w0" and ?cache = "authority (w_redis w)"
  have inv0: "world_inv w0" using w0 by (simp add: reachable_world_sound)
  from get_user_loaded [OF user] have loaded: "loaded_user ?d0 user" "u_id user = uid" by auto
  have act: "u_is_active user" "tenant_active (u_tenant_id user) ?d0"
    using mint by (auto simp: mint_eq split: if_splits)
  have "drained b = ?cache" using b by (simp add: in_step_def)
  with principal_of_minted [OF J world_inv_db [OF inv0] loaded(1) mint, of now ?cache] ok
  have live: "now < (t0 + minutes (ACCESS_TOKEN_EXPIRE_MINUTES C)) div 1000000 * 1000000"
      "\<not> is_user_inactive ?cache uid" "\<not> is_tenant_inactive ?cache (u_tenant_id user)"
      "\<not> is_stale ?cache uid (u_perm_version user)"
    and p: "p = \<lparr>pr_id = uid, pr_tenant_id = u_tenant_id user, pr_is_superuser = u_is_superuser user,
      pr_perm_mask = effective_permission_mask user, pr_perm_version = u_perm_version user\<rparr>"
    by (auto simp: loaded(2) split: if_splits)
  from online_run [OF run inv0 covered_start [OF loaded(1) inv_constraints [OF inv0] act refl]]
  have inv: "world_inv w" and "covered uid (u_perm_version user) (holds_bit ?d0 uid) (u_is_superuser user)
      (u_tenant_id user) w" by (simp_all add: loaded(2))
  then obtain u where u: "u \<in> set (users (w_db w))" "u_id u = uid" "u_is_superuser u = u_is_superuser user"
      "u_tenant_id u = u_tenant_id user" "version_covered uid (u_perm_version user) (holds_bit ?d0 uid) u w"
      "u_is_active u \<or> uid \<in> inactive_user_ids ?cache"
    and t: "\<forall>i. u_tenant_id user = Some i \<longrightarrow> (\<exists>t \<in> set (tenants (w_db w)). t_id t = i \<and>
        (t_is_active t \<or> i \<in> inactive_tenant_ids ?cache))"
    by (auto simp: covered_def)
  note c = inv_constraints [OF inv]
  have "u_perm_version u = u_perm_version user"
    using live(4) u(5) by (auto simp: is_stale_def version_covered_def split: if_splits option.splits)
  note version = this
  then have "holds_bit (w_db w) uid = holds_bit ?d0 uid" using u(5) by (simp add: version_covered_def)
  moreover from loaded(1) obtain x where x: "user = load_user ?d0 x" by blast
  moreover have "u_id x = uid" using loaded(2) by (simp add: x)
  ultimately have "effective_permission_mask (load_user (w_db w) u) = effective_permission_mask user"
    by (simp add: loaded_mask_eq u(2))
  moreover have "tenant_active (u_tenant_id user) (w_db w)"
    using t live(3) get_tenant_row [OF c]
    by (fastforce simp: tenant_active_def is_tenant_inactive_def split: option.splits)
  ultimately show ?thesis
    using u live p inv version
    by (auto simp: is_user_inactive_def intro!: bexI [of _ u])
qed


lemma ann_loaded: "get_user_with_grants ann (w_db sample_world) = Some (load_user sample_db ann_row)"
  by (simp add: get_user_with_grants_def sample_world_def sample_db_def ann_row_def)

lemma ann_mints:
  "\<exists>token. mint_access_token plain_jwt sample_config t0 ''password'' (load_user sample_db ann_row)
     (w_db sample_world) = Inr token"
proof -
  have "loaded_user (w_db sample_world) (load_user sample_db ann_row)"
    using get_user_loaded [OF ann_loaded] by blast
  from create_access_token_valid [OF effective_mask_valid [OF world_inv_db [OF world_inv_sample] this]]
  show ?thesis
    by (simp add: mint_eq ann_row_def tenant_active_def get_tenant_by_id_def tenant_by_id_def sample_world_def
        sample_db_def acme_row_def)
qed

lemma without_reader_redis:
  "w_redis without_reader = publish_events [PermVersion (uuid_str bob) 5] empty_redis"
  by (simp add: without_reader_def remove_from_user_def sample_world_def sample_db_def bump_where_def
      bump_perm_version_def version_event_def sample_rows)

lemma ann_live:
  "\<not> is_user_inactive (authority (w_redis without_reader)) ann"
  "\<not> is_tenant_inactive (authority (w_redis without_reader)) tid"
  "\<not> is_stale (authority (w_redis without_reader)) ann v"
  by (simp_all add: without_reader_redis publish_events_def queue_event_def authority_def empty_redis_def
      is_user_inactive_def is_tenant_inactive_def is_stale_def ann_def bob_def split: option.split)

lemma without_reader_online: "online_step\<^sup>*\<^sup>* sample_world without_reader"
  by (rule r_into_rtranclp)
    (simp add: online_step_def without_reader_def repo_step.remove_from_user,
     simp add: sample_world_def empty_redis_def)

lemma ann_live_request:
  "\<exists>token p. mint_access_token plain_jwt sample_config 0 ''password'' (load_user sample_db ann_row)
       (w_db sample_world) = Inr token \<and>
     get_current_principal plain_jwt sample_config 5000000 (drained (synced_worker (w_redis without_reader)))
       token = Inr p"
proof -
  from ann_mints [of 0] obtain token where mint: "mint_access_token plain_jwt sample_config 0 ''password''
      (load_user sample_db ann_row) (w_db sample_world) = Inr token" by blast
  have loaded: "loaded_user (w_db sample_world) (load_user sample_db ann_row)"
    using get_user_loaded [OF ann_loaded] by blast
  from principal_of_minted [OF jwt_roundtrip_plain world_inv_db [OF world_inv_sample] loaded mint, of 5000000]
  show ?thesis
    using mint by (simp add: synced_worker ann_live ann_row_def minutes_def sample_config_def)
qed


end
