(* ===== verification/Gates.thy ===== *)
theory Gates
  imports TokenSafety
begin

text \<open>
  \<^verbatim>\<open>app/core/dependencies.py\<close>: the gates that guard the endpoints. A request carries a bearer token;
  the record \<open>request\<close> holds it with what resolving it needs besides the database: the JWT
  library, the settings, the clock and the authorization cache of the worker that serves the
  request. Each \<open>Depends(\<dots>)\<close> of the code is a reader, a function of the database that gives the
  value of the dependency or the exception that ends the request.
\<close>

record request =
  rq_jwt :: jwt_lib
  rq_config :: config
  rq_now :: int
  rq_cache :: authz_cache
  rq_token :: string

type_synonym 'a reader = "db \<Rightarrow> exn + 'a"

definition current_principal :: "request \<Rightarrow> principal reader" where
  "current_principal rq d =
     get_current_principal (rq_jwt rq) (rq_config rq) (rq_now rq) (rq_cache rq) (rq_token rq)"

definition current_user :: "request \<Rightarrow> user_obj reader" where
  "current_user rq d =
     get_current_user (rq_jwt rq) (rq_config rq) (rq_now rq) (rq_cache rq) (rq_token rq) d"

definition check :: "'a reader \<Rightarrow> ('a \<Rightarrow> db \<Rightarrow> exn + 'b) \<Rightarrow> 'b reader" where
  "check dep f d = (case dep d of Inl e \<Rightarrow> Inl e | Inr x \<Rightarrow> f x d)"

definition role_checker :: "string list \<Rightarrow> user_obj \<Rightarrow> exn + user_obj" where
  "role_checker role_names user =
     (if u_is_superuser user then Inr user
      else if \<not> list_ex (\<lambda>r. r_name r \<in> set role_names) (roles_of user)
      then Inl (HTTPException 403 ''Operation not permitted'')
      else Inr user)"

definition role_required :: "request \<Rightarrow> string list \<Rightarrow> user_obj reader" where
  "role_required rq role_names = check (current_user rq) (\<lambda>user d. role_checker role_names user)"

definition permission_checker :: "nat \<Rightarrow> string \<Rightarrow> principal \<Rightarrow> exn + principal" where
  "permission_checker b required_permission p =
     (if pr_is_superuser p then Inr p
      else if pr_perm_mask p AND bit1 b = 0
      then Inl (HTTPException 403 (''Missing required permission: '' @ required_permission))
      else Inr p)"

text \<open>
  \<open>permission_required\<close> looks the name up when the route is decorated, so that a name outside the
  catalog is a \<open>KeyError\<close> at import time; what it returns is the gate.
\<close>

definition permission_required :: "string \<Rightarrow> exn + (request \<Rightarrow> principal reader)" where
  "permission_required required_permission =
     (case registry_bit required_permission of
        None \<Rightarrow> Inl (KeyError required_permission)
      | Some b \<Rightarrow> Inr (\<lambda>rq. check (current_principal rq) (\<lambda>p d. permission_checker b required_permission p)))"

definition grant_role_required :: "request \<Rightarrow> int \<Rightarrow> user_obj reader" where
  "grant_role_required rq role_id = check (current_user rq) (\<lambda>user d.
     if \<not> can_grant_role user role_id d
     then Inl (GrantNotAllowed (''You are not allowed to grant role '' @ str_int role_id))
     else Inr user)"

definition grant_permission_required :: "request \<Rightarrow> int \<Rightarrow> user_obj reader" where
  "grant_permission_required rq permission_id = check (current_user rq) (\<lambda>user d.
     if \<not> can_grant_permission user permission_id d
     then Inl (GrantNotAllowed (''You are not allowed to grant permission '' @ str_int permission_id))
     else Inr user)"

definition superuser_required :: "request \<Rightarrow> user_obj reader" where
  "superuser_required rq = check (current_user rq) (\<lambda>user d.
     if \<not> u_is_superuser user then Inl superuser_required_default else Inr user)"

subsection \<open>What a passed gate means\<close>

lemma check_Inr: "check dep f d = Inr y \<longleftrightarrow> (\<exists>x. dep d = Inr x \<and> f x d = Inr y)"
  by (auto simp: check_def split: sum.splits)

lemma check_Inl: "check dep f d = Inl e \<longleftrightarrow> dep d = Inl e \<or> (\<exists>x. dep d = Inr x \<and> f x d = Inl e)"
  by (auto simp: check_def split: sum.splits)

lemma current_user_loaded: "current_user rq d = Inr user \<Longrightarrow> loaded_user d user"
  by (auto simp: current_user_def get_current_user_def dest: get_user_loaded split: sum.splits option.splits)

lemma superuser_required_Inr:
  "superuser_required rq d = Inr user \<longleftrightarrow> current_user rq d = Inr user \<and> u_is_superuser user"
  by (auto simp: superuser_required_def check_Inr)

lemma grant_role_required_Inr:
  "grant_role_required rq i d = Inr user \<longleftrightarrow> current_user rq d = Inr user \<and> can_grant_role user i d"
  by (auto simp: grant_role_required_def check_Inr)

lemma grant_permission_required_Inr:
  "grant_permission_required rq i d = Inr user \<longleftrightarrow> current_user rq d = Inr user \<and> can_grant_permission user i d"
  by (auto simp: grant_permission_required_def check_Inr)

lemma permission_required_registered:
  "permission_required n = Inr gate \<longleftrightarrow> (\<exists>b. registry_bit n = Some b \<and>
     gate = (\<lambda>rq. check (current_principal rq) (\<lambda>p d. permission_checker b n p)))"
  by (auto simp: permission_required_def split: option.splits)

lemma permission_checker_bit:
  "permission_checker b n p = (if pr_is_superuser p \<or> bit (pr_perm_mask p) b then Inr p
     else Inl (HTTPException 403 (''Missing required permission: '' @ n)))"
  using and_bit1_nonzero [of "pr_perm_mask p" b] by (auto simp: permission_checker_def)


definition sample_request :: "string \<Rightarrow> int \<Rightarrow> request" where
  "sample_request token now = \<lparr>rq_jwt = plain_jwt, rq_config = sample_config, rq_now = now,
     rq_cache = drained (synced_worker (w_redis without_reader)), rq_token = token\<rparr>"


end
