(* ===== verification/RoleService.thy ===== *)
theory RoleService
  imports Transitions
begin

text \<open>
  \<^verbatim>\<open>app/services/rbac/role_service.py\<close> and \<^verbatim>\<open>permission_service.py\<close>. The actor of a change is
  the user object the request loaded (with roles, permissions and tenant); where the code only
  reads \<open>is_superuser\<close> and \<open>tenant_id\<close> of an actor of either kind, those two are the arguments.
  A Python set of names is a list here; no result depends on its order.
\<close>

subsection \<open>Scope and bounds\<close>

definition ensure_role_in_scope :: "role_obj \<Rightarrow> bool \<Rightarrow> uuid option \<Rightarrow> exn option" where
  "ensure_role_in_scope role is_superuser tenant_id =
     (if is_superuser then None
      else if r_tenant_id role \<noteq> None \<and> r_tenant_id role \<noteq> tenant_id
      then Some (RoleNotFound (IdInt (r_id role))) else None)"

definition grantable_mask_for :: "user_obj \<Rightarrow> db \<Rightarrow> int" where
  "grantable_mask_for actor d =
     (let m = get_grantable_permission_mask (map r_id (roles_of actor)) d in
      case tenant_of actor of None \<Rightarrow> m | Some t \<Rightarrow> m AND t_allowed_permission_mask t)"

definition service_get_role :: "int \<Rightarrow> bool \<Rightarrow> uuid option \<Rightarrow> role_obj action" where
  "service_get_role role_id is_superuser tenant_id w =
     (case get_role role_id (w_db w) of
        None \<Rightarrow> (Inl (RoleNotFound (IdInt role_id)), w)
      | Some role \<Rightarrow>
        (case ensure_role_in_scope role is_superuser tenant_id of
           Some e \<Rightarrow> (Inl e, w)
         | None \<Rightarrow> (Inr role, w)))"

abbreviation role_for :: "int \<Rightarrow> user_obj \<Rightarrow> role_obj action" where
  "role_for role_id actor \<equiv> service_get_role role_id (u_is_superuser actor) (u_tenant_id actor)"

subsection \<open>Roles\<close>

definition link_creator_roles :: "user_obj \<Rightarrow> role_obj \<Rightarrow> unit action" where
  "link_creator_roles actor new_role =
     for_each (\<lambda>actor_role w.
         if grantable_role_link_exists (r_id actor_role) (r_id new_role) (w_db w) then (Inr (), w)
         else add_grantable_role (r_id actor_role) (r_id new_role) w)
       (roles_of actor)"

definition create_role :: "string \<Rightarrow> string list \<Rightarrow> user_obj \<Rightarrow> role_obj action" where
  "create_role name permission_names actor w =
     (let d = w_db w;
          tenant_id = (if u_is_superuser actor then None else u_tenant_id actor) in
      if get_role_by_name name tenant_id d \<noteq> None then (Inl (RoleExists (IdStr name)), w)
      else
        let expanded_names = expand_implied permission_names in
        case mask_for expanded_names of Inl e \<Rightarrow> (Inl e, w)
        | Inr requested_mask \<Rightarrow>
          if \<not> u_is_superuser actor \<and> requested_mask AND NOT (grantable_mask_for actor d) \<noteq> 0
          then (Inl (GrantNotAllowed ''Requested permissions exceed what you are allowed to grant''), w)
          else
            and_then
              (role_create name tenant_id (get_permissions_by_names expanded_names d) requested_mask)
              (\<lambda>new_role.
                 if u_is_superuser actor then (\<lambda>w. (Inr new_role, w))
                 else and_then (link_creator_roles actor new_role) (\<lambda>_ w. (Inr new_role, w)))
              w)"

definition update_role :: "int \<Rightarrow> string option \<Rightarrow> user_obj \<Rightarrow> role_obj option action" where
  "update_role role_id new_name actor =
     and_then (role_for role_id actor) (\<lambda>db_role. role_update db_role new_name)"

definition delete_role :: "int \<Rightarrow> user_obj \<Rightarrow> unit action" where
  "delete_role role_id actor = and_then (role_for role_id actor) role_delete"

definition get_all_roles :: "bool \<Rightarrow> uuid option \<Rightarrow> nat \<Rightarrow> nat \<Rightarrow> db \<Rightarrow> role_obj list" where
  "get_all_roles is_superuser tenant_id skip limit d =
     (if is_superuser then list_roles skip limit d else list_roles_by_tenant tenant_id skip limit d)"

subsection \<open>A role's permissions\<close>

fun add_permissions :: "role_obj \<Rightarrow> permission list \<Rightarrow> role_obj action" where
  "add_permissions role [] w = (Inr role, w)"
| "add_permissions role (p # ps) w = and_then (add_permission role p) (\<lambda>role'. add_permissions role' ps) w"

definition add_permission_to_role :: "int \<Rightarrow> int \<Rightarrow> user_obj \<Rightarrow> role_obj action" where
  "add_permission_to_role role_id permission_id actor = and_then (role_for role_id actor) (\<lambda>role w.
     let d = w_db w in
     case get_permission_by_id permission_id d of
       None \<Rightarrow> (Inl (PermissionNotFound (IdInt permission_id)), w)
     | Some perm \<Rightarrow>
       if p_id perm \<in> p_id ` set (permissions_of role)
       then (Inl (PermissionAlreadyGranted ''Permission already assigned to role''), w)
       else
         let have_names = map p_name (permissions_of role);
             implied_names = filter (\<lambda>n. n \<notin> set have_names \<and> n \<noteq> p_name perm) (expand_implied [p_name perm]);
             to_add_names = p_name perm # implied_names;
             proceed = add_permissions role
               (perm # (if implied_names = [] then [] else get_permissions_by_names implied_names d)) in
         if u_is_superuser actor then proceed w
         else
           (case mask_for to_add_names of Inl e \<Rightarrow> (Inl e, w)
            | Inr m \<Rightarrow>
              if m AND NOT (grantable_mask_for actor d) \<noteq> 0
              then (Inl (GrantNotAllowed ''Requested permission exceeds what you are allowed to grant''), w)
              else proceed w))"

definition remove_permission_from_role :: "int \<Rightarrow> int \<Rightarrow> user_obj \<Rightarrow> role_obj action" where
  "remove_permission_from_role role_id permission_id actor = and_then (role_for role_id actor) (\<lambda>role w.
     case get_permission_by_id permission_id (w_db w) of
       None \<Rightarrow> (Inl (PermissionNotFound (IdInt permission_id)), w)
     | Some perm \<Rightarrow>
       if p_id perm \<notin> p_id ` set (permissions_of role)
       then (Inl (PermissionNotGranted ''Permission not associated with this role''), w)
       else remove_permission role perm w)"

subsection \<open>What a role's holders may hand out\<close>

definition quoted :: "string \<Rightarrow> string \<Rightarrow> string \<Rightarrow> string" where
  "quoted before name after = before @ [CHR 39] @ name @ [CHR 39] @ after"

definition service_add_grantable_role :: "int \<Rightarrow> int \<Rightarrow> user_obj \<Rightarrow> unit action" where
  "service_add_grantable_role role_id grantable_role_id actor =
     and_then (role_for role_id actor) (\<lambda>_ w.
       let d = w_db w in
       case get_role grantable_role_id d of
         None \<Rightarrow> (Inl (RoleNotFound (IdInt grantable_role_id)), w)
       | Some grantable_role \<Rightarrow>
         if \<not> u_is_superuser actor \<and>
            grantable_role_id \<notin> get_grantable_role_ids (map r_id (roles_of actor)) d
         then (Inl (GrantNotAllowed (quoted ''You are not allowed to delegate role '' (r_name grantable_role) [])), w)
         else if grantable_role_link_exists role_id grantable_role_id d
         then (Inl (PermissionAlreadyGranted (quoted ''Role '' (r_name grantable_role)
                 '' is already grantable by this role'')), w)
         else add_grantable_role role_id grantable_role_id w)"

definition service_remove_grantable_role :: "int \<Rightarrow> int \<Rightarrow> user_obj \<Rightarrow> unit action" where
  "service_remove_grantable_role role_id grantable_role_id actor =
     and_then (role_for role_id actor) (\<lambda>_ w.
       let d = w_db w in
       case get_role grantable_role_id d of
         None \<Rightarrow> (Inl (RoleNotFound (IdInt grantable_role_id)), w)
       | Some grantable_role \<Rightarrow>
         if \<not> grantable_role_link_exists role_id grantable_role_id d
         then (Inl (PermissionNotGranted (quoted ''Role '' (r_name grantable_role)
                 '' is not configured as grantable by this role'')), w)
         else remove_grantable_role role_id grantable_role_id w)"

definition service_add_grantable_permission :: "int \<Rightarrow> int \<Rightarrow> user_obj \<Rightarrow> unit action" where
  "service_add_grantable_permission role_id permission_id actor =
     and_then (role_for role_id actor) (\<lambda>_ w.
       let d = w_db w in
       case get_permission_by_id permission_id d of
         None \<Rightarrow> (Inl (PermissionNotFound (IdInt permission_id)), w)
       | Some perm \<Rightarrow>
         if \<not> u_is_superuser actor \<and>
            permission_id \<notin> get_grantable_permission_ids (map r_id (roles_of actor)) d
         then (Inl (GrantNotAllowed (quoted ''You are not allowed to delegate permission '' (p_name perm) [])), w)
         else if grantable_permission_link_exists role_id permission_id d
         then (Inl (PermissionAlreadyGranted (quoted ''Permission '' (p_name perm)
                 '' is already grantable by this role'')), w)
         else add_grantable_permission role_id permission_id w)"

definition service_remove_grantable_permission :: "int \<Rightarrow> int \<Rightarrow> user_obj \<Rightarrow> unit action" where
  "service_remove_grantable_permission role_id permission_id actor =
     and_then (role_for role_id actor) (\<lambda>_ w.
       let d = w_db w in
       case get_permission_by_id permission_id d of
         None \<Rightarrow> (Inl (PermissionNotFound (IdInt permission_id)), w)
       | Some perm \<Rightarrow>
         if \<not> grantable_permission_link_exists role_id permission_id d
         then (Inl (PermissionNotGranted (quoted ''Permission '' (p_name perm)
                 '' is not configured as grantable by this role'')), w)
         else remove_grantable_permission role_id permission_id w)"

text \<open>The names of the roles and of the permissions; \<open>rids\<close> and \<open>pids\<close> list the sets.\<close>

definition get_role_grants :: "int \<Rightarrow> bool \<Rightarrow> uuid option \<Rightarrow> (string list \<times> string list) action" where
  "get_role_grants role_id is_superuser tenant_id =
     and_then (service_get_role role_id is_superuser tenant_id) (\<lambda>_ w.
       let d = w_db w;
           rids = map snd (filter (\<lambda>(r, g). r = role_id) (grantable_roles d));
           pids = map snd (filter (\<lambda>(r, p). r = role_id) (grantable_permissions d)) in
       (Inr (map r_name (get_roles_by_ids rids d), map p_name (get_permissions_by_ids pids d)), w))"

subsection \<open>Permissions\<close>

definition service_get_permission :: "int \<Rightarrow> db \<Rightarrow> exn + permission" where
  "service_get_permission permission_id d =
     (case get_permission_by_id permission_id d of
        None \<Rightarrow> Inl (PermissionNotFound (IdInt permission_id))
      | Some permission \<Rightarrow> Inr permission)"

definition get_all_permissions :: "nat \<Rightarrow> nat \<Rightarrow> string list option \<Rightarrow> db \<Rightarrow> permission list" where
  "get_all_permissions skip limit names d =
     (case names of None \<Rightarrow> list_permissions skip limit d
      | Some ns \<Rightarrow> list_permissions_by_names ns skip limit d)"

subsection \<open>Looking up the role\<close>

lemma service_get_role_Inr:
  "service_get_role rid su tid w = (Inr role, w') \<longleftrightarrow>
     w' = w \<and> get_role rid (w_db w) = Some role \<and> ensure_role_in_scope role su tid = None"
  by (auto simp: service_get_role_def split: option.splits)

lemma service_get_role_world: "snd (service_get_role rid su tid w) = w"
  by (auto simp: service_get_role_def split: option.splits)

lemma service_get_role_Inl: "service_get_role rid su tid w = (Inl e, w') \<Longrightarrow> w' = w"
  by (auto simp: service_get_role_def split: option.splits)

lemma in_scope_iff:
  "ensure_role_in_scope role su tid = None \<longleftrightarrow> su \<or> r_tenant_id role = None \<or> r_tenant_id role = tid"
  by (auto simp: ensure_role_in_scope_def)

text \<open>A call that is refused, or raises, before it changes anything.\<close>

definition raises_unchanged :: "'a action \<Rightarrow> world \<Rightarrow> bool" where
  "raises_unchanged m w \<longleftrightarrow> (\<forall>e w'. m w = (Inl e, w') \<longrightarrow> w' = w)"

lemma raises_unchanged_for:
  assumes "\<And>role. get_role rid (w_db w) = Some role \<Longrightarrow> raises_unchanged (f role) w"
  shows "raises_unchanged (and_then (role_for rid actor) f) w"
  unfolding raises_unchanged_def and_then_Inl
  using assms by (auto simp: service_get_role_Inr raises_unchanged_def dest: service_get_role_Inl)

lemma get_permission_by_id_row: "get_permission_by_id pid d = Some p \<Longrightarrow> p \<in> set (permissions d) \<and> p_id p = pid"
  by (auto simp: get_permission_by_id_def dest: find_SomeD)

lemma set_get_permissions_by_names:
  "set (get_permissions_by_names ns d) = {p \<in> set (permissions d). p_name p \<in> set ns}"
  by (auto simp: get_permissions_by_names_def)

lemma distinct_permission_ids: "constraints d \<Longrightarrow> distinct (map p_id (permissions d))"
  by (simp add: constraints_def permission_keys_def)

lemma distinct_permissions_by_names: "constraints d \<Longrightarrow> distinct (map p_id (get_permissions_by_names ns d))"
  by (simp add: get_permissions_by_names_def distinct_map_filter distinct_permission_ids)

subsection \<open>Adding permissions one by one\<close>

lemma refresh_role_loaded:
  assumes "constraints d" "r_id role \<in> role_ids d"
  shows "loaded_role d (refresh_role role d) \<and> r_id (refresh_role role d) = r_id role"
proof -
  from assms(2) obtain r where "r \<in> set (roles d)" "r_id r = r_id role" by auto
  with get_role_Some [OF assms(1) this(1)] show ?thesis by (auto simp: refresh_role_def)
qed

lemma set_role_rows_frame [simp]:
  "permissions (set_role_rows rid m rows grants d) = permissions d"
  "role_permissions (set_role_rows rid m rows grants d) = rows"
  "grantable_permissions (set_role_rows rid m rows grants d) = grants"
  "grantable_roles (set_role_rows rid m rows grants d) = grantable_roles d"
  "user_roles (set_role_rows rid m rows grants d) = user_roles d"
  "tenants (set_role_rows rid m rows grants d) = tenants d"
  by (simp_all add: set_role_rows_def)

lemma bump_where_frame [simp]:
  "permissions (fst (bump_where P d)) = permissions d" "role_permissions (fst (bump_where P d)) = role_permissions d"
  "grantable_permissions (fst (bump_where P d)) = grantable_permissions d" "roles (fst (bump_where P d)) = roles d"
  "grantable_roles (fst (bump_where P d)) = grantable_roles d" "user_roles (fst (bump_where P d)) = user_roles d"
  "tenants (fst (bump_where P d)) = tenants d"
  by (simp_all add: bump_where_db)

lemma add_permission_returns:
  assumes "world_inv w" "loaded_role (w_db w) role" "p \<in> set (permissions (w_db w))"
    and "(r_id role, p_id p) \<notin> set (role_permissions (w_db w))"
  shows "\<exists>role' w'. add_permission role p w = (Inr role', w') \<and> world_inv w' \<and>
    loaded_role (w_db w') role' \<and> r_id role' = r_id role \<and> permissions (w_db w') = permissions (w_db w) \<and>
    role_permissions (w_db w') = role_permissions (w_db w) @ [(r_id role, p_id p)] \<and>
    grantable_permissions (w_db w') = grantable_permissions (w_db w) \<and>
    map (\<lambda>r. (r_id r, r_tenant_id r)) (roles (w_db w')) = map (\<lambda>r. (r_id r, r_tenant_id r)) (roles (w_db w)) \<and>
    world_step\<^sup>*\<^sup>* w w'"
proof -
  have step: "world_step\<^sup>*\<^sup>* w (snd (add_permission role p w))"
    using repo_step.add_permission [OF assms(2,3)] by (blast intro: world_step.repo)
  then have inv': "world_inv (snd (add_permission role p w))" using assms(1) by (rule world_steps_inv)
  let ?d = "w_db (snd (add_permission role p w))"
  note eq = add_permission_eq [OF assms(1-3)]
  have ids: "r_id role \<in> role_ids ?d"
    using assms(2,4) by (auto simp: eq Let_def bump_holders set_role_rows_def image_update_where)
  have "map (\<lambda>r. (r_id r, r_tenant_id r)) (roles ?d) = map (\<lambda>r. (r_id r, r_tenant_id r)) (roles (w_db w))"
    using assms(4) by (simp add: eq Let_def bump_holders set_role_rows_def map_update_where)
  with step inv' refresh_role_loaded [OF inv_constraints [OF inv'] ids] assms(4) show ?thesis
    by (simp add: eq Let_def bump_holders)
qed

lemma add_permissions_returns:
  assumes "world_inv w" "loaded_role (w_db w) role" "set ps \<subseteq> set (permissions (w_db w))"
    and "distinct (map p_id ps)" "\<forall>p \<in> set ps. (r_id role, p_id p) \<notin> set (role_permissions (w_db w))"
  shows "\<exists>role' w'. add_permissions role ps w = (Inr role', w') \<and> world_inv w' \<and>
    loaded_role (w_db w') role' \<and> r_id role' = r_id role \<and> permissions (w_db w') = permissions (w_db w) \<and>
    role_permissions (w_db w') = role_permissions (w_db w) @ map (\<lambda>p. (r_id role, p_id p)) ps \<and>
    grantable_permissions (w_db w') = grantable_permissions (w_db w) \<and>
    map (\<lambda>r. (r_id r, r_tenant_id r)) (roles (w_db w')) = map (\<lambda>r. (r_id r, r_tenant_id r)) (roles (w_db w)) \<and>
    world_step\<^sup>*\<^sup>* w w'"
  using assms
proof (induction ps arbitrary: role w)
  case (Cons p ps)
  from Cons.prems obtain role1 w1 where 1: "add_permission role p w = (Inr role1, w1)" "world_inv w1"
    "loaded_role (w_db w1) role1" "r_id role1 = r_id role" "permissions (w_db w1) = permissions (w_db w)"
    "role_permissions (w_db w1) = role_permissions (w_db w) @ [(r_id role, p_id p)]"
    "grantable_permissions (w_db w1) = grantable_permissions (w_db w)"
    "map (\<lambda>r. (r_id r, r_tenant_id r)) (roles (w_db w1)) = map (\<lambda>r. (r_id r, r_tenant_id r)) (roles (w_db w))"
    "world_step\<^sup>*\<^sup>* w w1"
    using add_permission_returns [of w role p] by auto
  have prems: "set ps \<subseteq> set (permissions (w_db w1))" "distinct (map p_id ps)"
    "\<forall>q \<in> set ps. (r_id role1, p_id q) \<notin> set (role_permissions (w_db w1))"
    using Cons.prems(3-5) 1(5) by (simp_all add: 1(4,6)) (metis image_eqI)
  from Cons.IH [OF 1(2,3) prems] 1 show ?case
    by (auto simp: and_then_fst intro: rtranclp_trans)
qed auto

subsection \<open>The bound on what an actor may put into a role\<close>

lemma bit_grantable_permission_mask [mask_simps]:
  "bit (get_grantable_permission_mask rids d) k \<longleftrightarrow>
     (\<exists>r \<in> set rids. \<exists>p \<in> set (permissions d). (r, p_id p) \<in> set (grantable_permissions d) \<and>
        p_bit_position p = Some k)"
  unfolding get_grantable_permission_mask_def bit_fold_option [where g = "\<lambda>x. x"]
  by (auto simp: bit_fold_option [where g = "\<lambda>x. x"]) force+

lemma bit_grantable_mask_for [mask_simps]:
  "bit (grantable_mask_for actor d) k \<longleftrightarrow>
     (\<exists>r \<in> set (roles_of actor). \<exists>p \<in> set (permissions d). (r_id r, p_id p) \<in> set (grantable_permissions d) \<and>
        p_bit_position p = Some k) \<and>
     (\<forall>t. tenant_of actor = Some t \<longrightarrow> bit (t_allowed_permission_mask t) k)"
  by (auto simp: grantable_mask_for_def Let_def bit_grantable_permission_mask bit_and_iff split: option.splits)

subsection \<open>Creating a role\<close>

lemma get_role_by_name_None: "get_role_by_name name tid d = None \<longleftrightarrow> \<not> role_name_taken d name tid"
  by (auto simp: get_role_by_name_def role_name_taken_def find_None_iff)

lemma bit_mask_for_rows:
  assumes "db_inv d" "mask_for ns = Inr m"
  shows "bit m k \<longleftrightarrow> (\<exists>p \<in> set (get_permissions_by_names ns d). p_bit_position p = Some k)"
proof
  assume "bit m k"
  then obtain n where n: "n \<in> set ns" "registry_bit n = Some k"
    using bit_mask_for [OF assms(2)] by (auto dest: registry_bit_in)
  from synced_row [OF db_inv_synced [OF assms(1)] n(2)] n(1)
  show "\<exists>p \<in> set (get_permissions_by_names ns d). p_bit_position p = Some k"
    by (auto simp: set_get_permissions_by_names)
next
  assume "\<exists>p \<in> set (get_permissions_by_names ns d). p_bit_position p = Some k"
  then obtain p where p: "p \<in> set (permissions d)" "p_name p \<in> set ns" "p_bit_position p = Some k"
    by (auto simp: set_get_permissions_by_names)
  from assms(2) p(2) obtain b where b: "registry_bit (p_name p) = Some b"
    by (auto simp: mask_for_Inr)
  with synced_bit [OF db_inv_synced [OF assms(1)] p(1)] p(3) have "b = k" by simp
  with b p(2) show "bit m k" using bit_mask_for [OF assms(2)] by (auto intro: registry_bit_in)
qed

lemma link_creator_roles_returns:
  assumes "world_inv w" "set xs \<subseteq> {r. r_id r \<in> role_ids (w_db w)}" "r_id new_role \<in> role_ids (w_db w)"
  shows "\<exists>w' g. for_each (\<lambda>actor_role w.
        if grantable_role_link_exists (r_id actor_role) (r_id new_role) (w_db w) then (Inr (), w)
        else add_grantable_role (r_id actor_role) (r_id new_role) w) xs w = (Inr (), w') \<and>
     w_db w' = w_db w\<lparr>grantable_roles := g\<rparr> \<and> world_step\<^sup>*\<^sup>* w w' \<and>
     set g = set (grantable_roles (w_db w)) \<union> (\<lambda>r. (r_id r, r_id new_role)) ` set xs"
  using assms
proof (induction xs arbitrary: w)
  case (Cons x xs)
  let ?step = "if grantable_role_link_exists (r_id x) (r_id new_role) (w_db w) then (Inr (), w)
    else add_grantable_role (r_id x) (r_id new_role) w"
  have "\<exists>w1 g1. ?step = (Inr (), w1) \<and> w_db w1 = w_db w\<lparr>grantable_roles := g1\<rparr> \<and>
    set g1 = insert (r_id x, r_id new_role) (set (grantable_roles (w_db w)))"
  proof (cases "grantable_role_link_exists (r_id x) (r_id new_role) (w_db w)")
    case True
    then show ?thesis
      by (intro exI [of _ w] exI [of _ "grantable_roles (w_db w)"])
        (auto simp: grantable_role_link_exists_def)
  next
    case False
    with Cons.prems show ?thesis
      by (auto simp: grantable_role_link_exists_def add_grantable_role_def Let_def insert_link_def)
  qed
  then obtain w1 g1 where 1: "?step = (Inr (), w1)" "w_db w1 = w_db w\<lparr>grantable_roles := g1\<rparr>"
    "set g1 = insert (r_id x, r_id new_role) (set (grantable_roles (w_db w)))"
    by blast
  have run: "world_step\<^sup>*\<^sup>* w w1"
  proof -
    have "world_step\<^sup>*\<^sup>* w (snd ?step)"
      by (auto intro: r_into_rtranclp world_step.repo repo_step.add_grantable_role)
    then show ?thesis unfolding 1(1) by simp
  qed
  have "world_inv w1" using run Cons.prems(1) by (rule world_steps_inv)
  then obtain w2 g2 where 2: "for_each (\<lambda>actor_role w.
        if grantable_role_link_exists (r_id actor_role) (r_id new_role) (w_db w) then (Inr (), w)
        else add_grantable_role (r_id actor_role) (r_id new_role) w) xs w1 = (Inr (), w2)"
    "w_db w2 = w_db w1\<lparr>grantable_roles := g2\<rparr>" "world_step\<^sup>*\<^sup>* w1 w2"
    "set g2 = set (grantable_roles (w_db w1)) \<union> (\<lambda>r. (r_id r, r_id new_role)) ` set xs"
    using Cons.IH [of w1] Cons.prems 1(2) by auto
  then have "w_db w2 = w_db w\<lparr>grantable_roles := g2\<rparr>" using 1(2) by simp
  moreover have "world_step\<^sup>*\<^sup>* w w2" using run 2(3) by (rule rtranclp_trans)
  moreover have "set g2 = set (grantable_roles (w_db w)) \<union> (\<lambda>r. (r_id r, r_id new_role)) ` set (x # xs)"
    using 2(4) 1(2,3) by simp
  ultimately show ?case using 1(1) 2(1) by (auto simp: and_then_fst)
next
  case Nil
  then show ?case by (intro exI [of _ w] exI [of _ "grantable_roles (w_db w)"]) simp
qed

lemma role_create_returns:
  assumes inv: "world_inv w" and m: "mask_for ns = Inr m"
    and free: "\<not> role_name_taken (w_db w) name tid" and tid: "tenant_exists (w_db w) tid"
  shows "\<exists>role w'. role_create name tid (get_permissions_by_names ns (w_db w)) m w = (Inr role, w') \<and>
    loaded_role (w_db w') role \<and> r_name role = name \<and> r_tenant_id role = tid \<and> r_permission_mask role = m \<and>
    r_id role = next_role_id (w_db w) \<and> world_step\<^sup>*\<^sup>* w w' \<and> role_ids (w_db w) \<subseteq> role_ids (w_db w') \<and>
    grantable_roles (w_db w') = grantable_roles (w_db w)"
proof -
  have db: "db_inv (w_db w)" using inv by (rule world_inv_db)
  let ?ps = "get_permissions_by_names ns (w_db w)"
  have ps: "set ?ps \<subseteq> set (permissions (w_db w))" by (auto simp: set_get_permissions_by_names)
  have "0 \<le> m" "m < 2 ^ 256"
    using mask_for_bounds [OF m] by (auto intro: less_trans [of m "2 ^ 19"])
  then have st: "store_mask m = Inr m" by (intro store_mask_valid conjI)
  have "world_step\<^sup>*\<^sup>* w (snd (role_create name tid ?ps m w))"
    using repo_step.role_create [OF ps bit_mask_for_rows [OF db m]] by (blast intro: world_step.repo)
  then show ?thesis
    using st free tid ps by (auto simp: role_create_def Let_def)
qed

text \<open>What a service relies on of the actor: the request loaded it from the database.\<close>

lemma loaded_user_tenant:
  "loaded_user d actor \<Longrightarrow> tenant_of actor = (case u_tenant_id actor of None \<Rightarrow> None | Some t \<Rightarrow> tenant_by_id d t)"
  by auto

lemma loaded_user_roles: "loaded_user d actor \<Longrightarrow> set (roles_of actor) \<subseteq> {r. r_id r \<in> role_ids d}"
  by (auto simp: set_user_role_rows)

definition creator_tenant :: "user_obj \<Rightarrow> uuid option" where
  "creator_tenant actor = (if u_is_superuser actor then None else u_tenant_id actor)"

lemma user_tenant_exists: "constraints d \<Longrightarrow> u \<in> set (users d) \<Longrightarrow> tenant_exists d (u_tenant_id u)"
  by (simp add: constraints_def tenant_refs_def)

lemma creator_tenant_exists:
  "world_inv w \<Longrightarrow> loaded_user (w_db w) actor \<Longrightarrow> tenant_exists (w_db w) (creator_tenant actor)"
  using user_tenant_exists [OF inv_constraints] by (auto simp: creator_tenant_def)

lemma create_role_returns:
  assumes inv: "world_inv w" and actor: "loaded_user (w_db w) actor"
    and tid: "tenant_exists (w_db w) (creator_tenant actor)"
    and free: "\<not> role_name_taken (w_db w) name (creator_tenant actor)"
    and m: "mask_for (expand_implied names) = Inr m"
    and bound: "u_is_superuser actor \<or> mask_subset m (grantable_mask_for actor (w_db w))"
  shows "\<exists>role w'. create_role name names actor w = (Inr role, w') \<and> loaded_role (w_db w') role \<and>
    r_name role = name \<and> r_tenant_id role = creator_tenant actor \<and> r_permission_mask role = m \<and>
    r_id role = next_role_id (w_db w) \<and> world_step\<^sup>*\<^sup>* w w' \<and>
    set (grantable_roles (w_db w')) = set (grantable_roles (w_db w)) \<union>
      (if u_is_superuser actor then {} else (\<lambda>r. (r_id r, r_id role)) ` set (roles_of actor))"
proof -
  from role_create_returns [OF inv m free tid] obtain role w1 where 1:
    "role_create name (creator_tenant actor) (get_permissions_by_names (expand_implied names) (w_db w)) m w = (Inr role, w1)"
    "loaded_role (w_db w1) role" "r_name role = name" "r_tenant_id role = creator_tenant actor"
    "r_permission_mask role = m" "r_id role = next_role_id (w_db w)" "world_step\<^sup>*\<^sup>* w w1"
    "role_ids (w_db w) \<subseteq> role_ids (w_db w1)" "grantable_roles (w_db w1) = grantable_roles (w_db w)"
    by blast
  have eq: "create_role name names actor w = (if u_is_superuser actor then (Inr role, w1)
      else and_then (link_creator_roles actor role) (\<lambda>_ w. (Inr role, w)) w1)"
    using free m bound 1(1)
    by (auto simp: create_role_def Let_def creator_tenant_def [symmetric] get_role_by_name_None
        and_not_zero_iff and_then_fst)
  show ?thesis
  proof (cases "u_is_superuser actor")
    case True
    with eq 1 show ?thesis by auto
  next
    case False
    have "world_inv w1" using 1(7) inv by (rule world_steps_inv)
    moreover have "set (roles_of actor) \<subseteq> {r. r_id r \<in> role_ids (w_db w1)}"
      using loaded_user_roles [OF actor] 1(8) by auto
    moreover have "r_id role \<in> role_ids (w_db w1)" using 1(2) by auto
    ultimately obtain w2 g where 2: "link_creator_roles actor role w1 = (Inr (), w2)"
      "w_db w2 = w_db w1\<lparr>grantable_roles := g\<rparr>" "world_step\<^sup>*\<^sup>* w1 w2"
      "set g = set (grantable_roles (w_db w1)) \<union> (\<lambda>r. (r_id r, r_id role)) ` set (roles_of actor)"
      using link_creator_roles_returns [of w1 "roles_of actor" role] unfolding link_creator_roles_def by blast
    have "load_role (w_db w2) = load_role (w_db w1)"
      by (simp add: fun_eq_iff load_role_def role_perm_rows_def 2(2))
    with 1 2 eq False show ?thesis by (auto simp: and_then_fst intro: rtranclp_trans)
  qed
qed

lemma create_role_raises:
  assumes "world_inv w" "tenant_exists (w_db w) (creator_tenant actor)" "loaded_user (w_db w) actor"
  shows "raises_unchanged (create_role name names actor) w"
proof -
  consider "role_name_taken (w_db w) name (creator_tenant actor)"
    | e where "mask_for (expand_implied names) = Inl e"
    | m where "mask_for (expand_implied names) = Inr m"
        "\<not> (u_is_superuser actor \<or> mask_subset m (grantable_mask_for actor (w_db w)))"
    | m where "\<not> role_name_taken (w_db w) name (creator_tenant actor)" "mask_for (expand_implied names) = Inr m"
        "u_is_superuser actor \<or> mask_subset m (grantable_mask_for actor (w_db w))"
    by (cases "mask_for (expand_implied names)") blast+
  then show ?thesis
  proof cases
    case 4
    from create_role_returns [OF assms(1,3,2) 4] show ?thesis by (auto simp: raises_unchanged_def)
  qed (auto simp: raises_unchanged_def create_role_def Let_def creator_tenant_def [symmetric]
      get_role_by_name_None and_not_zero_iff split: if_splits)
qed

text \<open>The rows one \<open>add_permission_to_role\<close> adds.\<close>

definition rows_to_add :: "role_obj \<Rightarrow> permission \<Rightarrow> db \<Rightarrow> permission list" where
  "rows_to_add role perm d = perm # get_permissions_by_names
     (filter (\<lambda>n. n \<notin> set (map p_name (permissions_of role)) \<and> n \<noteq> p_name perm)
       (expand_implied [p_name perm])) d"

lemma rows_to_add_ok:
  assumes c: "constraints d" and role: "loaded_role d role" and perm: "perm \<in> set (permissions d)"
    and new: "p_id perm \<notin> p_id ` set (permissions_of role)"
  shows "set (rows_to_add role perm d) \<subseteq> set (permissions d)" "distinct (map p_id (rows_to_add role perm d))"
    "\<forall>p \<in> set (rows_to_add role perm d). (r_id role, p_id p) \<notin> set (role_permissions d)"
proof -
  let ?ns = "filter (\<lambda>n. n \<notin> set (map p_name (permissions_of role)) \<and> n \<noteq> p_name perm) (expand_implied [p_name perm])"
  show "set (rows_to_add role perm d) \<subseteq> set (permissions d)"
    using perm by (auto simp: rows_to_add_def set_get_permissions_by_names)
  have "p \<noteq> perm" if "p \<in> set (get_permissions_by_names ?ns d)" for p
    using that by (auto simp: set_get_permissions_by_names)
  then have "p_id perm \<notin> p_id ` set (get_permissions_by_names ?ns d)"
    using permission_id_unique [OF c _ perm] by (auto simp: set_get_permissions_by_names)
  then show "distinct (map p_id (rows_to_add role perm d))"
    by (simp add: rows_to_add_def distinct_permissions_by_names [OF c])
  from role obtain r where r: "role = load_role d r" by auto
  show "\<forall>p \<in> set (rows_to_add role perm d). (r_id role, p_id p) \<notin> set (role_permissions d)"
    using new perm r by (force simp: rows_to_add_def set_get_permissions_by_names set_role_perm_rows)
qed

lemma add_permission_to_role_eq:
  assumes "get_role role_id (w_db w) = Some role" "get_permission_by_id permission_id (w_db w) = Some perm"
    and "ensure_role_in_scope role (u_is_superuser actor) (u_tenant_id actor) = None"
    and "p_id perm \<notin> p_id ` set (permissions_of role)"
  shows "add_permission_to_role role_id permission_id actor w =
    (if u_is_superuser actor then add_permissions role (rows_to_add role perm (w_db w)) w
     else case mask_for (p_name perm # filter (\<lambda>n. n \<notin> set (map p_name (permissions_of role)) \<and>
              n \<noteq> p_name perm) (expand_implied [p_name perm])) of
         Inl e \<Rightarrow> (Inl e, w)
       | Inr m \<Rightarrow> if m AND NOT (grantable_mask_for actor (w_db w)) \<noteq> 0
           then (Inl (GrantNotAllowed ''Requested permission exceeds what you are allowed to grant''), w)
           else add_permissions role (rows_to_add role perm (w_db w)) w)"
proof -
  have "service_get_role role_id (u_is_superuser actor) (u_tenant_id actor) w = (Inr role, w)"
    using assms(1,3) by (simp add: service_get_role_Inr)
  moreover have "(if ns = [] then [] else get_permissions_by_names ns d) = get_permissions_by_names ns d" for ns d
    by (simp add: get_permissions_by_names_def)
  ultimately show ?thesis
    using assms(2,4) unfolding add_permission_to_role_def rows_to_add_def
    by (simp add: and_then_fst Let_def split: sum.splits)
qed

text \<open>The mask a role has after some rows were added to it.\<close>

lemma loaded_mask_added:
  assumes "db_inv d" "loaded_role d role" "db_inv d'" "loaded_role d' role'" "r_id role' = r_id role"
    and "permissions d' = permissions d" "set ps \<subseteq> set (permissions d)"
    and "role_permissions d' = role_permissions d @ map (\<lambda>p. (r_id role, p_id p)) ps"
  shows "bit (r_permission_mask role') k \<longleftrightarrow>
    bit (r_permission_mask role) k \<or> (\<exists>p \<in> set ps. p_bit_position p = Some k)"
proof -
  have id: "p = q" if "p \<in> set (permissions d)" "q \<in> set ps" "p_id p = p_id q" for p q
    using permission_id_unique [OF db_inv_constraints [OF assms(1)] that(1) _ that(3)] that(2) assms(7) by blast
  show ?thesis
    unfolding loaded_role_mask [OF assms(1,2)] loaded_role_mask [OF assms(3,4)] bit_row_mask assms(5,6,8)
    using id assms(7) by (auto simp: subset_iff) blast
qed

lemma add_permission_to_role_returns:
  assumes inv: "world_inv w" and role: "get_role role_id (w_db w) = Some role"
    and perm: "get_permission_by_id permission_id (w_db w) = Some perm"
    and new: "p_id perm \<notin> p_id ` set (permissions_of role)"
  shows "\<exists>role' w'. add_permissions role (rows_to_add role perm (w_db w)) w = (Inr role', w') \<and>
    loaded_role (w_db w') role' \<and> world_step\<^sup>*\<^sup>* w w' \<and>
    (\<forall>k. bit (r_permission_mask role') k \<longleftrightarrow> bit (r_permission_mask role) k \<or>
       (\<exists>p \<in> set (rows_to_add role perm (w_db w)). p_bit_position p = Some k))"
proof -
  have db: "db_inv (w_db w)" using inv by (rule world_inv_db)
  have l: "loaded_role (w_db w) role" and p: "perm \<in> set (permissions (w_db w))"
    using get_role_loaded [OF role] get_permission_by_id_row [OF perm] by auto
  note ok = rows_to_add_ok [OF db_inv_constraints [OF db] l p new]
  from add_permissions_returns [OF inv l ok] obtain role' w' where *:
    "add_permissions role (rows_to_add role perm (w_db w)) w = (Inr role', w')" "world_inv w'"
    "loaded_role (w_db w') role'" "r_id role' = r_id role" "permissions (w_db w') = permissions (w_db w)"
    "role_permissions (w_db w') = role_permissions (w_db w) @
       map (\<lambda>p. (r_id role, p_id p)) (rows_to_add role perm (w_db w))" "world_step\<^sup>*\<^sup>* w w'"
    by blast
  from loaded_mask_added [OF db l world_inv_db [OF *(2)] *(3-5) ok(1) *(6)] * show ?thesis by blast
qed

lemma rows_to_add_bits:
  assumes db: "db_inv d" and role: "loaded_role d role" and perm: "perm \<in> set (permissions d)"
    and reg: "registry_bit (p_name perm) \<noteq> None"
  shows "bit (r_permission_mask role) k \<or> (\<exists>p \<in> set (rows_to_add role perm d). p_bit_position p = Some k) \<longleftrightarrow>
    bit (r_permission_mask role) k \<or> (\<exists>n \<in> set (expand_implied [p_name perm]). registry_bit n = Some k)"
proof (cases "bit (r_permission_mask role) k")
  case False
  have "p_name perm \<in> set (expand_implied [p_name perm])"
    using expand_implied_superset [of "[p_name perm]"] by simp
  have names: "registry_bit n \<noteq> None" if "n \<in> set (expand_implied [p_name perm])" for n
    using expand_implied_registered [of "[p_name perm]"] reg that by auto
  have fresh: "n \<notin> set (map p_name (permissions_of role))" if "registry_bit n = Some k" for n
  proof -
    from role obtain r where r: "r \<in> set (roles d)" "role = load_role d r" by auto
    with role_bit_iff_name [OF db r(1) that] False show ?thesis by auto
  qed
  show ?thesis
  proof
    assume "bit (r_permission_mask role) k \<or> (\<exists>p \<in> set (rows_to_add role perm d). p_bit_position p = Some k)"
    with False obtain p where p: "p \<in> set (rows_to_add role perm d)" "p_bit_position p = Some k" by blast
    then have "p \<in> set (permissions d)" "p_name p \<in> set (expand_implied [p_name perm])"
      using perm \<open>p_name perm \<in> _\<close> by (auto simp: rows_to_add_def set_get_permissions_by_names)
    moreover from this obtain b where "registry_bit (p_name p) = Some b" using names by blast
    ultimately have "registry_bit (p_name p) = Some k"
      using synced_bit [OF db_inv_synced [OF db]] p(2) by fastforce
    with \<open>p_name p \<in> _\<close> show "bit (r_permission_mask role) k \<or>
        (\<exists>n \<in> set (expand_implied [p_name perm]). registry_bit n = Some k)" by blast
  next
    assume "bit (r_permission_mask role) k \<or> (\<exists>n \<in> set (expand_implied [p_name perm]). registry_bit n = Some k)"
    with False obtain n where n: "n \<in> set (expand_implied [p_name perm])" "registry_bit n = Some k" by blast
    from synced_row [OF db_inv_synced [OF db] n(2)] obtain p
      where p: "p \<in> set (permissions d)" "p_name p = n" "p_bit_position p = Some k" by blast
    have "p \<in> set (rows_to_add role perm d)"
    proof (cases "n = p_name perm")
      case True
      with permission_name_unique [OF db_inv_constraints [OF db] p(1) perm] p(2)
      show ?thesis by (simp add: rows_to_add_def)
    next
      case False
      with n p fresh [OF n(2)] show ?thesis
        by (simp add: rows_to_add_def set_get_permissions_by_names)
    qed
    with p(3) show "bit (r_permission_mask role) k \<or>
        (\<exists>p \<in> set (rows_to_add role perm d). p_bit_position p = Some k)" by blast
  qed
qed simp

subsection \<open>Properties\<close>

text \<open>
  C7. No escalation by authoring. When a user who is not a superuser creates a role, the role
  belongs to that user's tenant; its mask has exactly the bits of the requested names and of
  everything they transitively imply; every one of those bits is one that some role of the
  creator is configured to grant and that the tenant's ceiling allows; and each of the creator's
  roles may afterwards grant the new role.
\<close>

theorem create_role_bounded:
  assumes "reachable_world w" "loaded_user (w_db w) actor" "\<not> u_is_superuser actor"
    and "create_role name names actor w = (Inr role, w')"
  shows "loaded_role (w_db w') role \<and> r_name role = name \<and> r_tenant_id role = u_tenant_id actor \<and>
    (\<forall>k. bit (r_permission_mask role) k \<longleftrightarrow> (\<exists>n \<in> implies1\<^sup>* `` set names. registry_bit n = Some k)) \<and>
    (\<forall>k. bit (r_permission_mask role) k \<longrightarrow>
       (\<exists>r \<in> set (roles_of actor). \<exists>p \<in> set (permissions (w_db w)). p_bit_position p = Some k \<and>
          (r_id r, p_id p) \<in> set (grantable_permissions (w_db w))) \<and>
       (\<forall>t. tenant_of actor = Some t \<longrightarrow> bit (t_allowed_permission_mask t) k)) \<and>
    (\<forall>r \<in> set (roles_of actor). (r_id r, r_id role) \<in> set (grantable_roles (w_db w')))"
proof -
  have inv: "world_inv w" using assms(1) by (simp add: reachable_world_sound)
  have ct: "creator_tenant actor = u_tenant_id actor" using assms(3) by (simp add: creator_tenant_def)
  from assms(4,3) obtain m where free: "\<not> role_name_taken (w_db w) name (creator_tenant actor)"
    and m: "mask_for (expand_implied names) = Inr m"
    and bound: "mask_subset m (grantable_mask_for actor (w_db w))"
    by (auto simp: create_role_def Let_def creator_tenant_def get_role_by_name_None and_not_zero_iff
        split: sum.splits if_splits)
  from create_role_returns [OF inv assms(2) creator_tenant_exists [OF inv assms(2)] free m] bound assms(3,4) ct
  have "loaded_role (w_db w') role \<and> r_name role = name \<and> r_tenant_id role = u_tenant_id actor \<and>
      r_permission_mask role = m" and links: "set (grantable_roles (w_db w')) = set (grantable_roles (w_db w)) \<union>
      (\<lambda>r. (r_id r, r_id role)) ` set (roles_of actor)"
    by auto
  moreover have "bit m k \<longleftrightarrow> (\<exists>n \<in> implies1\<^sup>* `` set names. registry_bit n = Some k)" for k
    unfolding bit_mask_for [OF m] set_expand_implied by (auto simp: registry_bit_iff)
  moreover have "bit (grantable_mask_for actor (w_db w)) k" if "bit m k" for k
    using bound that by (simp add: mask_subset_def)
  ultimately show ?thesis unfolding bit_grantable_mask_for by blast
qed

abbreviation ann_obj :: user_obj where "ann_obj \<equiv> load_user sample_db ann_row"

lemma loaded_ann: "loaded_user (w_db sample_world) ann_obj" "\<not> u_is_superuser ann_obj"
  "tenant_exists (w_db sample_world) (u_tenant_id ann_obj)"
  by (simp_all add: sample_world_def sample_db_def sample_rows tenant_exists_def)

lemma ann_roles: "roles_of ann_obj = [load_role sample_db admin_role]" "tenant_of ann_obj = Some acme_row"
  by (simp_all add: sample_db_def sample_rows user_role_rows_def tenant_by_id_def)

lemma ann_grantable_mask: "grantable_mask_for ann_obj sample_db = 130"
  unfolding grantable_mask_for_def Let_def ann_roles
  by (simp add: get_grantable_permission_mask_def sample_db_def sample_rows catalog_rows_value bit1_def
      tenant_role_mask_value)

lemma mask_for_role_read: "mask_for (expand_implied [''role:read'']) = Inr 2"
  by (simp add: expand_implied_def expand_loop.simps expand_round_def implied_by_def PERMISSION_IMPLIES_def
      mask_for_def PERMISSION_REGISTRY_def bit1_def)

lemma ann_creates_viewer:
  "\<exists>role w'. create_role ''viewer'' [''role:read''] ann_obj sample_world = (Inr role, w') \<and>
     r_permission_mask role = 2"
proof -
  have tid: "tenant_exists (w_db sample_world) (creator_tenant ann_obj)"
    using loaded_ann(2,3) by (simp add: creator_tenant_def)
  have free: "\<not> role_name_taken (w_db sample_world) ''viewer'' (creator_tenant ann_obj)"
    and bound: "mask_subset 2 (grantable_mask_for ann_obj (w_db sample_world))"
    by (simp_all add: sample_world_def ann_grantable_mask flip: and_not_zero_iff)
      (simp add: sample_db_def sample_rows role_name_taken_def)
  from create_role_returns [OF world_inv_sample loaded_ann(1) tid free mask_for_role_read disjI2 [OF bound]]
  show ?thesis by blast
qed

lemma create_role_bounded_witness:
  "\<exists>role w'. create_role ''viewer'' [''role:read''] ann_obj sample_world = (Inr role, w') \<and>
     r_tenant_id role = Some acme \<and> (1, r_id role) \<in> set (grantable_roles (w_db w'))"
proof -
  from ann_creates_viewer obtain role w'
    where *: "create_role ''viewer'' [''role:read''] ann_obj sample_world = (Inr role, w')" by blast
  from create_role_bounded [OF reachable_sample loaded_ann(1,2) *]
  have "r_tenant_id role = u_tenant_id ann_obj"
    "\<forall>r \<in> set (roles_of ann_obj). (r_id r, r_id role) \<in> set (grantable_roles (w_db w'))"
    by blast+
  then have "r_tenant_id role = Some acme" "(1, r_id role) \<in> set (grantable_roles (w_db w'))"
    unfolding ann_roles by (simp_all add: ann_row_def admin_role_def)
  with * show ?thesis by blast
qed

text \<open>
  C8. No escalation by extending a role. When a user who is not a superuser adds a permission to
  a role, the role is global or of that user's tenant; its mask becomes exactly what it was with
  the bits of the permission and of everything it transitively implies; and every bit that is new
  is one that some role of the actor may grant and that the tenant's ceiling allows.
\<close>

theorem add_permission_bounded:
  assumes "reachable_world w" "\<not> u_is_superuser actor"
    and "add_permission_to_role role_id permission_id actor w = (Inr role', w')"
  shows "\<exists>role perm. get_role role_id (w_db w) = Some role \<and>
    get_permission_by_id permission_id (w_db w) = Some perm \<and> loaded_role (w_db w') role' \<and>
    (r_tenant_id role = None \<or> r_tenant_id role = u_tenant_id actor) \<and>
    (\<forall>k. bit (r_permission_mask role') k \<longleftrightarrow> bit (r_permission_mask role) k \<or>
       (\<exists>n \<in> implies1\<^sup>* `` {p_name perm}. registry_bit n = Some k)) \<and>
    (\<forall>k. bit (r_permission_mask role') k \<and> \<not> bit (r_permission_mask role) k \<longrightarrow>
       bit (grantable_mask_for actor (w_db w)) k)"
proof -
  have inv: "world_inv w" using assms(1) by (simp add: reachable_world_sound)
  have db: "db_inv (w_db w)" using inv by (rule world_inv_db)
  from assms(3) obtain role where role: "get_role role_id (w_db w) = Some role"
    and scope: "ensure_role_in_scope role (u_is_superuser actor) (u_tenant_id actor) = None"
    by (auto simp: add_permission_to_role_def and_then_Inr service_get_role_Inr)
  with assms(3) obtain perm where perm: "get_permission_by_id permission_id (w_db w) = Some perm"
    and new: "p_id perm \<notin> p_id ` set (permissions_of role)"
    by (auto simp: add_permission_to_role_def and_then_Inr service_get_role_Inr Let_def
        split: option.splits if_splits)
  note eq = add_permission_to_role_eq [OF role perm scope new]
  let ?ns = "filter (\<lambda>n. n \<notin> set (map p_name (permissions_of role)) \<and> n \<noteq> p_name perm) (expand_implied [p_name perm])"
  from assms(2,3) eq obtain m where m: "mask_for (p_name perm # ?ns) = Inr m"
    and bound: "mask_subset m (grantable_mask_for actor (w_db w))"
    and add: "add_permissions role (rows_to_add role perm (w_db w)) w = (Inr role', w')"
    by (auto simp: and_not_zero_iff simp del: set_map split: sum.splits if_splits)
  from add_permission_to_role_returns [OF inv role perm new] add
  have r': "loaded_role (w_db w') role'" and bits: "\<And>k. bit (r_permission_mask role') k \<longleftrightarrow>
      bit (r_permission_mask role) k \<or> (\<exists>p \<in> set (rows_to_add role perm (w_db w)). p_bit_position p = Some k)"
    by auto
  have l: "loaded_role (w_db w) role" and p: "perm \<in> set (permissions (w_db w))"
    using get_role_loaded [OF role] get_permission_by_id_row [OF perm] by auto
  have reg: "registry_bit (p_name perm) \<noteq> None" using m by (auto simp: mask_for_Inr)
  have names: "p_name x \<in> set (p_name perm # ?ns)" if "x \<in> set (rows_to_add role perm (w_db w))" for x
    using that by (auto simp: rows_to_add_def set_get_permissions_by_names)
  have "bit m k" if "x \<in> set (rows_to_add role perm (w_db w))" "p_bit_position x = Some k" for x k
  proof -
    have x: "x \<in> set (permissions (w_db w))"
      using that(1) p by (auto simp: rows_to_add_def set_get_permissions_by_names)
    from names [OF that(1)] m obtain b where b: "registry_bit (p_name x) = Some b"
      unfolding mask_for_Inr by blast
    with synced_bit [OF db_inv_synced [OF db] x b] that(2) names [OF that(1)] show ?thesis
      unfolding bit_mask_for [OF m] by auto
  qed
  with bits bound have "bit (grantable_mask_for actor (w_db w)) k"
    if "bit (r_permission_mask role') k" "\<not> bit (r_permission_mask role) k" for k
    using that unfolding mask_subset_def by blast
  moreover have "bit (r_permission_mask role') k \<longleftrightarrow> bit (r_permission_mask role) k \<or>
      (\<exists>n \<in> implies1\<^sup>* `` {p_name perm}. registry_bit n = Some k)" for k
    unfolding bits rows_to_add_bits [OF db l p reg] set_expand_implied by simp
  moreover have "r_tenant_id role = None \<or> r_tenant_id role = u_tenant_id actor"
    using scope assms(2) by (simp add: in_scope_iff)
  ultimately show ?thesis using role perm r' by blast
qed

lemma permission_8: "get_permission_by_id 8 sample_db =
    Some \<lparr>p_id = 8, p_name = ''permission:read'', p_bit_position = Some 7\<rparr>"
  by (simp add: get_permission_by_id_def sample_db_def catalog_rows_value)

lemma role_2: "get_role 2 sample_db = Some (load_role sample_db reader_role)"
  by (simp add: get_role_def sample_db_def sample_rows)

lemma reader_permissions: "p_id ` set (role_perm_rows sample_db (r_id reader_role)) = {2}"
  by (simp add: role_perm_rows_def sample_db_def sample_rows catalog_rows_value)

lemma ann_extends_reader:
  "\<exists>role' w'. add_permission_to_role 2 8 ann_obj sample_world = (Inr role', w')"
proof -
  let ?perm = "\<lparr>p_id = 8, p_name = ''permission:read'', p_bit_position = Some 7\<rparr>"
  let ?role = "load_role sample_db reader_role"
  have new: "p_id ?perm \<notin> p_id ` set (permissions_of ?role)" by (simp add: reader_permissions)
  have scope: "ensure_role_in_scope ?role (u_is_superuser ann_obj) (u_tenant_id ann_obj) = None"
    by (simp add: in_scope_iff reader_role_def ann_row_def)
  have "expand_implied [''permission:read''] = [''permission:read'']"
    by (simp add: expand_implied_def expand_loop.simps expand_round_def implied_by_def PERMISSION_IMPLIES_def)
  then have "mask_for (p_name ?perm # filter (\<lambda>n. n \<notin> set (map p_name (permissions_of ?role)) \<and> n \<noteq> p_name ?perm)
      (expand_implied [p_name ?perm])) = Inr 128"
    by (simp add: mask_for_def PERMISSION_REGISTRY_def bit1_def)
  with add_permission_to_role_eq [of 2 sample_world ?role 8 ?perm ann_obj] loaded_ann(2)
    add_permission_to_role_returns [OF world_inv_sample, of 2 ?role 8 ?perm] new scope
  show ?thesis
    by (auto simp: sample_world_def role_2 permission_8 ann_grantable_mask simp del: set_map)
qed

lemma add_permission_bounded_witness:
  "\<exists>role' w' role. add_permission_to_role 2 8 ann_obj sample_world = (Inr role', w') \<and>
     get_role 2 (w_db sample_world) = Some role \<and>
     (\<forall>k. bit (r_permission_mask role') k \<and> \<not> bit (r_permission_mask role) k \<longrightarrow>
       bit (grantable_mask_for ann_obj (w_db sample_world)) k)"
proof -
  from ann_extends_reader obtain role' w'
    where *: "add_permission_to_role 2 8 ann_obj sample_world = (Inr role', w')" by blast
  from add_permission_bounded [OF reachable_sample loaded_ann(2) *] * show ?thesis by blast
qed

text \<open>
  The superuser is not bounded by the ceiling: a superuser's request to add a permission to
  a role succeeds whenever the role and the permission exist and the role does not hold it, so a
  tenant's role can come to hold a bit that the tenant's ceiling excludes.
\<close>

lemma superuser_add_ignores_ceiling:
  assumes "world_inv w" "u_is_superuser actor" "get_role role_id (w_db w) = Some role"
    and "get_permission_by_id permission_id (w_db w) = Some perm" "p_bit_position perm = Some k"
    and "p_id perm \<notin> p_id ` set (permissions_of role)"
  shows "\<exists>role' w'. add_permission_to_role role_id permission_id actor w = (Inr role', w') \<and>
    loaded_role (w_db w') role' \<and> bit (r_permission_mask role') k"
proof -
  have "ensure_role_in_scope role (u_is_superuser actor) (u_tenant_id actor) = None"
    using assms(2) by (simp add: in_scope_iff)
  from add_permission_to_role_eq [OF assms(3,4) this assms(6)] assms(2)
  have "add_permission_to_role role_id permission_id actor w =
      add_permissions role (rows_to_add role perm (w_db w)) w" by simp
  moreover have "perm \<in> set (rows_to_add role perm (w_db w))" by (simp add: rows_to_add_def)
  ultimately show ?thesis
    using add_permission_to_role_returns [OF assms(1,3,4,6)] assms(5) by metis
qed

lemma superuser_add_ignores_ceiling_witness:
  "\<exists>role' w'. add_permission_to_role 2 14 (load_user sample_db root_row) sample_world = (Inr role', w') \<and>
    loaded_role (w_db w') role' \<and> bit (r_permission_mask role') 13 \<and>
    \<not> bit (t_allowed_permission_mask acme_row) 13"
proof -
  have "\<exists>role' w'. add_permission_to_role 2 14 (load_user sample_db root_row) sample_world = (Inr role', w') \<and>
      loaded_role (w_db w') role' \<and> bit (r_permission_mask role') 13"
    by (rule superuser_add_ignores_ceiling [OF world_inv_sample, of _ _ "load_role sample_db reader_role" _
          "\<lparr>p_id = 14, p_name = ''tenant:create'', p_bit_position = Some 13\<rparr>"])
      (simp_all add: sample_world_def role_2 reader_permissions root_row_def,
       simp add: get_permission_by_id_def sample_db_def catalog_rows_value)
  moreover have "\<not> bit (t_allowed_permission_mask acme_row) 13"
    by (simp add: acme_row_def tenant_role_mask_value bit_iff_odd)
  ultimately show ?thesis by blast
qed

subsection \<open>Every call is a run of repository steps\<close>

lemma add_permission_to_role_cases:
  assumes inv: "world_inv w"
  shows "(\<exists>e. add_permission_to_role rid pid actor w = (Inl e, w)) \<or>
    (\<exists>role' w'. add_permission_to_role rid pid actor w = (Inr role', w') \<and> world_step\<^sup>*\<^sup>* w w')"
proof (cases "get_role rid (w_db w)")
  case None
  then show ?thesis
    by (simp add: add_permission_to_role_def and_then_def service_get_role_def)
next
  case role: (Some role)
  show ?thesis
  proof (cases "ensure_role_in_scope role (u_is_superuser actor) (u_tenant_id actor)")
    case (Some e)
    with role show ?thesis
      by (simp add: add_permission_to_role_def and_then_def service_get_role_def)
  next
    case scope: None
    then have get: "role_for rid actor w = (Inr role, w)" using role by (simp add: service_get_role_Inr)
    show ?thesis
    proof (cases "get_permission_by_id pid (w_db w)")
      case None
      with get show ?thesis by (simp add: add_permission_to_role_def and_then_fst Let_def)
    next
      case perm: (Some perm)
      show ?thesis
      proof (cases "p_id perm \<in> p_id ` set (permissions_of role)")
        case True
        with get perm show ?thesis by (simp add: add_permission_to_role_def and_then_fst Let_def)
      next
        case False
        from add_permission_to_role_eq [OF role perm scope False]
          add_permission_to_role_returns [OF inv role perm False]
        show ?thesis by (auto split: sum.splits)
      qed
    qed
  qed
qed

lemma runs_step: "repo_step w w' \<Longrightarrow> world_step\<^sup>*\<^sup>* w w'"
  by (blast intro: world_step.repo)

lemma service_role_runs:
  assumes "\<And>role. get_role rid (w_db w) = Some role \<Longrightarrow> world_step\<^sup>*\<^sup>* w (snd (f role w))"
  shows "world_step\<^sup>*\<^sup>* w (snd (and_then (role_for rid actor) f w))"
  by (rule runs.and_then) (use assms in \<open>auto simp: service_get_role_world service_get_role_Inr\<close>)

text \<open>
  The role a service call acts on was loaded when the call began. What each call then does is
  a repository step, or nothing.
\<close>

lemma get_role_steps:
  assumes "get_role rid (w_db w) = Some role"
  shows "repo_step w (snd (role_update role n w))"
    "get_permission_by_id pid (w_db w) = Some perm \<Longrightarrow> repo_step w (snd (remove_permission role perm w))"
  using get_role_loaded [OF assms] get_permission_by_id_row
  by (blast intro: repo_step.role_update repo_step.remove_permission)+

lemma role_update_raises: "raises_unchanged (role_update role n) w"
  by (auto simp: raises_unchanged_def role_update_def Let_def split: option.splits if_splits)

lemma remove_permission_raises: "raises_unchanged (remove_permission role perm) w"
  by (auto simp: raises_unchanged_def remove_permission_def Let_def case_prod_beta split: if_splits sum.splits)

lemma grantable_raises:
  "raises_unchanged (add_grantable_role r g) w" "raises_unchanged (remove_grantable_role r g) w"
  "raises_unchanged (add_grantable_permission r p) w" "raises_unchanged (remove_grantable_permission r p) w"
  by (auto simp: raises_unchanged_def add_grantable_role_def remove_grantable_role_def
      add_grantable_permission_def remove_grantable_permission_def Let_def split: option.splits)

definition sound_call :: "'a action \<Rightarrow> world \<Rightarrow> bool" where
  "sound_call m w \<longleftrightarrow> (\<forall>e w'. m w = (Inl e, w') \<longrightarrow> w' = w) \<and> world_step\<^sup>*\<^sup>* w (snd (m w))"

lemma sound_callI: "raises_unchanged m w \<Longrightarrow> world_step\<^sup>*\<^sup>* w (snd (m w)) \<Longrightarrow> sound_call m w"
  by (simp add: sound_call_def raises_unchanged_def)

lemma sound_role_call:
  assumes "\<And>role. get_role rid (w_db w) = Some role \<Longrightarrow> sound_call (f role) w"
  shows "sound_call (and_then (role_for rid actor) f) w"
  using assms
  by (intro sound_callI raises_unchanged_for service_role_runs) (auto simp: sound_call_def raises_unchanged_def)

lemma sound_step: "raises_unchanged m w \<Longrightarrow> repo_step w (snd (m w)) \<Longrightarrow> sound_call m w"
  by (simp add: sound_callI runs_step)

lemma sound_refused: "m w = (Inl e, w) \<Longrightarrow> sound_call m w"
  by (simp add: sound_call_def)

lemma sound_cong: "m w = m' w \<Longrightarrow> sound_call m' w \<Longrightarrow> sound_call m w"
  by (simp add: sound_call_def)

lemma sound_create_role:
  assumes "world_inv w" "loaded_user (w_db w) actor" "tenant_exists (w_db w) (creator_tenant actor)"
  shows "sound_call (create_role name names actor) w"
proof -
  note raises = create_role_raises [OF assms(1,3,2)]
  show ?thesis
  proof (cases "create_role name names actor w")
    case (Pair r w')
    show ?thesis
    proof (cases r)
      case (Inl e)
      with Pair raises show ?thesis by (auto simp: sound_call_def raises_unchanged_def)
    next
      case (Inr role)
      with Pair obtain m where "\<not> role_name_taken (w_db w) name (creator_tenant actor)"
        "mask_for (expand_implied names) = Inr m"
        "u_is_superuser actor \<or> mask_subset m (grantable_mask_for actor (w_db w))"
        by (auto simp: create_role_def Let_def creator_tenant_def [symmetric] get_role_by_name_None
            and_not_zero_iff split: sum.splits if_splits)
      from create_role_returns [OF assms(1,2,3) this] show ?thesis by (auto simp: sound_call_def)
    qed
  qed
qed

lemma sound_remove_permission_from_role: "sound_call (remove_permission_from_role rid pid actor) w"
  unfolding remove_permission_from_role_def
proof (rule sound_role_call)
  fix role
  assume role: "get_role rid (w_db w) = Some role"
  show "sound_call (\<lambda>w. case get_permission_by_id pid (w_db w) of
       None \<Rightarrow> (Inl (PermissionNotFound (IdInt pid)), w)
     | Some perm \<Rightarrow>
       if p_id perm \<notin> p_id ` set (permissions_of role)
       then (Inl (PermissionNotGranted ''Permission not associated with this role''), w)
       else remove_permission role perm w) w"
  proof (cases "get_permission_by_id pid (w_db w)")
    case (Some perm)
    show ?thesis
    proof (cases "p_id perm \<notin> p_id ` set (permissions_of role)")
      case False
      with Some show ?thesis
        by (intro sound_cong [OF _ sound_step [OF remove_permission_raises get_role_steps(2) [OF role Some]]])
          simp
    qed (simp add: Some sound_call_def)
  qed (simp add: sound_call_def)
qed

lemma sound_grantable:
  "sound_call (service_add_grantable_role rid gid actor) w"
  "sound_call (service_remove_grantable_role rid gid actor) w"
  "sound_call (service_add_grantable_permission rid pid actor) w"
  "sound_call (service_remove_grantable_permission rid pid actor) w"
proof -
  have "sound_call (add_grantable_role rid gid) w" "sound_call (remove_grantable_role rid gid) w"
    "sound_call (add_grantable_permission rid pid) w" "sound_call (remove_grantable_permission rid pid) w"
    by (rule sound_step grantable_raises repo_step.intros)+
  then show "sound_call (service_add_grantable_role rid gid actor) w"
    "sound_call (service_remove_grantable_role rid gid actor) w"
    "sound_call (service_add_grantable_permission rid pid actor) w"
    "sound_call (service_remove_grantable_permission rid pid actor) w"
    unfolding service_add_grantable_role_def service_remove_grantable_role_def
      service_add_grantable_permission_def service_remove_grantable_permission_def
    by (intro sound_role_call; auto simp: Let_def sound_call_def split: option.splits)+
qed

lemma sound_update_role: "sound_call (update_role rid new_name actor) w"
  unfolding update_role_def
  by (intro sound_role_call sound_step role_update_raises get_role_steps(1))

lemma sound_delete_role: "sound_call (delete_role rid actor) w"
  unfolding delete_role_def
  by (intro sound_role_call sound_callI)
    (auto simp: raises_unchanged_def role_delete_def Let_def intro: world_step.role_delete
      [unfolded role_delete_def Let_def snd_conv])

lemma sound_add_permission_to_role: "world_inv w \<Longrightarrow> sound_call (add_permission_to_role rid pid actor) w"
  using add_permission_to_role_cases [of w rid pid actor] by (auto simp: sound_call_def)

lemmas sound_role_calls = sound_update_role sound_delete_role sound_add_permission_to_role
  sound_remove_permission_from_role sound_grantable

text \<open>
  C15. Every changing call of the role service leaves the world either exactly as it was, when it
  raises, or where a run of repository operations leads: no call is half done when it is
  refused, and all that is invariant under the repositories is invariant under the service.
\<close>

theorem role_service_sound:
  assumes "reachable_world w" "loaded_user (w_db w) actor"
  shows "sound_call (create_role name names actor) w \<and> sound_call (update_role rid new_name actor) w \<and>
    sound_call (delete_role rid actor) w \<and> sound_call (add_permission_to_role rid pid actor) w \<and>
    sound_call (remove_permission_from_role rid pid actor) w \<and>
    sound_call (service_add_grantable_role rid gid actor) w \<and>
    sound_call (service_remove_grantable_role rid gid actor) w \<and>
    sound_call (service_add_grantable_permission rid pid actor) w \<and>
    sound_call (service_remove_grantable_permission rid pid actor) w"
proof -
  have inv: "world_inv w" using assms(1) by (simp add: reachable_world_sound)
  show ?thesis
    by (intro conjI sound_role_calls inv sound_create_role [OF inv assms(2) creator_tenant_exists [OF inv assms(2)]])
qed

lemma role_service_sound_witness:
  "sound_call (create_role ''viewer'' [''role:read''] ann_obj) sample_world \<and>
    sound_call (delete_role 2 ann_obj) sample_world"
  using role_service_sound [OF reachable_sample loaded_ann(1), where name = "''viewer''" and
      names = "[''role:read'']" and rid = 2] by blast

text \<open>
  C38. Tenants cannot reach each other's roles: whatever a user who is not a superuser asks of
  the role service about a role that belongs to another tenant, the answer is that there is no
  such role, and nothing changes.
\<close>

theorem other_tenants_roles_hidden:
  assumes "get_role rid (w_db w) = Some role" "\<not> u_is_superuser actor"
    and "r_tenant_id role = Some t" "u_tenant_id actor \<noteq> Some t"
  shows "update_role rid new_name actor w = (Inl (RoleNotFound (IdInt rid)), w) \<and>
    delete_role rid actor w = (Inl (RoleNotFound (IdInt rid)), w) \<and>
    add_permission_to_role rid pid actor w = (Inl (RoleNotFound (IdInt rid)), w) \<and>
    remove_permission_from_role rid pid actor w = (Inl (RoleNotFound (IdInt rid)), w) \<and>
    service_add_grantable_role rid gid actor w = (Inl (RoleNotFound (IdInt rid)), w) \<and>
    service_remove_grantable_role rid gid actor w = (Inl (RoleNotFound (IdInt rid)), w) \<and>
    service_add_grantable_permission rid pid actor w = (Inl (RoleNotFound (IdInt rid)), w) \<and>
    service_remove_grantable_permission rid pid actor w = (Inl (RoleNotFound (IdInt rid)), w) \<and>
    get_role_grants rid False (u_tenant_id actor) w = (Inl (RoleNotFound (IdInt rid)), w)"
proof -
  have "r_id role = rid" using assms(1) by (auto dest: get_role_loaded)
  with assms have "role_for rid actor w = (Inl (RoleNotFound (IdInt rid)), w)"
    by (auto simp: service_get_role_def ensure_role_in_scope_def)
  with assms(2) show ?thesis
    by (simp add: update_role_def delete_role_def add_permission_to_role_def remove_permission_from_role_def
        service_add_grantable_role_def service_remove_grantable_role_def service_add_grantable_permission_def
        service_remove_grantable_permission_def get_role_grants_def and_then_def)
qed

lemma other_tenants_roles_hidden_witness:
  "delete_role 2 (ann_obj\<lparr>u_tenant_id := Some globex\<rparr>) sample_world = (Inl (RoleNotFound (IdInt 2)), sample_world)"
  using other_tenants_roles_hidden [of 2 sample_world "load_role sample_db reader_role"
      "ann_obj\<lparr>u_tenant_id := Some globex\<rparr>" acme] loaded_ann(2)
  by (simp add: sample_world_def role_2) (simp add: sample_rows)

end
