(* ===== verification/UserService.thy ===== *)
theory UserService
  imports RoleService
begin

text \<open>
  \<^verbatim>\<open>app/services/users/user_management_service.py\<close> and
  \<^verbatim>\<open>app/services/tenant/tenant_service.py\<close>. The identifier of a new row is an argument, as is
  the hash bcrypt gives for the password of the request.
\<close>

subsection \<open>User management\<close>

definition ensure_same_tenant :: "uuid \<Rightarrow> uuid option \<Rightarrow> uuid option \<Rightarrow> bool \<Rightarrow> exn option" where
  "ensure_same_tenant target_id target_tenant tenant_id is_superuser =
     (if \<not> is_superuser \<and> target_tenant \<noteq> tenant_id then Some (UserNotFound (IdUuid target_id)) else None)"

definition create_user :: "uuid \<Rightarrow> user_obj \<Rightarrow> string \<Rightarrow> string \<Rightarrow> string \<Rightarrow> user_obj option action" where
  "create_user new_id actor username email password_hash w =
     (let d = w_db w in
      if exists_by_username username d then (Inl (UsernameExist (IdStr username)), w)
      else if exists_by_email email d then (Inl (UserMailExist (IdStr email)), w)
      else and_then
        (user_create new_id username email (Some password_hash) True False (Some (u_id actor)) (u_tenant_id actor))
        (\<lambda>created w. (Inr (get_user_with_grants (u_id created) (w_db w)), w)) w)"

definition service_list_users ::
    "uuid option \<Rightarrow> bool \<Rightarrow> nat \<Rightarrow> nat \<Rightarrow> uuid option \<Rightarrow> db \<Rightarrow> user_obj list" where
  "service_list_users tenant_id is_superuser skip limit filter_tenant_id d =
     (if is_superuser then
        (case filter_tenant_id of None \<Rightarrow> list_users skip limit d
         | Some t \<Rightarrow> list_users_by_tenant (Some t) skip limit d)
      else list_users_by_tenant tenant_id skip limit d)"

definition service_count_users :: "uuid option \<Rightarrow> bool \<Rightarrow> uuid option \<Rightarrow> db \<Rightarrow> nat" where
  "service_count_users tenant_id is_superuser filter_tenant_id d =
     (if is_superuser then
        (case filter_tenant_id of None \<Rightarrow> count_users d | Some t \<Rightarrow> count_users_by_tenant (Some t) d)
      else count_users_by_tenant tenant_id d)"

definition get_user :: "uuid \<Rightarrow> user_obj action" where
  "get_user user_id w =
     (case get_user_with_grants user_id (w_db w) of
        None \<Rightarrow> (Inl (UserNotFound (IdUuid user_id)), w)
      | Some user \<Rightarrow> (Inr user, w))"

record user_detail =
  detail_user :: user_obj
  detail_effective_permissions :: "string set"

definition get_user_detail :: "uuid option \<Rightarrow> bool \<Rightarrow> uuid \<Rightarrow> user_detail action" where
  "get_user_detail tenant_id is_superuser user_id = and_then (get_user user_id) (\<lambda>user w.
     case ensure_same_tenant (u_id user) (u_tenant_id user) tenant_id is_superuser of
       Some e \<Rightarrow> (Inl e, w)
     | None \<Rightarrow> (Inr \<lparr>detail_user = user, detail_effective_permissions = effective_permissions user\<rparr>, w))"

record grants =
  g_is_superuser :: bool
  g_effective_permissions :: "string set"
  g_grantable_roles :: "role_obj list"
  g_grantable_permissions :: "permission list"

definition get_grants :: "user_obj \<Rightarrow> db \<Rightarrow> grants" where
  "get_grants actor d =
     (let actor_role_ids = map r_id (roles_of actor) in
      \<lparr>g_is_superuser = u_is_superuser actor,
       g_effective_permissions = effective_permissions actor,
       g_grantable_roles =
         (if u_is_superuser actor then list_roles 0 10000 d
          else map (load_role d) (filter (\<lambda>r. r_id r \<in> get_grantable_role_ids actor_role_ids d) (roles d))),
       g_grantable_permissions =
         (if u_is_superuser actor then list_permissions 0 10000 d
          else filter (\<lambda>p. p_id p \<in> get_grantable_permission_ids actor_role_ids d) (permissions d))\<rparr>)"

text \<open>
  The four calls that change what a user holds share their checks: the actor's right to grant,
  the thing granted, the target and its tenant, and whether the link is there already.
\<close>

definition assign_role :: "user_obj \<Rightarrow> uuid \<Rightarrow> int \<Rightarrow> unit action" where
  "assign_role actor target_user_id role_id w =
     (let d = w_db w in
      if \<not> can_grant_role actor role_id d
      then (Inl (GrantNotAllowed (''You are not allowed to grant role '' @ str_int role_id)), w)
      else case get_role role_id d of None \<Rightarrow> (Inl (RoleNotFound (IdInt role_id)), w)
      | Some role \<Rightarrow>
        (case get_user_by_id target_user_id d of None \<Rightarrow> (Inl (UserNotFound (IdUuid target_user_id)), w)
         | Some target \<Rightarrow>
           (case ensure_same_tenant (u_id target) (u_tenant_id target) (u_tenant_id actor) (u_is_superuser actor) of
              Some e \<Rightarrow> (Inl e, w)
            | None \<Rightarrow>
              if user_has_role target_user_id role_id d
              then (Inl (RoleAlreadyAssigned (quoted ''User already has role '' (r_name role) [])), w)
              else assign_to_user role_id target_user_id w)))"

definition remove_role :: "user_obj \<Rightarrow> uuid \<Rightarrow> int \<Rightarrow> unit action" where
  "remove_role actor target_user_id role_id w =
     (let d = w_db w in
      if \<not> can_grant_role actor role_id d
      then (Inl (GrantNotAllowed (''You are not allowed to revoke role '' @ str_int role_id)), w)
      else case get_role role_id d of None \<Rightarrow> (Inl (RoleNotFound (IdInt role_id)), w)
      | Some role \<Rightarrow>
        (case get_user_by_id target_user_id d of None \<Rightarrow> (Inl (UserNotFound (IdUuid target_user_id)), w)
         | Some target \<Rightarrow>
           (case ensure_same_tenant (u_id target) (u_tenant_id target) (u_tenant_id actor) (u_is_superuser actor) of
              Some e \<Rightarrow> (Inl e, w)
            | None \<Rightarrow>
              if \<not> user_has_role target_user_id role_id d
              then (Inl (RoleNotAssigned (quoted ''User does not have role '' (r_name role) [])), w)
              else remove_from_user role_id target_user_id w)))"

definition service_grant_permission :: "user_obj \<Rightarrow> uuid \<Rightarrow> int \<Rightarrow> unit action" where
  "service_grant_permission actor target_user_id permission_id w =
     (let d = w_db w in
      if \<not> can_grant_permission actor permission_id d
      then (Inl (GrantNotAllowed (''You are not allowed to grant permission '' @ str_int permission_id)), w)
      else case get_permission_by_id permission_id d of
        None \<Rightarrow> (Inl (PermissionNotFound (IdInt permission_id)), w)
      | Some permission \<Rightarrow>
        (case get_user_with_grants target_user_id d of
           None \<Rightarrow> (Inl (UserNotFound (IdUuid target_user_id)), w)
         | Some target \<Rightarrow>
           (case ensure_same_tenant (u_id target) (u_tenant_id target) (u_tenant_id actor) (u_is_superuser actor) of
              Some e \<Rightarrow> (Inl e, w)
            | None \<Rightarrow>
              if has_permission target_user_id permission_id d
              then (Inl (PermissionAlreadyGranted (quoted ''User already has permission '' (p_name permission) [])), w)
              else grant_permission target permission w)))"

definition service_revoke_permission :: "user_obj \<Rightarrow> uuid \<Rightarrow> int \<Rightarrow> unit action" where
  "service_revoke_permission actor target_user_id permission_id w =
     (let d = w_db w in
      if \<not> can_grant_permission actor permission_id d
      then (Inl (GrantNotAllowed (''You are not allowed to revoke permission '' @ str_int permission_id)), w)
      else case get_permission_by_id permission_id d of
        None \<Rightarrow> (Inl (PermissionNotFound (IdInt permission_id)), w)
      | Some permission \<Rightarrow>
        (case get_user_with_grants target_user_id d of
           None \<Rightarrow> (Inl (UserNotFound (IdUuid target_user_id)), w)
         | Some target \<Rightarrow>
           (case ensure_same_tenant (u_id target) (u_tenant_id target) (u_tenant_id actor) (u_is_superuser actor) of
              Some e \<Rightarrow> (Inl e, w)
            | None \<Rightarrow>
              if \<not> has_permission target_user_id permission_id d
              then (Inl (PermissionNotGranted (quoted ''User does not have permission '' (p_name permission) [])), w)
              else revoke_permission target permission w)))"

definition service_set_user_active :: "uuid option \<Rightarrow> bool \<Rightarrow> uuid \<Rightarrow> bool \<Rightarrow> unit action" where
  "service_set_user_active tenant_id is_superuser target_user_id is_active w =
     (case get_user_by_id target_user_id (w_db w) of
        None \<Rightarrow> (Inl (UserNotFound (IdUuid target_user_id)), w)
      | Some target \<Rightarrow>
        (case ensure_same_tenant (u_id target) (u_tenant_id target) tenant_id is_superuser of
           Some e \<Rightarrow> (Inl e, w)
         | None \<Rightarrow> and_then (set_user_active target is_active) (\<lambda>_ w. (Inr (), w)) w))"

subsection \<open>Tenants\<close>

text \<open>
  The request of a new tenant: \<open>allowed\<close> is None when the field is left out. The four
  writes are four transactions.
\<close>

definition tenant_ceiling :: "string list option \<Rightarrow> exn + int" where
  "tenant_ceiling allowed =
     (case allowed of
        None \<Rightarrow> Inr (TENANT_ROLE_MASK AND TENANT_ROLE_MASK)
      | Some names \<Rightarrow> map_sum id (\<lambda>m. m AND TENANT_ROLE_MASK) (mask_for names))"

definition create_tenant_with_admin ::
    "uuid \<Rightarrow> uuid \<Rightarrow> user_obj \<Rightarrow> string \<Rightarrow> string \<Rightarrow> string \<Rightarrow> string \<Rightarrow> string list option \<Rightarrow> (tenant \<times> user) action"
  where
  "create_tenant_with_admin new_tenant_id new_user_id actor name admin_username admin_email
       admin_password_hash allowed w =
     (let d = w_db w in
      if \<not> u_is_superuser actor then (Inl superuser_required_default, w)
      else if get_tenant_by_name name d \<noteq> None then (Inl (TenantExists (IdStr name)), w)
      else if exists_by_username admin_username d then (Inl (UsernameExist (IdStr admin_username)), w)
      else if exists_by_email admin_email d then (Inl (UserMailExist (IdStr admin_email)), w)
      else case tenant_ceiling allowed of Inl e \<Rightarrow> (Inl e, w)
      | Inr allowed_mask \<Rightarrow>
        and_then (tenant_create new_tenant_id name allowed_mask) (\<lambda>tenant.
        and_then (create_root_tenant_role (t_id tenant) allowed_mask) (\<lambda>admin_role.
        and_then (user_create new_user_id admin_username admin_email (Some admin_password_hash) True False
            (Some (u_id actor)) (Some (t_id tenant))) (\<lambda>admin_user.
        and_then (assign_to_user (r_id admin_role) (u_id admin_user)) (\<lambda>_ w.
          (Inr (tenant, admin_user), w))))) w)"

definition get_tenant :: "uuid \<Rightarrow> tenant action" where
  "get_tenant tenant_id w =
     (case get_tenant_by_id tenant_id (w_db w) of
        None \<Rightarrow> (Inl (TenantNotFound (IdUuid tenant_id)), w)
      | Some tenant \<Rightarrow> (Inr tenant, w))"

definition service_set_tenant_active :: "user_obj \<Rightarrow> uuid \<Rightarrow> bool \<Rightarrow> tenant action" where
  "service_set_tenant_active actor tenant_id is_active w =
     (if \<not> u_is_superuser actor then (Inl superuser_required_default, w)
      else and_then (get_tenant tenant_id) (\<lambda>tenant. set_tenant_active tenant is_active) w)"

definition update_tenant_permissions :: "user_obj \<Rightarrow> uuid \<Rightarrow> string list \<Rightarrow> tenant action" where
  "update_tenant_permissions actor tenant_id names w =
     (if \<not> u_is_superuser actor then (Inl superuser_required_default, w)
      else and_then (get_tenant tenant_id) (\<lambda>tenant w.
        case tenant_ceiling (Some names) of Inl e \<Rightarrow> (Inl e, w)
        | Inr allowed_mask \<Rightarrow>
          and_then (set_allowed_permission_mask tenant allowed_mask) (\<lambda>tenant'.
          and_then (sync_root_tenant_role_permissions (t_id tenant') allowed_mask) (\<lambda>_ w.
            (Inr tenant', w))) w) w)"

subsection \<open>Calls as runs\<close>

lemma get_user_by_id_Some: "get_user_by_id uid d = Some u \<Longrightarrow> u \<in> set (users d) \<and> u_id u = uid"
  by (auto simp: get_user_by_id_def dest: find_SomeD)

lemma assign_raises: "raises_unchanged (assign_to_user r u) w" "raises_unchanged (remove_from_user r u) w"
  by (auto simp: raises_unchanged_def assign_to_user_def remove_from_user_def Let_def case_prod_beta
      split: option.splits)

lemma grant_raises: "raises_unchanged (grant_permission u p) w" "raises_unchanged (revoke_permission u p) w"
  by (auto simp: raises_unchanged_def grant_permission_def revoke_permission_def Let_def
      split: option.splits if_splits)

lemma sound_assign: "sound_call (assign_to_user r u) w" "sound_call (remove_from_user r u) w"
  by (rule sound_step assign_raises repo_step.intros)+

lemma sound_grant:
  assumes "get_user_with_grants uid (w_db w) = Some user"
  shows "sound_call (grant_permission user p) w" "sound_call (revoke_permission user p) w"
  using get_user_loaded [OF assms]
  by (auto intro!: sound_step grant_raises repo_step.grant_permission repo_step.revoke_permission)

lemma sound_if: "(P \<Longrightarrow> sound_call m w) \<Longrightarrow> (\<not> P \<Longrightarrow> sound_call n w) \<Longrightarrow>
    sound_call (\<lambda>w. if P then m w else n w) w"
  by (simp add: sound_call_def)

lemma sound_role_changes:
  "sound_call (assign_role actor uid rid) w" "sound_call (remove_role actor uid rid) w"
  using sound_assign [of rid uid w]
  by (auto simp: sound_call_def assign_role_def remove_role_def Let_def split: option.splits if_splits)

lemma sound_grant_changes:
  "sound_call (service_grant_permission actor uid pid) w" "sound_call (service_revoke_permission actor uid pid) w"
  using sound_grant [of uid w]
  by (auto simp: sound_call_def service_grant_permission_def service_revoke_permission_def Let_def
      split: option.splits if_splits)

lemma sound_user_active: "sound_call (service_set_user_active tid su uid active) w"
proof -
  have "world_step\<^sup>*\<^sup>* w (snd (set_user_active user active w))" for user
    by (intro runs_step repo_step.set_user_active)
  moreover have "and_then (set_user_active user active) (\<lambda>_ w. (Inr (), w)) w =
      (Inr (), snd (set_user_active user active w))" for user
    by (simp add: set_user_active_def Let_def and_then_def)
  ultimately show ?thesis
    by (simp add: sound_call_def service_set_user_active_def split: option.splits)
qed

lemma sound_create_user: "sound_call (create_user i actor n e h) w"
proof -
  let ?c = "user_create i n e (Some h) True False (Some (u_id actor)) (u_tenant_id actor)"
  have "world_step\<^sup>*\<^sup>* w (snd (?c w))" by (intro runs_step repo_step.user_create)
  moreover have "raises_unchanged ?c w" by (auto simp: raises_unchanged_def user_create_def Let_def split: if_splits)
  ultimately have "sound_call (and_then ?c (\<lambda>created w. (Inr (get_user_with_grants (u_id created) (w_db w)), w))) w"
    by (cases "?c w"; cases "fst (?c w)") (auto simp: sound_call_def raises_unchanged_def and_then_def)
  then show ?thesis
    by (auto simp: sound_call_def create_user_def Let_def split: if_splits)
qed

subsection \<open>Properties of user management\<close>

text \<open>What a request does not change of a user: the row, the roles and the direct permissions.\<close>

definition untouched :: "user \<Rightarrow> db \<Rightarrow> db \<Rightarrow> bool" where
  "untouched u d d' \<longleftrightarrow> (u \<in> set (users d) \<longrightarrow> u \<in> set (users d')) \<and>
     (\<forall>r. (u_id u, r) \<in> set (user_roles d') \<longleftrightarrow> (u_id u, r) \<in> set (user_roles d)) \<and>
     (\<forall>p. (u_id u, p) \<in> set (user_permissions d') \<longleftrightarrow> (u_id u, p) \<in> set (user_permissions d))"

lemma untouched_refl [simp]: "untouched u d d"
  by (simp add: untouched_def)

lemma in_update_where: "x \<in> set xs \<Longrightarrow> \<not> P x \<Longrightarrow> x \<in> set (update_where P f xs)"
  by (force simp: update_where_def)

lemma untouched_write_user:
  assumes "u_id u \<noteq> uid" "users d1 = users d"
    "\<And>r. (u_id u, r) \<in> set (user_roles d1) \<longleftrightarrow> (u_id u, r) \<in> set (user_roles d)"
    "\<And>p. (u_id u, p) \<in> set (user_permissions d1) \<longleftrightarrow> (u_id u, p) \<in> set (user_permissions d)"
  shows "untouched u d (write_user uid f d1)"
  using assms by (simp add: untouched_def write_user_def in_update_where)

lemma bump_one: "fst (bump_where (\<lambda>u. u_id u = uid) d) = write_user uid bump_user d"
  by (simp add: bump_where_db write_user_def)

lemma untouched_assign:
  assumes "u_id u \<noteq> uid"
  shows "untouched u (w_db w) (w_db (snd (assign_to_user rid uid w)))"
    "untouched u (w_db w) (w_db (snd (remove_from_user rid uid w)))"
  using assms
  by (auto simp: assign_to_user_def remove_from_user_def Let_def case_prod_beta insert_link_Some
      bump_is_where(2) bump_one split: option.splits intro!: untouched_write_user)

lemma untouched_grant:
  assumes "u_id u \<noteq> u_id user"
  shows "untouched u (w_db w) (w_db (snd (grant_permission user p w)))"
    "untouched u (w_db w) (w_db (snd (revoke_permission user p w)))"
  using assms
  by (auto simp: grant_permission_def revoke_permission_def Let_def insert_link_Some
      split: option.splits intro!: untouched_write_user)

lemma untouched_create: "untouched u (w_db w) (w_db (snd (create_user i actor n e h w)))"
  by (auto simp: untouched_def create_user_def user_create_def and_then_def Let_def)

lemma target_other_user:
  assumes "constraints d" "u \<in> set (users d)" "u_tenant_id u \<noteq> tid"
    and "get_user_by_id uid d = Some target" "ensure_same_tenant (u_id target) (u_tenant_id target) tid False = None"
  shows "u_id u \<noteq> uid"
  using assms user_id_unique [OF assms(1,2)] get_user_by_id_Some [OF assms(4)]
  by (auto simp: ensure_same_tenant_def split: if_splits)

lemma get_user_with_grants_row:
  assumes "get_user_with_grants uid d = Some user"
  shows "\<exists>row. get_user_by_id uid d = Some row \<and> user = load_user d row"
  using assms by (auto simp: get_user_with_grants_def get_user_by_id_def)

text \<open>
  C6. Tenants are isolated from each other: whatever a user who is not a superuser asks of user
  management, on whatever target, and whether it is done or refused, the account of a user of
  another tenant (or of none), the roles and the direct permissions of that user stay as they
  were.
\<close>

theorem tenants_isolated:
  assumes "reachable_world w" "\<not> u_is_superuser actor"
    and "u \<in> set (users (w_db w))" "u_tenant_id u \<noteq> u_tenant_id actor"
  shows "untouched u (w_db w) (w_db (snd (assign_role actor uid rid w))) \<and>
    untouched u (w_db w) (w_db (snd (remove_role actor uid rid w))) \<and>
    untouched u (w_db w) (w_db (snd (service_grant_permission actor uid pid w))) \<and>
    untouched u (w_db w) (w_db (snd (service_revoke_permission actor uid pid w))) \<and>
    untouched u (w_db w) (w_db (snd (service_set_user_active (u_tenant_id actor) False uid active w))) \<and>
    untouched u (w_db w) (w_db (snd (create_user i actor n e h w)))"
proof (intro conjI untouched_create)
  have inv: "world_inv w" using assms(1) by (simp add: reachable_world_sound)
  note other = target_other_user [OF inv_constraints [OF inv] assms(3,4)]
  show "untouched u (w_db w) (w_db (snd (assign_role actor uid rid w)))"
    using assms(2) other untouched_assign(1) [of u uid w rid]
    by (auto simp: assign_role_def Let_def split: option.splits)
  show "untouched u (w_db w) (w_db (snd (remove_role actor uid rid w)))"
    using assms(2) other untouched_assign(2) [of u uid w rid]
    by (auto simp: remove_role_def Let_def split: option.splits)
  have grants_other: "u_id u \<noteq> u_id user"
    if "get_user_with_grants uid (w_db w) = Some user"
      "ensure_same_tenant (u_id user) (u_tenant_id user) (u_tenant_id actor) False = None" for user
    using get_user_with_grants_row [OF that(1)] other [of uid] get_user_by_id_Some that(2) by fastforce
  show "untouched u (w_db w) (w_db (snd (service_grant_permission actor uid pid w)))"
    using assms(2) grants_other untouched_grant(1)
    by (auto simp: service_grant_permission_def Let_def split: option.splits)
  show "untouched u (w_db w) (w_db (snd (service_revoke_permission actor uid pid w)))"
    using assms(2) grants_other untouched_grant(2)
    by (auto simp: service_revoke_permission_def Let_def split: option.splits)
  show "untouched u (w_db w) (w_db (snd (service_set_user_active (u_tenant_id actor) False uid active w)))"
    using other get_user_by_id_Some
    by (fastforce simp: service_set_user_active_def and_then_def set_user_active_def Let_def
        split: option.splits intro!: untouched_write_user)
qed

lemma tenants_isolated_witness:
  "untouched root_row (w_db sample_world) (w_db (snd (remove_role ann_obj root 2 sample_world)))"
  using tenants_isolated [OF reachable_sample loaded_ann(2), of root_row]
  by (auto simp: sample_world_def sample_db_def root_row_def ann_row_def)


text \<open>
  What a successful \<open>assign_role\<close> did, and what it had checked.
\<close>

lemma assign_role_Inr:
  assumes "assign_role actor uid rid w = (Inr (), w')"
  shows "\<exists>role u. can_grant_role actor rid (w_db w) \<and> get_role rid (w_db w) = Some role \<and>
    get_user_by_id uid (w_db w) = Some u \<and> (u_is_superuser actor \<or> u_tenant_id u = u_tenant_id actor) \<and>
    (uid, rid) \<notin> set (user_roles (w_db w)) \<and>
    w_db w' = write_user uid bump_user (w_db w\<lparr>user_roles := user_roles (w_db w) @ [(uid, rid)]\<rparr>)"
proof -
  from assms obtain role u where *: "can_grant_role actor rid (w_db w)" "get_role rid (w_db w) = Some role"
    "get_user_by_id uid (w_db w) = Some u" "u_is_superuser actor \<or> u_tenant_id u = u_tenant_id actor"
    "(uid, rid) \<notin> set (user_roles (w_db w))" "assign_to_user rid uid w = (Inr (), w')"
    by (auto simp: assign_role_def Let_def ensure_same_tenant_def user_has_role_def split: option.splits if_splits)
  from *(6) have "w_db w' = write_user uid bump_user (w_db w\<lparr>user_roles := user_roles (w_db w) @ [(uid, rid)]\<rparr>)"
    by (auto simp: assign_to_user_def Let_def bump_is_where(2) case_prod_beta bump_one insert_link_Some
        split: option.splits)
  with * show ?thesis by blast
qed

lemma write_user_frame [simp]:
  "roles (write_user uid f d) = roles d" "user_roles (write_user uid f d) = user_roles d"
  "permissions (write_user uid f d) = permissions d" "grantable_roles (write_user uid f d) = grantable_roles d"
  "user_permissions (write_user uid f d) = user_permissions d" "tenants (write_user uid f d) = tenants d"
  "users (write_user uid f d) = update_where (\<lambda>u. u_id u = uid) f (users d)"
  "role_permissions (write_user uid f d) = role_permissions d"
  "grantable_permissions (write_user uid f d) = grantable_permissions d"
  by (simp_all add: write_user_def)

text \<open>The lookups of a later request, after the role was given.\<close>

lemma lookups_after_assign:
  assumes d1: "d1 = write_user uid bump_user (d\<lparr>user_roles := user_roles d @ [(uid, rid)]\<rparr>)"
    and role: "get_role rid d = Some role" and user: "get_user_by_id uid d = Some u"
  shows "\<exists>r \<in> set (roles d1). r_id r = rid \<and> get_role rid d1 = Some (load_role d1 r)"
    "get_user_by_id uid d1 = Some (bump_user u)"
    "get_user_with_grants uid d1 = Some (load_user d1 (bump_user u))"
proof -
  from role obtain r where "List.find (\<lambda>r. r_id r = rid) (roles d) = Some r" "r \<in> set (roles d)" "r_id r = rid"
    by (auto simp: get_role_def dest: find_SomeD)
  then show "\<exists>r \<in> set (roles d1). r_id r = rid \<and> get_role rid d1 = Some (load_role d1 r)"
    by (auto simp: d1 get_role_def intro!: bexI [of _ r])
  have "List.find (\<lambda>u. u_id u = uid) (users d1) = Some (bump_user u)"
    using user get_user_by_id_Some [OF user] by (simp add: d1 get_user_by_id_def find_update_where)
  then show "get_user_by_id uid d1 = Some (bump_user u)"
    "get_user_with_grants uid d1 = Some (load_user d1 (bump_user u))"
    by (simp_all add: get_user_with_grants_def get_user_by_id_def)
qed

text \<open>
  C34. Giving a role and taking it back: a user who is not a superuser can only give a role that
  some role of theirs may grant, to a user of their own tenant who does not have it; the user
  then has it and holds every bit of its mask; and the same actor can take it back, which leaves
  exactly the role links there were before.
\<close>

theorem assign_remove_roundtrip:
  assumes "reachable_world w" "assign_role actor uid rid w = (Inr (), w1)"
  shows "(u_is_superuser actor \<or>
      (\<exists>r \<in> set (roles_of actor). (r_id r, rid) \<in> set (grantable_roles (w_db w))) \<and>
      (\<exists>u \<in> set (users (w_db w)). u_id u = uid \<and> u_tenant_id u = u_tenant_id actor)) \<and>
    (uid, rid) \<notin> set (user_roles (w_db w)) \<and>
    (\<exists>role u. get_role rid (w_db w1) = Some role \<and> get_user_with_grants uid (w_db w1) = Some u \<and>
      (\<forall>k. bit (r_permission_mask role) k \<longrightarrow> bit (effective_permission_mask u) k)) \<and>
    (\<exists>w2. remove_role actor uid rid w1 = (Inr (), w2) \<and>
      set (user_roles (w_db w2)) = set (user_roles (w_db w)))"
proof -
  from assign_role_Inr [OF assms(2)] obtain role u where
    a: "can_grant_role actor rid (w_db w)" "get_role rid (w_db w) = Some role"
    "get_user_by_id uid (w_db w) = Some u" "u_is_superuser actor \<or> u_tenant_id u = u_tenant_id actor"
    "(uid, rid) \<notin> set (user_roles (w_db w))"
    and d1: "w_db w1 = write_user uid bump_user (w_db w\<lparr>user_roles := user_roles (w_db w) @ [(uid, rid)]\<rparr>)"
    by blast
  have grant: "u_is_superuser actor \<or> (\<exists>r \<in> set (roles_of actor). (r_id r, rid) \<in> set (grantable_roles (w_db w)))"
    using a(1) by (auto simp: can_grant_role_def get_grantable_role_ids_def split: if_splits)
  note look = lookups_after_assign [OF d1 a(2,3)]
  from look(1) obtain r where r: "r \<in> set (roles (w_db w1))" "r_id r = rid"
    "get_role rid (w_db w1) = Some (load_role (w_db w1) r)" by blast
  have uid: "u_id u = uid" using get_user_by_id_Some [OF a(3)] by simp
  have "bit (effective_permission_mask (load_user (w_db w1) (bump_user u))) k"
    if "bit (r_permission_mask r) k" for k
    using that r(1,2) uid unfolding bit_loaded_mask holds_bit_def by (auto simp: d1)
  moreover have "can_grant_role actor rid (w_db w1) = can_grant_role actor rid (w_db w)"
    by (simp add: can_grant_role_def get_grantable_role_ids_def d1)
  then have "remove_role actor uid rid w1 = remove_from_user rid uid w1"
    using r(3) look(2) a(1,4) by (auto simp: remove_role_def Let_def ensure_same_tenant_def user_has_role_def d1)
  moreover have "\<exists>w2. remove_from_user rid uid w1 = (Inr (), w2) \<and>
      set (user_roles (w_db w2)) = set (user_roles (w_db w))"
    using a(5) by (auto simp: remove_from_user_def Let_def bump_is_where(2) case_prod_beta bump_one d1)
  ultimately show ?thesis
    using grant a(4,5) r(3) look(3) get_user_by_id_Some [OF a(3)] by auto
qed

lemma assign_remove_roundtrip_witness:
  "\<exists>w1. assign_role ann_obj ann 2 sample_world = (Inr (), w1) \<and>
    (\<exists>w2. remove_role ann_obj ann 2 w1 = (Inr (), w2) \<and> set (user_roles (w_db w2)) = {(ann, 1), (bob, 2)})"
proof -
  have "\<exists>w1. assign_role ann_obj ann 2 sample_world = (Inr (), w1)"
  proof -
    have "can_grant_role ann_obj 2 sample_db"
      unfolding can_grant_role_def get_grantable_role_ids_def ann_roles
      by (auto simp: sample_db_def admin_role_def intro!: image_eqI [of _ _ "(1, 2)"])
    moreover have "get_user_by_id ann sample_db = Some ann_row" "(ann, 2) \<notin> set (user_roles sample_db)"
      by (simp_all add: get_user_by_id_def sample_db_def sample_rows)
    moreover have "\<exists>w1. assign_to_user 2 ann sample_world = (Inr (), w1)"
      by (simp add: assign_to_user_def insert_link_def case_prod_beta Let_def sample_world_def)
        (simp add: sample_db_def sample_rows)
    ultimately show ?thesis
      by (simp add: assign_role_def Let_def ensure_same_tenant_def user_has_role_def sample_world_def role_2)
  qed
  then obtain w1 where "assign_role ann_obj ann 2 sample_world = (Inr (), w1)" by blast
  moreover from assign_remove_roundtrip [OF reachable_sample this]
  obtain w2 where "remove_role ann_obj ann 2 w1 = (Inr (), w2)"
    "set (user_roles (w_db w2)) = set (user_roles (w_db sample_world))" by blast
  ultimately show ?thesis by (auto simp: sample_world_def sample_db_def)
qed

subsection \<open>Creating a tenant\<close>

lemma tenant_ceiling_bound: "tenant_ceiling allowed = Inr m \<Longrightarrow> root_role_mask m = m \<and> valid_mask m"
  using tenant_role_mask_bounds
  by (auto simp: tenant_ceiling_def root_role_mask_def map_sum_def and.assoc split: option.splits sum.splits
      intro: le_less_trans [OF AND_upper2])

lemma tenant_create_returns:
  assumes "world_inv w" "valid_mask m" "get_tenant_by_name name (w_db w) = None" "i \<notin> t_id ` set (tenants (w_db w))"
  shows "\<exists>t w'. tenant_create i name m w = (Inr t, w') \<and> t_id t = i \<and> t_name t = name \<and> t_is_active t \<and>
    t_allowed_permission_mask t = m \<and> w_db w' = w_db w\<lparr>tenants := tenants (w_db w) @ [t]\<rparr> \<and> world_step\<^sup>*\<^sup>* w w'"
proof -
  have "world_step\<^sup>*\<^sup>* w (snd (tenant_create i name m w))" by (intro runs_step repo_step.tenant_create)
  moreover have "\<not> (\<exists>t \<in> set (tenants (w_db w)). t_id t = i \<or> t_name t = name)"
    using assms(3,4) by (auto simp: get_tenant_by_name_def find_None_iff)
  ultimately show ?thesis
    using store_mask_valid [OF assms(2)] by (simp add: tenant_create_def Let_def)
qed

lemma create_root_returns:
  assumes inv: "world_inv w" and t: "tenant_exists (w_db w) (Some i)"
    and free: "\<not> role_name_taken (w_db w) ''tenant-admin'' (Some i)"
  shows "\<exists>role w'. create_root_tenant_role i m w = (Inr role, w') \<and> r_tenant_id role = Some i \<and>
    r_permission_mask role = root_role_mask m \<and> world_step\<^sup>*\<^sup>* w w' \<and> loaded_role (w_db w') role \<and>
    r_id role = next_role_id (w_db w) \<and> tenants (w_db w') = tenants (w_db w) \<and> users (w_db w') = users (w_db w) \<and>
    user_permissions (w_db w') = user_permissions (w_db w) \<and> user_roles (w_db w') = user_roles (w_db w) \<and>
    permissions (w_db w') = permissions (w_db w) \<and>
    grantable_permissions (w_db w') = grantable_permissions (w_db w) @
      map (\<lambda>p. (r_id role, p_id p)) (root_role_rows (root_role_mask m) (w_db w))"
proof -
  have "world_step\<^sup>*\<^sup>* w (snd (create_root_tenant_role i m w))"
    by (intro runs_step repo_step.create_root_tenant_role)
  then show ?thesis
    using t free by (auto simp: create_root_tenant_role_def Let_def)
qed

lemma user_create_returns:
  assumes "\<not> exists_by_username n (w_db w)" "\<not> exists_by_email e (w_db w)" "i \<notin> user_ids (w_db w)"
    "tenant_exists (w_db w) tid" "c \<in> user_ids (w_db w)"
  shows "\<exists>u w'. user_create i n e h v su (Some c) tid w = (Inr u, w') \<and> u_id u = i \<and> u_is_superuser u = su \<and>
    u_tenant_id u = tid \<and> u_is_active u \<and> u_perm_version u = 1 \<and>
    w_db w' = w_db w\<lparr>users := users (w_db w) @ [u]\<rparr> \<and> world_step\<^sup>*\<^sup>* w w'"
proof -
  have "world_step\<^sup>*\<^sup>* w (snd (user_create i n e h v su (Some c) tid w))"
    by (intro runs_step repo_step.user_create)
  moreover have "\<not> user_row_taken (w_db w) i n e"
    using assms by (auto simp: exists_by_username_def exists_by_email_def user_row_taken_def)
  ultimately show ?thesis
    using assms(4,5) by (simp add: user_create_def Let_def)
qed

lemma assign_returns:
  assumes "(uid, rid) \<notin> set (user_roles (w_db w))" "uid \<in> user_ids (w_db w)" "rid \<in> role_ids (w_db w)"
  shows "\<exists>w'. assign_to_user rid uid w = (Inr (), w') \<and> world_step\<^sup>*\<^sup>* w w' \<and>
    w_db w' = write_user uid bump_user (w_db w\<lparr>user_roles := user_roles (w_db w) @ [(uid, rid)]\<rparr>)"
proof -
  have "world_step\<^sup>*\<^sup>* w (snd (assign_to_user rid uid w))" by (intro runs_step repo_step.assign_to_user)
  with assms show ?thesis
    by (auto simp: assign_to_user_def Let_def bump_is_where(2) case_prod_beta bump_one insert_link_def)
qed

lemma new_tenant_no_roles:
  assumes "constraints d" "i \<notin> t_id ` set (tenants d)"
  shows "\<not> role_name_taken d name (Some i)"
  using role_tenant_exists [OF assms(1)] assms(2) by (force simp: role_name_taken_def tenant_exists_def)

lemma new_user_no_links:
  assumes "constraints d" "i \<notin> user_ids d"
  shows "(i, r) \<notin> set (user_roles d)" "(i, p) \<notin> set (user_permissions d)"
  using refers_rows(3,5) [OF assms(1)] assms(2) by (auto simp: refers_def)

lemma only_role_mask:
  assumes "constraints d" "r \<in> set (roles d)" "\<And>x. (u_id u, x) \<in> set (user_roles d) \<longleftrightarrow> x = r_id r"
    and "\<And>p. (u_id u, p) \<notin> set (user_permissions d)"
  shows "effective_permission_mask (load_user d u) = r_permission_mask r"
  by (rule bit_eqI) (use assms role_id_unique [OF assms(1) _ assms(2)] in \<open>auto simp: bit_loaded_mask holds_bit_def\<close>)

lemma create_tenant_run:
  assumes inv: "world_inv w" and "loaded_user (w_db w) actor" "u_is_superuser actor"
    and "get_tenant_by_name name (w_db w) = None" "\<not> exists_by_username un (w_db w)" "\<not> exists_by_email em (w_db w)"
    and "tenant_ceiling allowed = Inr m" "ti \<notin> t_id ` set (tenants (w_db w))" "ui \<notin> user_ids (w_db w)"
  shows "\<exists>t u r w4. create_tenant_with_admin ti ui actor name un em h allowed w = (Inr (t, u), w4) \<and>
    world_step\<^sup>*\<^sup>* w w4 \<and> t \<in> set (tenants (w_db w4)) \<and> t_is_active t \<and> t_allowed_permission_mask t = m \<and>
    u_id u = ui \<and> \<not> u_is_superuser u \<and> u_tenant_id u = Some ti \<and> bump_user u \<in> set (users (w_db w4)) \<and>
    r \<in> set (roles (w_db w4)) \<and> r_permission_mask r = m \<and>
    (\<forall>x. (ui, x) \<in> set (user_roles (w_db w4)) \<longleftrightarrow> x = r_id r) \<and>
    (\<forall>p. (ui, p) \<notin> set (user_permissions (w_db w4)))"
proof -
  have m: "root_role_mask m = m" "valid_mask m" using tenant_ceiling_bound [OF assms(7)] by auto
  from tenant_create_returns [OF inv m(2) assms(4,8)] obtain t w1 where
    1: "tenant_create ti name m w = (Inr t, w1)" "t_id t = ti" "t_is_active t" "t_allowed_permission_mask t = m"
    "w_db w1 = w_db w\<lparr>tenants := tenants (w_db w) @ [t]\<rparr>" "world_step\<^sup>*\<^sup>* w w1" by blast
  have inv1: "world_inv w1" using 1(6) inv by (rule world_steps_inv)
  have "\<not> role_name_taken (w_db w1) ''tenant-admin'' (Some ti)"
    using new_tenant_no_roles [OF inv_constraints [OF inv] assms(8)] by (simp add: 1(5) role_name_taken_def)
  moreover have "tenant_exists (w_db w1) (Some ti)" by (simp add: 1(2,5) tenant_exists_def)
  ultimately obtain role w2 where
    2: "create_root_tenant_role ti m w1 = (Inr role, w2)" "r_permission_mask role = m" "world_step\<^sup>*\<^sup>* w1 w2"
    "loaded_role (w_db w2) role" "tenants (w_db w2) = tenants (w_db w1)" "users (w_db w2) = users (w_db w)"
    "user_permissions (w_db w2) = user_permissions (w_db w)" "user_roles (w_db w2) = user_roles (w_db w)"
    using create_root_returns [OF inv1, of ti m] m(1) 1(5) by auto
  have "u_id actor \<in> user_ids (w_db w2)" using assms(2) 2(6) by auto
  moreover have "\<not> exists_by_username un (w_db w2)" "\<not> exists_by_email em (w_db w2)" "ui \<notin> user_ids (w_db w2)"
    using assms(5,6,9) 2(6) by (simp_all add: exists_by_username_def exists_by_email_def)
  moreover have "tenant_exists (w_db w2) (Some ti)" by (simp add: 1(2,5) 2(5) tenant_exists_def)
  ultimately obtain u w3 where
    3: "user_create ui un em (Some h) True False (Some (u_id actor)) (Some ti) w2 = (Inr u, w3)" "u_id u = ui"
    "\<not> u_is_superuser u" "u_tenant_id u = Some ti" "w_db w3 = w_db w2\<lparr>users := users (w_db w2) @ [u]\<rparr>"
    "world_step\<^sup>*\<^sup>* w2 w3"
    using user_create_returns [of un w2 em ui "Some ti" "u_id actor" "Some h" True False] by auto
  note nolinks = new_user_no_links [OF inv_constraints [OF inv] assms(9)]
  obtain w4 where 4: "assign_to_user (r_id role) ui w3 = (Inr (), w4)" "world_step\<^sup>*\<^sup>* w3 w4"
    "w_db w4 = write_user ui bump_user (w_db w3\<lparr>user_roles := user_roles (w_db w3) @ [(ui, r_id role)]\<rparr>)"
    using assign_returns [of ui "r_id role" w3] nolinks(1) 2(4,8) 3(2,5) by auto
  have run: "world_step\<^sup>*\<^sup>* w w4" using 1(6) 2(3) 3(6) 4(2) by (meson rtranclp_trans)
  have call: "create_tenant_with_admin ti ui actor name un em h allowed w = (Inr (t, u), w4)"
    using assms(3-7) 1(1,2) 2(1) 3(1,2) 4(1)
    by (simp add: create_tenant_with_admin_def Let_def and_then_fst)
  from 2(4) obtain r where r: "r \<in> set (roles (w_db w2))" "role = load_role (w_db w2) r" by auto
  show ?thesis
  proof (intro exI conjI)
    show "r \<in> set (roles (w_db w4))" using r(1) by (simp add: 4(3) 3(5))
    show "bump_user u \<in> set (users (w_db w4))" using 3(2) by (auto simp: 4(3) 3(5) set_update_where)
    show "t \<in> set (tenants (w_db w4))" by (simp add: 4(3) 3(5) 2(5) 1(5))
    show "\<forall>x. (ui, x) \<in> set (user_roles (w_db w4)) \<longleftrightarrow> x = r_id r"
      using nolinks(1) r(2) by (auto simp: 4(3) 3(5) 2(8))
    show "\<forall>p. (ui, p) \<notin> set (user_permissions (w_db w4))"
      using nolinks(2) by (simp add: 4(3) 3(5) 2(7))
    show "r_permission_mask r = m" using 2(2) r(2) by simp
  qed (use call run 1 3 in auto)
qed



subsection \<open>Changing a tenant's ceiling\<close>

lemma set_allowed_writes:
  "valid_mask m \<Longrightarrow> set_allowed_permission_mask tenant m w = (Inr (tenant\<lparr>t_allowed_permission_mask := m\<rparr>),
     commit ((w_db w)\<lparr>tenants := update_where (\<lambda>t. t_id t = t_id tenant)
       (\<lambda>t. t\<lparr>t_allowed_permission_mask := m\<rparr>) (tenants (w_db w))\<rparr>) [] w)"
  by (simp add: set_allowed_permission_mask_def store_mask_valid Let_def)

lemma sync_root_writes:
  assumes "constraints (w_db w)" "role \<in> set (roles (w_db w))" "r_tenant_id role = Some t" "r_name role = ''tenant-admin''"
  shows "\<exists>x rows grants. sync_root_tenant_role_permissions t a w = (Inr x,
    (let b = bump_perm_version_for_role_holders (r_id role) (set_role_rows (r_id role) (root_role_mask a) rows grants (w_db w))
     in commit (fst b) (snd b) w))"
proof -
  have "List.find (\<lambda>r. r_tenant_id r = Some t \<and> r_name r = ''tenant-admin'') (roles (w_db w)) = Some role"
    using find_unique [of "\<lambda>r. (r_tenant_id r, r_name r)" "roles (w_db w)" role] assms
    by (simp add: constraints_def role_keys_def)
  then show ?thesis
    by (auto simp: sync_root_tenant_role_permissions_def Let_def case_prod_beta simp flip: set_role_rows_def)
qed

text \<open>
  C33. A superuser's change of a tenant's ceiling takes effect at once: the call succeeds, the tenant has
  the new ceiling, without the permissions reserved to superusers, the role named tenant-admin
  has exactly it as its mask, and the version of every user who holds that role goes up by one. Every
  other role is as it was, and the world is one that single calls reach.
\<close>

theorem new_ceiling_applies:
  assumes "reachable_world w" "u_is_superuser actor" "get_tenant_by_id t (w_db w) = Some tenant"
    and "tenant_ceiling (Some names) = Inr m"
    and role: "role \<in> set (roles (w_db w))" "r_tenant_id role = Some t" "r_name role = ''tenant-admin''"
  shows "\<exists>tenant' w'. update_tenant_permissions actor t names w = (Inr tenant', w') \<and> reachable_world w' \<and>
    tenant' \<in> set (tenants (w_db w')) \<and> t_id tenant' = t \<and> t_allowed_permission_mask tenant' = m \<and>
    mask_subset m TENANT_ROLE_MASK \<and>
    (\<exists>r \<in> set (roles (w_db w')). r_id r = r_id role \<and> r_permission_mask r = m) \<and>
    (\<forall>r \<in> set (roles (w_db w)). r_id r \<noteq> r_id role \<longrightarrow> r \<in> set (roles (w_db w'))) \<and>
    (\<forall>u \<in> set (users (w_db w)). (u_id u, r_id role) \<in> set (user_roles (w_db w)) \<longrightarrow> bump_user u \<in> set (users (w_db w')))"
proof -
  let ?d1 = "(w_db w)\<lparr>tenants := update_where (\<lambda>t. t_id t = t_id tenant)
       (\<lambda>t. t\<lparr>t_allowed_permission_mask := m\<rparr>) (tenants (w_db w))\<rparr>"
  let ?w1 = "commit ?d1 [] w" and ?tenant = "tenant\<lparr>t_allowed_permission_mask := m\<rparr>"
  have inv: "world_inv w" using assms(1) by (simp add: reachable_world_sound)
  from assms(3) have t: "tenant \<in> set (tenants (w_db w))" "t_id tenant = t"
    by (auto simp: get_tenant_by_id_def tenant_by_id_def dest: find_SomeD)
  have m: "m = root_role_mask m" "mask_subset m TENANT_ROLE_MASK"
    using tenant_ceiling_bound [OF assms(4)] by (metis mask_subset_and_left(2) root_role_mask_def)+
  have set: "set_allowed_permission_mask tenant m w = (Inr ?tenant, ?w1)"
    using valid_root_role_mask [of m] m(1) by (intro set_allowed_writes) simp
  have "world_step w ?w1" using repo_step.set_allowed_permission_mask [of w tenant m] by (auto simp: set intro: world_step.repo)
  then have reach1: "reachable_world ?w1" by (rule reachable_world.step [OF assms(1)])
  then have c1: "constraints (w_db ?w1)" using reachable_world_sound by (blast intro: inv_constraints)
  from sync_root_writes [OF c1, of role t m] role obtain x rows grants where
    sync: "sync_root_tenant_role_permissions t m ?w1 = (Inr x,
      (let b = bump_perm_version_for_role_holders (r_id role) (set_role_rows (r_id role) (root_role_mask m) rows grants ?d1)
       in commit (fst b) (snd b) ?w1))"
    by auto
  let ?w2 = "snd (sync_root_tenant_role_permissions t m ?w1)"
  have "world_step ?w1 ?w2" by (intro world_step.repo repo_step.sync_root)
  then have reach2: "reachable_world ?w2" by (rule reachable_world.step [OF reach1])
  have db2: "w_db ?w2 = ?d1\<lparr>users := update_where (\<lambda>u. (u_id u, r_id role) \<in> set (user_roles (w_db w))) bump_user (users (w_db w)),
      roles := update_where (\<lambda>r. r_id r = r_id role) (\<lambda>r. r\<lparr>r_permission_mask := m\<rparr>) (roles (w_db w)),
      role_permissions := rows, grantable_permissions := grants\<rparr>"
    using m(1) by (simp add: sync Let_def bump_holders bump_where_db set_role_rows_def)
  have "update_tenant_permissions actor t names w = (Inr ?tenant, ?w2)"
    using assms(2-4) t sync
    by (simp add: update_tenant_permissions_def get_tenant_def and_then_def set)
  moreover have "?tenant \<in> set (tenants (w_db ?w2))" unfolding db2 using t(1) by (force simp: update_where_def)
  moreover have "\<exists>r \<in> set (roles (w_db ?w2)). r_id r = r_id role \<and> r_permission_mask r = m"
    unfolding db2 using role(1) by (simp del: if_split) (intro bexI [of _ role]; simp)
  moreover have "r \<in> set (roles (w_db ?w2))" if "r \<in> set (roles (w_db w))" "r_id r \<noteq> r_id role" for r
    unfolding db2 using that by (force simp: update_where_def)
  moreover have "bump_user u \<in> set (users (w_db ?w2))"
    if "u \<in> set (users (w_db w))" "(u_id u, r_id role) \<in> set (user_roles (w_db w))" for u
    unfolding db2 using that by (force simp: update_where_def)
  ultimately show ?thesis using reach2 t(2) m(2) by fastforce
qed

text \<open>
  It takes effect for the role of that name only: once a tenant's administrator has renamed it, a
  lowered ceiling leaves the role, and what its holders may do, as it was.
\<close>

lemma renamed_root_role_escapes:
  assumes "constraints (w_db w)" "role \<in> set (roles (w_db w))" "r_tenant_id role = Some t" "r_name role = ''tenant-admin''"
    and "name \<noteq> ''tenant-admin''" "\<not> role_name_taken (w_db w) name (Some t)"
  defines "w1 \<equiv> snd (role_update (load_role (w_db w) role) (Some name) w)"
  shows "sync_root_tenant_role_permissions t a w1 = (Inr None, w1)"
    and "\<exists>r \<in> set (roles (w_db w1)). r_id r = r_id role \<and> r_permission_mask r = r_permission_mask role"
proof -
  have w1: "roles (w_db w1) = update_where (\<lambda>r. r_id r = r_id role) (\<lambda>r. r\<lparr>r_name := name\<rparr>) (roles (w_db w))"
    using assms(3,6) by (auto simp: w1_def role_update_def Let_def role_name_taken_def)
  have "r = role" if "r \<in> set (roles (w_db w))" "r_tenant_id r = Some t" "r_name r = ''tenant-admin''" for r
    using that assms(1-4) inj_onD [of "\<lambda>r. (r_tenant_id r, r_name r)" "set (roles (w_db w))" r role]
    by (simp add: constraints_def role_keys_def distinct_map)
  then have "\<not> (r_tenant_id r = Some t \<and> r_name r = ''tenant-admin'')" if "r \<in> set (roles (w_db w1))" for r
    using that assms(5) unfolding w1 by (auto simp: set_update_where split: if_splits)
  then have "List.find (\<lambda>r. r_tenant_id r = Some t \<and> r_name r = ''tenant-admin'') (roles (w_db w1)) = None"
    by (simp add: find_None_iff)
  then show "sync_root_tenant_role_permissions t a w1 = (Inr None, w1)"
    by (simp add: sync_root_tenant_role_permissions_def)
  show "\<exists>r \<in> set (roles (w_db w1)). r_id r = r_id role \<and> r_permission_mask r = r_permission_mask role"
    unfolding w1 using assms(2) by (simp del: if_split) (intro bexI [of _ role]; simp)
qed

lemma new_ceiling_applies_witness:
  "\<exists>tenant w'. update_tenant_permissions (load_user sample_db root_row) acme [''role:read''] sample_world = (Inr tenant, w') \<and>
     t_allowed_permission_mask tenant = 2 \<and> (\<exists>r \<in> set (roles (w_db w')). r_id r = 1 \<and> r_permission_mask r = 2)"
proof -
  have "tenant_ceiling (Some [''role:read'']) = Inr 2"
    by (simp add: tenant_ceiling_def mask_for_def PERMISSION_REGISTRY_def bit1_def tenant_role_mask_value)
  from new_ceiling_applies [OF reachable_sample _ _ this, of "load_user sample_db root_row" acme acme_row admin_role]
  show ?thesis
    by (auto simp: sample_world_def sample_db_def sample_rows get_tenant_by_id_def tenant_by_id_def)
qed

end
