(* ===== verification/Validation.thy ===== *)
theory Validation
  imports Registry
begin

text \<open>
  \<^verbatim>\<open>app/core/security/validation.py\<close> and \<^verbatim>\<open>app/core/security/data_validation.py\<close>. A \<open>str\<close> is a
  list of characters, read as the code points up to 255; the classes of \<open>re\<close> and the \<open>str\<close>
  methods are Python's on those. A regular expression is what the source's patterns use of
  \<open>re\<close>: classes with a repetition, greedy or lazy, word boundaries, the end of the string and
  look-ahead; alternatives are a list. Matching backtracks in the order Python does, so that
  which text a match covers, and not only whether there is one, is the code's.
\<close>

subsection \<open>Characters\<close>

definition is_lower :: "char \<Rightarrow> bool" where "is_lower c \<longleftrightarrow> c \<in> set ''abcdefghijklmnopqrstuvwxyz''"
definition is_upper :: "char \<Rightarrow> bool" where "is_upper c \<longleftrightarrow> c \<in> set ''ABCDEFGHIJKLMNOPQRSTUVWXYZ''"
definition is_digit :: "char \<Rightarrow> bool" where "is_digit c \<longleftrightarrow> c \<in> set ''0123456789''"
definition is_ascii_alnum :: "char \<Rightarrow> bool" where "is_ascii_alnum c \<longleftrightarrow> is_lower c \<or> is_upper c \<or> is_digit c"

text \<open>
  \<open>\w\<close> and \<open>\s\<close> of a \<open>str\<close> pattern, and \<open>str.lower\<close>: from 192 on all but the two arithmetic signs
  are letters, and an upper-case one differs from its lower-case one in bit 5.
\<close>

definition is_word :: "char \<Rightarrow> bool" where
  "is_word c \<longleftrightarrow> is_ascii_alnum c \<or> c = CHR ''_'' \<or>
     c \<in> set [CHR 0xAA, CHR 0xB2, CHR 0xB3, CHR 0xB5, CHR 0xB9, CHR 0xBA, CHR 0xBC, CHR 0xBD, CHR 0xBE] \<or>
     digit7 c \<and> digit6 c \<and> c \<noteq> CHR 0xD7 \<and> c \<noteq> CHR 0xF7"

definition is_white :: "char \<Rightarrow> bool" where
  "is_white c \<longleftrightarrow> c \<in> set [CHR 0x09, CHR 0x0A, CHR 0x0B, CHR 0x0C, CHR 0x0D, CHR 0x1C, CHR 0x1D,
     CHR 0x1E, CHR 0x1F, CHR 0x20, CHR 0x85, CHR 0xA0]"

fun lower_char :: "char \<Rightarrow> char" where
  "lower_char (Char b0 b1 b2 b3 b4 b5 b6 b7) =
     (let c = Char b0 b1 b2 b3 b4 b5 b6 b7 in
      if is_upper c \<or> b7 \<and> b6 \<and> \<not> b5 \<and> c \<noteq> CHR 0xD7 \<and> c \<noteq> CHR 0xDF
      then Char b0 b1 b2 b3 b4 True b6 b7 else c)"

definition newline :: char where "newline = CHR 0x0A"

definition strip_where :: "(char \<Rightarrow> bool) \<Rightarrow> string \<Rightarrow> string" where
  "strip_where P s = rev (dropWhile P (rev (dropWhile P s)))"

definition py_strip :: "string \<Rightarrow> string" where
  "py_strip s = strip_where is_white s"

text \<open>\<open>xs[:n]\<close>, where a negative \<open>n\<close> counts from the end.\<close>

definition py_take :: "int \<Rightarrow> 'a list \<Rightarrow> 'a list" where
  "py_take n xs = (if 0 \<le> n then take (nat n) xs else take (nat (int (length xs) + n)) xs)"

subsection \<open>Regular expressions\<close>

datatype item =
    Cls "char \<Rightarrow> bool" nat "nat option" bool
  | Bnd
  | Eol
  | Ahead "item list"

definition word_at :: "char option \<Rightarrow> bool" where
  "word_at c = (case c of None \<Rightarrow> False | Some x \<Rightarrow> is_word x)"

definition next_char :: "string \<Rightarrow> char option" where
  "next_char s = (case s of [] \<Rightarrow> None | c # _ \<Rightarrow> Some c)"

text \<open>
  The rest of the text after a match at its start; \<open>prev\<close> is the character before it. The class
  \<open>Cls P lo hi greedy\<close> is repeated between \<open>lo\<close> and \<open>hi\<close> times.
\<close>

fun rmatch :: "item list \<Rightarrow> char option \<Rightarrow> string \<Rightarrow> string option" where
  "rmatch [] prev s = Some s"
| "rmatch (Bnd # is) prev s = (if word_at prev \<noteq> word_at (next_char s) then rmatch is prev s else None)"
| "rmatch (Eol # is) prev s = (if s = [] \<or> s = [newline] then rmatch is prev s else None)"
| "rmatch (Ahead look # is) prev s = (if rmatch look prev s = None then None else rmatch is prev s)"
| "rmatch (Cls P lo hi greedy # is) prev s =
     (let more = (case s of [] \<Rightarrow> None
            | c # s' \<Rightarrow> if hi \<noteq> Some 0 \<and> P c
                then rmatch (Cls P (lo - 1) (map_option (\<lambda>n. n - 1) hi) greedy # is) (Some c) s' else None);
          stop = (if lo = 0 then rmatch is prev s else None)
      in if greedy then (case more of None \<Rightarrow> stop | Some r \<Rightarrow> Some r)
         else (case stop of None \<Rightarrow> more | Some r \<Rightarrow> Some r))"

fun first_match :: "item list list \<Rightarrow> char option \<Rightarrow> string \<Rightarrow> string option" where
  "first_match [] prev s = None"
| "first_match (r # rs) prev s = (case rmatch r prev s of None \<Rightarrow> first_match rs prev s | Some t \<Rightarrow> Some t)"

text \<open>
  \<open>pattern.sub("", s)\<close> for a pattern that does not match the empty text, and \<open>pattern.search(s)\<close>.
\<close>

function re_sub_from :: "item list list \<Rightarrow> char option \<Rightarrow> string \<Rightarrow> string" where
  "re_sub_from rs prev [] = []"
| "re_sub_from rs prev (c # s) =
     (case first_match rs prev (c # s) of
        None \<Rightarrow> c # re_sub_from rs (Some c) s
      | Some t \<Rightarrow>
          if length t < length (c # s)
          then re_sub_from rs (Some ((c # s) ! (length s - length t))) t
          else c # re_sub_from rs (Some c) s)"
  by pat_completeness auto
termination by (relation "measure (\<lambda>(rs, prev, s). length s)") auto

definition re_sub :: "item list list \<Rightarrow> string \<Rightarrow> string" where
  "re_sub rs s = re_sub_from rs None s"

fun re_search_from :: "item list list \<Rightarrow> char option \<Rightarrow> string \<Rightarrow> bool" where
  "re_search_from rs prev s =
     (first_match rs prev s \<noteq> None \<or> (case s of [] \<Rightarrow> False | c # s' \<Rightarrow> re_search_from rs (Some c) s'))"

definition re_search :: "item list list \<Rightarrow> string \<Rightarrow> bool" where
  "re_search rs s = re_search_from rs None s"

definition re_match :: "item list \<Rightarrow> string \<Rightarrow> bool" where
  "re_match r s \<longleftrightarrow> rmatch r None s \<noteq> None"

abbreviation one :: "(char \<Rightarrow> bool) \<Rightarrow> item" where "one P \<equiv> Cls P 1 (Some 1) True"
abbreviation star :: "(char \<Rightarrow> bool) \<Rightarrow> item" where "star P \<equiv> Cls P 0 None True"
abbreviation plus :: "(char \<Rightarrow> bool) \<Rightarrow> item" where "plus P \<equiv> Cls P 1 None True"
abbreviation lazy :: "(char \<Rightarrow> bool) \<Rightarrow> item" where "lazy P \<equiv> Cls P 0 None False"
abbreviation not_newline :: "char \<Rightarrow> bool" where "not_newline c \<equiv> c \<noteq> newline"

text \<open>A literal under \<open>re.IGNORECASE\<close>.\<close>

definition lit :: "string \<Rightarrow> item list" where
  "lit s = map (\<lambda>c. one (\<lambda>x. lower_char x = lower_char c)) s"

definition quote_class :: "char \<Rightarrow> bool" where
  "quote_class c \<longleftrightarrow> c = CHR 34 \<or> c = CHR 39"

definition SQL_KEYWORDS_RE :: "item list list" where
  "SQL_KEYWORDS_RE = map (\<lambda>r. [Bnd] @ r @ [Bnd])
     (map lit [''SELECT'', ''INSERT'', ''UPDATE'', ''DELETE'', ''DROP'', ''ALTER'', ''CREATE'',
        ''TRUNCATE'', ''EXEC'', ''UNION''] @
      [lit ''OR'' @ [plus is_white, plus is_digit, star is_white] @ lit ''='' @ [star is_white, plus is_digit],
       lit [CHR 39] @ [star is_white] @ lit ''OR'' @ [star is_white] @ lit [CHR 39]])"

definition XSS_PATTERNS :: "item list list" where
  "XSS_PATTERNS =
     [lit ''<script'' @ [star (\<lambda>c. c \<noteq> CHR ''>'')] @ lit ''>'' @ [lazy (\<lambda>c. True)] @ lit ''</script>'',
      lit ''javascript'' @ [star is_white] @ lit '':'',
      lit ''on'' @ [plus is_word, star is_white] @ lit ''='' @
        [star is_white, one quote_class, lazy not_newline, one quote_class],
      lit ''<iframe'' @ [star (\<lambda>c. c \<noteq> CHR ''>'')] @ lit ''>'',
      lit ''&#'' @ [Cls (\<lambda>c. lower_char c = CHR ''x'') 0 (Some 1) True,
        plus (\<lambda>c. lower_char c \<in> set ''0123456789abcdef'')] @ lit '';'']"

subsection \<open>Sanitization\<close>

fun html_char :: "char \<Rightarrow> string" where
  "html_char c =
     (if c = CHR ''&'' then ''&amp;'' else if c = CHR ''<'' then ''&lt;'' else if c = CHR ''>'' then ''&gt;''
      else if c = CHR 34 then ''&quot;'' else if c = CHR 39 then ''&#x27;'' else [c])"

definition strip_html :: "string \<Rightarrow> string" where
  "strip_html value = concat (map html_char value)"

definition sanitize_text :: "string \<Rightarrow> string" where
  "sanitize_text value = py_strip (re_sub SQL_KEYWORDS_RE (foldl (\<lambda>v p. re_sub [p] v) value XSS_PATTERNS))"

text \<open>On a \<open>str\<close>, which \<open>str(value)\<close> leaves as it is.\<close>

definition safe_str :: "string \<Rightarrow> string" where
  "safe_str value = sanitize_text (strip_html value)"

definition identifier_char :: "char \<Rightarrow> bool" where
  "identifier_char c \<longleftrightarrow> is_ascii_alnum c \<or> c \<in> {CHR ''_'', CHR ''.'', CHR ''-''}"

definition sanitize_identifier :: "string \<Rightarrow> int \<Rightarrow> string" where
  "sanitize_identifier value max_len =
     (let cleaned = py_take max_len (filter identifier_char value) in
      if cleaned = [] then ''user'' else cleaned)"

subsection \<open>Validators\<close>

definition EMAIL_RE :: "item list" where
  "EMAIL_RE = [plus (\<lambda>c. is_ascii_alnum c \<or> c \<in> {CHR ''_'', CHR ''.'', CHR ''+'', CHR ''-''}),
     one (\<lambda>c. c = CHR ''@''), plus (\<lambda>c. is_ascii_alnum c \<or> c = CHR ''-''),
     one (\<lambda>c. c = CHR ''.''), plus (\<lambda>c. is_ascii_alnum c \<or> c = CHR ''-'' \<or> c = CHR ''.''), Eol]"

definition PHONE_RE :: "item list" where
  "PHONE_RE = [Cls (\<lambda>c. c = CHR ''+'') 0 (Some 1) True, one (\<lambda>c. is_digit c \<and> c \<noteq> CHR ''0''),
     Cls is_digit 6 (Some 14) True, Eol]"

definition special_char :: "char \<Rightarrow> bool" where
  "special_char c \<longleftrightarrow> c \<in> set ''!@#$%^&*()_+-=[]{};:|,.<>/?'' \<or> c = CHR 39 \<or> c = CHR 34 \<or> c = CHR 92"

definition STRONG_PASSWORD_RE :: "item list" where
  "STRONG_PASSWORD_RE =
     [Ahead [star not_newline, one is_lower], Ahead [star not_newline, one is_upper],
      Ahead [star not_newline, one is_digit], Ahead [star not_newline, one special_char],
      Cls not_newline 8 (Some 128) True, Eol]"

definition IDENTIFIER_RE :: "item list" where
  "IDENTIFIER_RE = [plus (\<lambda>c. identifier_char c \<or> c = CHR '':''), Eol]"

definition validate_email :: "string \<Rightarrow> exn + string" where
  "validate_email value = (if \<not> re_match EMAIL_RE value then Inl (ValueError ''Invalid email format'')
     else Inr (py_strip (map lower_char value)))"

definition validate_phone :: "string \<Rightarrow> exn + string" where
  "validate_phone value = (if \<not> re_match PHONE_RE value then Inl (ValueError ''Invalid phone number format'')
     else Inr (py_strip value))"

definition validate_strong_password :: "string \<Rightarrow> exn + string" where
  "validate_strong_password value =
     (if \<not> re_match STRONG_PASSWORD_RE value
      then Inl (ValueError ''Password must be 8-128 chars with uppercase, lowercase, digit, and special character'')
      else Inr value)"

definition validate_no_sql_injection :: "string \<Rightarrow> exn + string" where
  "validate_no_sql_injection value =
     (if re_search SQL_KEYWORDS_RE value
      then Inl (ValueError ''Value contains potentially dangerous SQL patterns'')
      else Inr (py_strip value))"

definition validate_length :: "nat \<Rightarrow> nat \<Rightarrow> string \<Rightarrow> exn + string" where
  "validate_length min_len max_len value =
     (if \<not> (min_len \<le> length value \<and> length value \<le> max_len)
      then Inl (ValueError (''Length must be between '' @ str_int (int min_len) @ '' and '' @ str_int (int max_len)))
      else Inr value)"

definition validate_identifier :: "string \<Rightarrow> exn + string" where
  "validate_identifier value =
     (let value = py_strip value in
      if \<not> re_match IDENTIFIER_RE value
      then Inl (ValueError (''Must contain only letters, numbers, '' @ [CHR 39] @ ''.'' @ [CHR 39] @ '', '' @
        [CHR 39] @ ''_'' @ [CHR 39] @ '', '' @ [CHR 39] @ ''-'' @ [CHR 39] @ '', or '' @ [CHR 39] @ '':'' @ [CHR 39]))
      else Inr value)"

text \<open>\<open>PaginationParams\<close>: the bounds of its fields (None for a ValidationError).\<close>

record pagination_params =
  pg_page :: int
  pg_page_size :: int

definition pagination_dependency :: "int \<Rightarrow> int \<Rightarrow> pagination_params option" where
  "pagination_dependency page_number page_size =
     (if 1 \<le> page_number \<and> page_number \<le> 10000 \<and> 1 \<le> page_size \<and> page_size \<le> 100
      then Some \<lparr>pg_page = page_number, pg_page_size = page_size\<rparr> else None)"

text \<open>
  The strict variant coerces first: \<open>coerce\<close> is Python's \<open>int\<close> on the value given, None where it
  raises TypeError or ValueError.
\<close>

definition coerce_ints :: "('v \<Rightarrow> int option) \<Rightarrow> 'v \<Rightarrow> exn + int" where
  "coerce_ints coerce v = (case coerce v of Some i \<Rightarrow> Inr i | None \<Rightarrow> Inl (ValueError ''Must be a valid integer''))"

definition StrictPaginationParams :: "('v \<Rightarrow> int option) \<Rightarrow> 'v option \<Rightarrow> 'v option \<Rightarrow> pagination_params option" where
  "StrictPaginationParams coerce page_number page_size =
     (let field = (\<lambda>default v. case v of None \<Rightarrow> Inr default | Some x \<Rightarrow> coerce_ints coerce x) in
      case (field 1 page_number, field 20 page_size) of
        (Inr p, Inr n) \<Rightarrow> pagination_dependency p n
      | _ \<Rightarrow> None)"

lemma strict_pagination_bounds:
  "StrictPaginationParams coerce p n = Some q \<Longrightarrow>
     1 \<le> pg_page q \<and> pg_page q \<le> 10000 \<and> 1 \<le> pg_page_size q \<and> pg_page_size q \<le> 100"
  by (auto simp: StrictPaginationParams_def pagination_dependency_def Let_def split: sum.splits if_splits)

subsection \<open>Identifiers\<close>

lemma set_py_take: "set (py_take n xs) \<subseteq> set xs"
  by (auto simp: py_take_def dest: in_set_takeD)

lemma sanitize_identifier_chars: "\<forall>c \<in> set (sanitize_identifier v n). identifier_char c"
proof -
  have "\<forall>c \<in> set ''user''. identifier_char c"
    by (simp add: identifier_char_def is_ascii_alnum_def is_lower_def)
  then show ?thesis using set_py_take [of n "filter identifier_char v"]
    by (auto simp: sanitize_identifier_def Let_def)
qed

lemma sanitize_identifier_length:
  "sanitize_identifier v n \<noteq> []" "4 \<le> n \<Longrightarrow> int (length (sanitize_identifier v n)) \<le> n"
  by (auto simp: sanitize_identifier_def Let_def py_take_def)

subsection \<open>The password pattern\<close>

lemma rmatch_star_one:
  assumes "\<And>c. Q c \<Longrightarrow> P c"
  shows "rmatch [star P, one Q] prev s \<noteq> None \<longleftrightarrow> (\<exists>c \<in> set (takeWhile P s). Q c)"
proof (induction s arbitrary: prev)
  case (Cons c s)
  then show ?case using assms [of c] by (subst rmatch.simps) (auto split: option.split)
qed simp

lemma rmatch_greedy_step:
  "rmatch (Cls P lo hi True # is') prev (c # s) \<noteq> None \<longleftrightarrow>
     (hi \<noteq> Some 0 \<and> P c \<and> rmatch (Cls P (lo - 1) (map_option (\<lambda>n. n - 1) hi) True # is') (Some c) s \<noteq> None) \<or>
     (lo = 0 \<and> rmatch is' prev (c # s) \<noteq> None)"
  unfolding rmatch.simps(5) [of P lo hi True is' prev "c # s"] Let_def
  by (simp del: rmatch.simps split: option.split)

text \<open>A repeated class up to the end of the text.\<close>

definition within :: "nat \<Rightarrow> nat option \<Rightarrow> bool" where
  "within k hi \<longleftrightarrow> (case hi of None \<Rightarrow> True | Some h \<Rightarrow> k \<le> h)"

lemma within_simps [simp]: "within k None" "within k (Some h) \<longleftrightarrow> k \<le> h"
  by (simp_all add: within_def)

lemma rmatch_times_end:
  "rmatch [Cls P lo hi True, Eol] prev s \<noteq> None \<longleftrightarrow>
     (\<exists>k. lo \<le> k \<and> within k hi \<and> k \<le> length (takeWhile P s) \<and> (drop k s = [] \<or> drop k s = [newline]))"
proof (induction s arbitrary: lo hi prev)
  case Nil
  then show ?case by (auto simp: within_def split: option.split)
next
  case (Cons c s)
  let ?hi = "map_option (\<lambda>n. n - 1) hi"
  have hi: "within (Suc m) hi \<longleftrightarrow> hi \<noteq> Some 0 \<and> within m ?hi" for m by (cases hi) auto
  show ?case
  proof
    assume "rmatch [Cls P lo hi True, Eol] prev (c # s) \<noteq> None"
    then consider "hi \<noteq> Some 0 \<and> P c \<and> rmatch [Cls P (lo - 1) ?hi True, Eol] (Some c) s \<noteq> None"
      | "lo = 0 \<and> c # s = [newline]"
      unfolding rmatch_greedy_step by (auto simp del: rmatch.simps(5) split: if_splits)
    then show "\<exists>k. lo \<le> k \<and> within k hi \<and> k \<le> length (takeWhile P (c # s)) \<and>
        (drop k (c # s) = [] \<or> drop k (c # s) = [newline])"
    proof cases
      case 1
      with Cons.IH obtain k where "lo - 1 \<le> k" "within k ?hi" "k \<le> length (takeWhile P s)"
        "drop k s = [] \<or> drop k s = [newline]" by blast
      with 1 hi show ?thesis by (intro exI [of _ "Suc k"]) auto
    next
      case 2
      then show ?thesis by (intro exI [of _ 0]) (auto simp: within_def split: option.split)
    qed
  next
    assume "\<exists>k. lo \<le> k \<and> within k hi \<and> k \<le> length (takeWhile P (c # s)) \<and>
        (drop k (c # s) = [] \<or> drop k (c # s) = [newline])"
    then obtain k where k: "lo \<le> k" "within k hi" "k \<le> length (takeWhile P (c # s))"
      "drop k (c # s) = [] \<or> drop k (c # s) = [newline]" by blast
    show "rmatch [Cls P lo hi True, Eol] prev (c # s) \<noteq> None"
    proof (cases k)
      case 0
      with k show ?thesis unfolding rmatch_greedy_step by (auto simp del: rmatch.simps(5))
    next
      case (Suc m)
      with k hi have "hi \<noteq> Some 0" "P c" by (auto split: if_splits)
      moreover have "rmatch [Cls P (lo - 1) ?hi True, Eol] (Some c) s \<noteq> None"
        unfolding Cons.IH using k hi Suc by (intro exI [of _ m]) (auto split: if_splits)
      ultimately show ?thesis unfolding rmatch_greedy_step by blast
    qed
  qed
qed

lemma take_line: "k \<le> length (takeWhile P s) \<Longrightarrow> takeWhile P s = take k s @ takeWhile P (drop k s)"
proof (induction s arbitrary: k)
  case (Cons c s)
  then show ?case by (cases k) (auto split: if_splits)
qed simp

definition strong_password :: "string \<Rightarrow> bool" where
  "strong_password value \<longleftrightarrow> (let line = takeWhile not_newline value in
     (value = line \<or> value = line @ [newline]) \<and> 8 \<le> length line \<and> length line \<le> 128 \<and>
     (\<exists>c \<in> set line. is_lower c) \<and> (\<exists>c \<in> set line. is_upper c) \<and>
     (\<exists>c \<in> set line. is_digit c) \<and> (\<exists>c \<in> set line. special_char c))"

lemma newline_class [simp]:
  "\<not> is_lower newline" "\<not> is_upper newline" "\<not> is_digit newline" "\<not> special_char newline"
  by (simp_all add: is_lower_def is_upper_def is_digit_def special_char_def newline_def)

lemma ends_line:
  "(\<exists>k. lo \<le> k \<and> within k hi \<and> k \<le> length (takeWhile not_newline s) \<and> (drop k s = [] \<or> drop k s = [newline])) \<longleftrightarrow>
   (s = takeWhile not_newline s \<or> s = takeWhile not_newline s @ [newline]) \<and>
     lo \<le> length (takeWhile not_newline s) \<and> within (length (takeWhile not_newline s)) hi"
  (is "?l = ?r")
proof
  assume ?l
  then obtain k where k: "lo \<le> k" "within k hi" "k \<le> length (takeWhile not_newline s)"
    "drop k s = [] \<or> drop k s = [newline]" by blast
  from k(4) take_line [OF k(3)] have t: "takeWhile not_newline s = take k s" by auto
  then have "length (takeWhile not_newline s) = k" using k(3) by (metis length_take min.absorb_iff2 min_def)
  with k t append_take_drop_id [of k s] show ?r by (metis append_Nil2)
next
  assume r: ?r
  let ?line = "takeWhile not_newline s"
  have "drop (length ?line) s = [] \<or> drop (length ?line) s = [newline]"
    using r by (metis append_eq_conv_conj drop_all order_refl)
  with r show ?l by (intro exI [of _ "length ?line"]) auto
qed

text \<open>
  C35. What the password pattern accepts: exactly the texts that are one line of 8 to 128
  characters, possibly followed by one line feed, with a lower-case letter, an upper-case letter, a
  digit and a special character among them; an accepted password is passed on as it is (the
  line feed included), any other raises ValueError.
\<close>

theorem strong_password_accepted:
  "validate_strong_password s =
     (if strong_password s then Inr s
      else Inl (ValueError ''Password must be 8-128 chars with uppercase, lowercase, digit, and special character''))"
proof -
  have look: "rmatch (Ahead [star not_newline, one Q] # rs) prev s =
      (if \<exists>c \<in> set (takeWhile not_newline s). Q c then rmatch rs prev s else None)"
    if "\<not> Q newline" for Q rs prev
  proof -
    have "Q c \<Longrightarrow> not_newline c" for c using that by blast
    from rmatch_star_one [where Q = Q and P = not_newline and prev = prev and s = s, OF this] show ?thesis by auto
  qed
  have "re_match STRONG_PASSWORD_RE s \<longleftrightarrow> strong_password s"
    unfolding re_match_def STRONG_PASSWORD_RE_def strong_password_def Let_def
      look [where Q = is_lower, OF newline_class(1)] look [where Q = is_upper, OF newline_class(2)]
      look [where Q = is_digit, OF newline_class(3)] look [where Q = special_char, OF newline_class(4)]
    using ends_line [of 8 "Some 128" s] rmatch_times_end [of not_newline 8 "Some 128" None s]
    by (simp del: rmatch.simps)
  then show ?thesis by (simp add: validate_strong_password_def)
qed

text \<open>
  The sanitizer can assemble what it removes: each pattern is removed in one pass, so the
  pieces around a removed script element may form another. There is a text from which
  \<open>sanitize_text\<close> makes a complete script element; applied again, it removes that too.
\<close>

lemma sanitize_text_reassembles:
  "\<exists>value. sanitize_text value = ''<script>alert(1)</script>'' \<and> sanitize_text (sanitize_text value) = []"
proof -
  have 1: "sanitize_text ''<scr<script></script>ipt>alert(1)</scr<script></script>ipt>'' =
      ''<script>alert(1)</script>''" by code_simp
  have 2: "sanitize_text ''<script>alert(1)</script>'' = []" by code_simp
  show ?thesis
    by (intro exI [of _ "''<scr<script></script>ipt>alert(1)</scr<script></script>ipt>''"])
      (simp only: 1 2 simp_thms)
qed

subsection \<open>The identifier pattern\<close>

lemma strip_where_last: "strip_where P s \<noteq> [] \<Longrightarrow> \<not> P (last (strip_where P s))"
  by (simp add: strip_where_def last_rev hd_dropWhile)

lemma newline_white [simp]: "is_white newline"
  by (simp add: is_white_def newline_def)

lemma rmatch_plus_end:
  assumes "s \<noteq> [] \<Longrightarrow> last s \<noteq> newline"
  shows "re_match [plus P, Eol] s \<longleftrightarrow> s \<noteq> [] \<and> list_all P s"
proof -
  have end_ne: "drop k s \<noteq> [newline]" for k
  proof
    assume "drop k s = [newline]"
    then have "s = take k s @ [newline]" using append_take_drop_id [of k s] by simp
    then show False using assms by (metis last_snoc snoc_eq_iff_butlast)
  qed
  have "re_match [plus P, Eol] s \<longleftrightarrow> (\<exists>k. 1 \<le> k \<and> k \<le> length (takeWhile P s) \<and> length s \<le> k)"
    unfolding re_match_def rmatch_times_end using end_ne by auto
  also have "\<dots> \<longleftrightarrow> s \<noteq> [] \<and> takeWhile P s = s"
  proof
    assume "\<exists>k. 1 \<le> k \<and> k \<le> length (takeWhile P s) \<and> length s \<le> k"
    then have l: "length s \<le> length (takeWhile P s)" "takeWhile P s \<noteq> []" by auto
    then have "take (length (takeWhile P s)) s = s" by simp
    with l(2) show "s \<noteq> [] \<and> takeWhile P s = s" using takeWhile_eq_take [of P s] by auto
  next
    assume "s \<noteq> [] \<and> takeWhile P s = s"
    then show "\<exists>k. 1 \<le> k \<and> k \<le> length (takeWhile P s) \<and> length s \<le> k"
      by (intro exI [of _ "length s"]) (auto simp: Suc_le_eq simp del: takeWhile_eq_all_conv)
  qed
  finally show ?thesis by (simp add: takeWhile_eq_all_conv list_all_iff)
qed

text \<open>
  C36. Names of roles, permissions and tenants go through an allow-list: what is accepted is the
  text without surrounding white space, when it is not empty and consists of letters, digits and
  the four signs; every name of the permission catalog is accepted as it is, whereas the
  sanitizer for free text would cut the verb off such a name.
\<close>

theorem identifier_allow_list:
  "(case validate_identifier v of
      Inr r \<Rightarrow> r = py_strip v \<and> r \<noteq> [] \<and> list_all (\<lambda>c. identifier_char c \<or> c = CHR '':'') r
    | Inl e \<Rightarrow> \<not> (py_strip v \<noteq> [] \<and> list_all (\<lambda>c. identifier_char c \<or> c = CHR '':'') (py_strip v))) \<and>
   map (\<lambda>(n, b). validate_identifier n) PERMISSION_REGISTRY = map (\<lambda>(n, b). Inr n) PERMISSION_REGISTRY \<and>
   sanitize_text ''permission:create'' = ''permission:''"
proof (intro conjI)
  have "py_strip v \<noteq> [] \<Longrightarrow> last (py_strip v) \<noteq> newline"
    using strip_where_last [of is_white v] newline_white by (metis py_strip_def)
  from rmatch_plus_end [OF this]
  show "case validate_identifier v of
      Inr r \<Rightarrow> r = py_strip v \<and> r \<noteq> [] \<and> list_all (\<lambda>c. identifier_char c \<or> c = CHR '':'') r
    | Inl e \<Rightarrow> \<not> (py_strip v \<noteq> [] \<and> list_all (\<lambda>c. identifier_char c \<or> c = CHR '':'') (py_strip v))"
    by (auto simp: validate_identifier_def IDENTIFIER_RE_def Let_def)
  show "map (\<lambda>(n, b). validate_identifier n) PERMISSION_REGISTRY = map (\<lambda>(n, b). Inr n) PERMISSION_REGISTRY"
    by code_simp
  show "sanitize_text ''permission:create'' = ''permission:''" by code_simp
qed

end
