(* ===== verification/Schemas.thy ===== *)
theory Schemas
  imports UserService Validation "HOL-Library.List_Lexorder" "HOL-Library.Char_ord"
begin

text \<open>
  \<^verbatim>\<open>app/schema/\<close>: what pydantic makes of a request body and of the object an endpoint returns. A
  body that does not fit is a RequestValidationError, an object that does not fit the response
  model a ResponseValidationError. The validators run first, then the bounds on the length, in the
  order of the annotations. The check of an address (\<open>EmailStr\<close>) belongs to a library and is a
  parameter, None for an address it refuses.
\<close>

subsection \<open>Fields\<close>

definition bind_sum :: "'e + 'a \<Rightarrow> ('a \<Rightarrow> 'e + 'b) \<Rightarrow> 'e + 'b" where
  "bind_sum r f = (case r of Inl e \<Rightarrow> Inl e | Inr x \<Rightarrow> f x)"

fun traverse :: "('a \<Rightarrow> 'e + 'b) \<Rightarrow> 'a list \<Rightarrow> 'e + 'b list" where
  "traverse f [] = Inr []"
| "traverse f (x # xs) = bind_sum (f x) (\<lambda>y. bind_sum (traverse f xs) (\<lambda>ys. Inr (y # ys)))"

definition validated :: "exn + 'a \<Rightarrow> exn + 'a" where
  "validated r = map_sum (\<lambda>_. RequestValidationError) id r"

definition length_between :: "nat \<Rightarrow> nat \<Rightarrow> string \<Rightarrow> exn + string" where
  "length_between lo hi v = (if lo \<le> length v \<and> length v \<le> hi then Inr v else Inl RequestValidationError)"

definition SafeIdentifier :: "string \<Rightarrow> exn + string" where
  "SafeIdentifier v = validated (validate_identifier v)"

definition StrongPassword :: "string \<Rightarrow> exn + string" where
  "StrongPassword v = validated (validate_strong_password v)"

definition SafeStr :: "string \<Rightarrow> exn + string" where
  "SafeStr v = Inr (sanitize_text v)"

definition SafeEmail :: "string \<Rightarrow> exn + string" where
  "SafeEmail v = bind_sum (validated (validate_email v)) SafeStr"

definition EmailStr :: "(string \<Rightarrow> string option) \<Rightarrow> string \<Rightarrow> exn + string" where
  "EmailStr E v = (case E v of None \<Rightarrow> Inl RequestValidationError | Some e \<Rightarrow> Inr e)"

subsection \<open>Requests\<close>

definition RoleBase :: "string \<Rightarrow> exn + string" where
  "RoleBase name = bind_sum (SafeIdentifier name) (length_between 1 100)"

definition RoleCreate :: "string \<Rightarrow> string list \<Rightarrow> exn + string \<times> string list" where
  "RoleCreate name permission_names =
     bind_sum (RoleBase name) (\<lambda>n. bind_sum (traverse SafeIdentifier permission_names) (\<lambda>ps. Inr (n, ps)))"

record user_fields =
  uf_username :: string
  uf_email :: string
  uf_password :: string

text \<open>\<open>UserCreate\<close>, which an administrator sends, and \<open>UserRegister\<close> have the same fields.\<close>

definition UserCreate :: "(string \<Rightarrow> string option) \<Rightarrow> string \<Rightarrow> string \<Rightarrow> string \<Rightarrow> exn + user_fields" where
  "UserCreate E username email password =
     bind_sum (bind_sum (SafeStr username) (length_between 3 50)) (\<lambda>n.
     bind_sum (EmailStr E email) (\<lambda>e.
     bind_sum (StrongPassword password) (\<lambda>p. Inr \<lparr>uf_username = n, uf_email = e, uf_password = p\<rparr>)))"

definition UserRegister :: "(string \<Rightarrow> string option) \<Rightarrow> string \<Rightarrow> string \<Rightarrow> string \<Rightarrow> exn + user_fields" where
  "UserRegister E username email password =
     bind_sum (bind_sum (SafeStr username) (length_between 3 50)) (\<lambda>n.
     bind_sum (EmailStr E email) (\<lambda>e.
     bind_sum (StrongPassword password) (\<lambda>p. Inr \<lparr>uf_username = n, uf_email = e, uf_password = p\<rparr>)))"

record tenant_fields =
  tf_name :: string
  tf_admin :: user_fields
  tf_allowed_permissions :: "string list option"

definition TenantCreate :: "(string \<Rightarrow> string option) \<Rightarrow> string \<Rightarrow> string \<Rightarrow> string \<Rightarrow> string \<Rightarrow> string list option \<Rightarrow>
    exn + tenant_fields" where
  "TenantCreate E name admin_username admin_email admin_password allowed =
     bind_sum (SafeIdentifier name) (\<lambda>t.
     bind_sum (SafeStr admin_username) (\<lambda>n.
     bind_sum (EmailStr E admin_email) (\<lambda>e.
     bind_sum (StrongPassword admin_password) (\<lambda>p.
     bind_sum (case allowed of None \<Rightarrow> Inr None | Some ns \<Rightarrow> map_sum id Some (traverse SafeIdentifier ns)) (\<lambda>a.
       Inr \<lparr>tf_name = t, tf_admin = \<lparr>uf_username = n, uf_email = e, uf_password = p\<rparr>,
            tf_allowed_permissions = a\<rparr>)))))"

definition TenantPermissionsUpdate :: "string list \<Rightarrow> exn + string list" where
  "TenantPermissionsUpdate names = traverse SafeIdentifier names"

subsection \<open>Responses\<close>

text \<open>The response models of roles and permissions check the name of a row as that of a request.\<close>

definition responds :: "exn + 'a \<Rightarrow> exn + 'a" where
  "responds r = map_sum (\<lambda>_. ResponseValidationError) id r"

record role_response =
  rr_name :: string
  rr_id :: int
  rr_permissions :: "string list"

definition role_response_of :: "role_obj \<Rightarrow> exn + role_response" where
  "role_response_of role = bind_sum (responds (RoleBase (r_name role))) (\<lambda>n.
     Inr \<lparr>rr_name = n, rr_id = r_id role, rr_permissions = map p_name (permissions_of role)\<rparr>)"

record permission_response =
  pe_name :: string
  pe_id :: int

definition permission_response_of :: "permission \<Rightarrow> exn + permission_response" where
  "permission_response_of p = bind_sum (responds (bind_sum (SafeIdentifier (p_name p)) (length_between 1 100)))
     (\<lambda>n. Inr \<lparr>pe_name = n, pe_id = p_id p\<rparr>)"

record tenant_response =
  te_id :: uuid
  te_name :: string
  te_is_active :: bool
  te_allowed_permissions :: "string list"

definition tenant_response_of :: "tenant \<Rightarrow> tenant_response" where
  "tenant_response_of t = \<lparr>te_id = t_id t, te_name = t_name t, te_is_active = t_is_active t,
     te_allowed_permissions = allowed_permissions t\<rparr>"

record tenant_admin_response =
  ta_id :: uuid
  ta_username :: string
  ta_email :: string

definition tenant_admin_response_of :: "user \<Rightarrow> tenant_admin_response" where
  "tenant_admin_response_of u = \<lparr>ta_id = u_id u, ta_username = u_username u, ta_email = u_email u\<rparr>"

record user_list_item =
  ul_id :: uuid
  ul_username :: string
  ul_email :: string
  ul_is_verified :: bool
  ul_is_superuser :: bool
  ul_is_active :: bool
  ul_created_by_id :: "uuid option"
  ul_roles :: "string list"

definition user_list_item_of :: "user_obj \<Rightarrow> user_list_item" where
  "user_list_item_of u = \<lparr>ul_id = u_id u, ul_username = u_username u, ul_email = u_email u,
     ul_is_verified = u_is_verified u, ul_is_superuser = u_is_superuser u, ul_is_active = u_is_active u,
     ul_created_by_id = u_created_by_id u, ul_roles = map r_name (roles_of u)\<rparr>"

record user_detail_response = user_list_item +
  ud_permissions :: "string list"
  ud_effective_permissions :: "string list"

definition user_detail_response_of :: "user_detail \<Rightarrow> user_detail_response" where
  "user_detail_response_of x =
     user_list_item.extend (user_list_item_of (detail_user x))
       \<lparr>ud_permissions = map p_name (direct_permissions (detail_user x)),
        ud_effective_permissions = sorted_list_of_set (detail_effective_permissions x)\<rparr>"

record summary =
  su_id :: int
  su_name :: string

record grantable_summary =
  gs_is_superuser :: bool
  gs_effective_permissions :: "string list"
  gs_grantable_roles :: "summary list"
  gs_grantable_permissions :: "summary list"

definition grantable_summary_of :: "grants \<Rightarrow> grantable_summary" where
  "grantable_summary_of g = \<lparr>gs_is_superuser = g_is_superuser g,
     gs_effective_permissions = sorted_list_of_set (g_effective_permissions g),
     gs_grantable_roles = map (\<lambda>r. \<lparr>su_id = r_id r, su_name = r_name r\<rparr>) (g_grantable_roles g),
     gs_grantable_permissions = map (\<lambda>p. \<lparr>su_id = p_id p, su_name = p_name p\<rparr>) (g_grantable_permissions g)\<rparr>"

end
