(* ===== verification/RateLimit.thy ===== *)
theory RateLimit
  imports PyValues
begin

text \<open>
  \<^verbatim>\<open>app/core/ratelimit/sliding_window.py\<close> and \<^verbatim>\<open>app/core/ratelimit/limiters.py\<close>: the sliding-window
  limiter on Redis sorted sets. Times are microseconds since the epoch (the code's
  \<open>time.time()\<close> is a float of seconds); a key whose time to live has run out is gone. The
  random part of a member is an argument.
\<close>

record zset =
  z_members :: "(string \<times> int) list"
  z_expires :: int

type_synonym store = "string \<rightharpoonup> zset"

record limiter =
  l_requests :: int
  l_window :: int
  l_prefix :: string

definition request_limiter :: limiter where
  "request_limiter = \<lparr>l_requests = 120, l_window = 60, l_prefix = ''ratelimit''\<rparr>"

definition login_limiter :: limiter where
  "login_limiter = \<lparr>l_requests = 10, l_window = 60, l_prefix = ''ratelimit:login''\<rparr>"

definition redis_key :: "limiter \<Rightarrow> string \<Rightarrow> string" where
  "redis_key L key = l_prefix L @ '':'' @ key"

definition window_length :: "limiter \<Rightarrow> int" where
  "window_length L = l_window L * 1000000"

subsection \<open>The commands\<close>

definition zmembers :: "store \<Rightarrow> int \<Rightarrow> string \<Rightarrow> (string \<times> int) list" where
  "zmembers s now k = (case s k of None \<Rightarrow> []
     | Some z \<Rightarrow> if now < z_expires z then z_members z else [])"

definition zremrangebyscore :: "int \<Rightarrow> int \<Rightarrow> (string \<times> int) list \<Rightarrow> (string \<times> int) list" where
  "zremrangebyscore lo hi ms = filter (\<lambda>(m, score). \<not> (lo \<le> score \<and> score \<le> hi)) ms"

definition zadd :: "string \<Rightarrow> int \<Rightarrow> (string \<times> int) list \<Rightarrow> (string \<times> int) list" where
  "zadd member score ms = AList.update member score ms"

definition zrem :: "string \<Rightarrow> (string \<times> int) list \<Rightarrow> (string \<times> int) list" where
  "zrem member ms = filter (\<lambda>(m, score). m \<noteq> member) ms"

definition set_members :: "string \<Rightarrow> (string \<times> int) list \<Rightarrow> store \<Rightarrow> store" where
  "set_members k ms s = (case s k of None \<Rightarrow> s | Some z \<Rightarrow> s(k \<mapsto> z\<lparr>z_members := ms\<rparr>))"

text \<open>The pipeline of \<open>is_allowed\<close>, which Redis runs as one transaction.\<close>

definition pipeline :: "limiter \<Rightarrow> int \<Rightarrow> string \<Rightarrow> string \<Rightarrow> store \<Rightarrow> nat \<times> store" where
  "pipeline L now member key s =
     (let k = redis_key L key;
          ms = zadd member now (zremrangebyscore 0 (now - window_length L) (zmembers s now k))
      in (length ms, s(k \<mapsto> \<lparr>z_members = ms, z_expires = now + window_length L\<rparr>)))"

definition undo :: "limiter \<Rightarrow> string \<Rightarrow> string \<Rightarrow> store \<Rightarrow> store" where
  "undo L member key s = (let k = redis_key L key in
     case s k of None \<Rightarrow> s | Some z \<Rightarrow> set_members k (zrem member (z_members z)) s)"

subsection \<open>The limiter\<close>

text \<open>
  \<open>is_allowed\<close>: \<open>pipe_ok\<close> and \<open>zrem_ok\<close> say whether Redis answers the pipeline and the removal that
  follows a rejection. Both are inside the same \<open>try\<close>, whose handler answers True.
\<close>

definition is_allowed :: "limiter \<Rightarrow> bool \<Rightarrow> bool \<Rightarrow> int \<Rightarrow> string \<Rightarrow> string \<Rightarrow> store \<Rightarrow> bool \<times> store" where
  "is_allowed L pipe_ok zrem_ok now member key s =
     (if \<not> pipe_ok then (True, s)
      else case pipeline L now member key s of (count, s1) \<Rightarrow>
        if int count > l_requests L then
          (if zrem_ok then (False, undo L member key s1) else (True, s1))
        else (True, s1))"

definition get_remaining :: "limiter \<Rightarrow> bool \<Rightarrow> int \<Rightarrow> string \<Rightarrow> store \<Rightarrow> int \<times> store" where
  "get_remaining L ok now key s =
     (if \<not> ok then (l_requests L, s)
      else let k = redis_key L key;
               ms = zremrangebyscore 0 (now - window_length L) (zmembers s now k)
           in (max 0 (l_requests L - int (length ms)), if ms = [] then s(k := None) else set_members k ms s))"

text \<open>\<open>reset\<close> deletes the keys that match \<open>prefix:*\<close>.\<close>

definition reset :: "limiter \<Rightarrow> bool \<Rightarrow> store \<Rightarrow> store" where
  "reset L ok s = (if \<not> ok then s
     else (\<lambda>k. if take (length (l_prefix L) + 1) k = l_prefix L @ '':'' then None else s k))"

lemma reset_clears_login_limiter:
  "reset request_limiter True s (redis_key login_limiter key) = None"
  by (simp add: reset_def request_limiter_def login_limiter_def redis_key_def)

lemma over_limit_allowed_when_removal_fails:
  "int (fst (pipeline L now member key s)) > l_requests L \<Longrightarrow>
     fst (is_allowed L True False now member key s) \<and> \<not> fst (is_allowed L True True now member key s)"
  by (simp add: is_allowed_def case_prod_beta)

subsection \<open>Runs of many requests\<close>

text \<open>
  The requests of one key, from any number of processes: each runs its pipeline, with a member
  nobody used before and a clock that does not run backwards, and a rejected one removes its
  member at some later time, or never. In between, anything may happen to other keys. The
  ghost fields record the accepted requests and the members of the rejected ones.
\<close>

record run =
  ru_store :: store
  ru_clock :: int
  ru_accepted :: "(string \<times> int) list"
  ru_rejected :: "string set"

definition run_start :: "int \<Rightarrow> run" where
  "run_start t = \<lparr>ru_store = Map.empty, ru_clock = t, ru_accepted = [], ru_rejected = {}\<rparr>"

definition request :: "limiter \<Rightarrow> string \<Rightarrow> int \<Rightarrow> string \<Rightarrow> run \<Rightarrow> run" where
  "request L key now member r =
     (case pipeline L now member key (ru_store r) of (count, s) \<Rightarrow>
        if int count > l_requests L
        then r\<lparr>ru_store := s, ru_clock := now, ru_rejected := insert member (ru_rejected r)\<rparr>
        else r\<lparr>ru_store := s, ru_clock := now, ru_accepted := ru_accepted r @ [(member, now)]\<rparr>)"

inductive limiter_step :: "limiter \<Rightarrow> string \<Rightarrow> run \<Rightarrow> run \<Rightarrow> bool" for L key where
  request: "ru_clock r \<le> now \<Longrightarrow> member \<notin> fst ` set (ru_accepted r) \<Longrightarrow> member \<notin> ru_rejected r \<Longrightarrow>
     limiter_step L key r (request L key now member r)"
| undo: "member \<in> ru_rejected r \<Longrightarrow> limiter_step L key r (r\<lparr>ru_store := undo L member key (ru_store r)\<rparr>)"
| remaining: "ru_clock r \<le> now \<Longrightarrow>
     limiter_step L key r (r\<lparr>ru_store := snd (get_remaining L True now key (ru_store r)), ru_clock := now\<rparr>)"
| other_key: "s (redis_key L key) = ru_store r (redis_key L key) \<Longrightarrow> limiter_step L key r (r\<lparr>ru_store := s\<rparr>)"

inductive_cases limiter_stepE: "limiter_step L key r r'"

text \<open>
  The invariant: members are distinct, the accepted and the rejected are different members,
  nothing is in the future, and every accepted request of the last window is in the set, whose time to live
  covers it.
\<close>

definition in_window :: "limiter \<Rightarrow> int \<Rightarrow> string \<times> int \<Rightarrow> bool" where
  "in_window L x mt \<longleftrightarrow> x - window_length L < snd mt \<and> snd mt \<le> x"

definition run_inv :: "limiter \<Rightarrow> string \<Rightarrow> run \<Rightarrow> bool" where
  "run_inv L key r \<longleftrightarrow>
     distinct (map fst (ru_accepted r)) \<and> fst ` set (ru_accepted r) \<inter> ru_rejected r = {} \<and>
     (\<forall>mt \<in> set (ru_accepted r). snd mt \<le> ru_clock r) \<and>
     (\<forall>mt \<in> set (ru_accepted r). ru_clock r < snd mt + window_length L \<longrightarrow>
        (\<exists>z. ru_store r (redis_key L key) = Some z \<and> mt \<in> set (z_members z) \<and>
           snd mt + window_length L \<le> z_expires z)) \<and>
     (case ru_store r (redis_key L key) of None \<Rightarrow> True
      | Some z \<Rightarrow> distinct (map fst (z_members z)) \<and> fst ` set (z_members z) \<subseteq> fst ` set (ru_accepted r) \<union> ru_rejected r)"

definition window_bounded :: "limiter \<Rightarrow> run \<Rightarrow> bool" where
  "window_bounded L r \<longleftrightarrow> (\<forall>x. int (length (filter (in_window L x) (ru_accepted r))) \<le> l_requests L)"

lemma set_zremrange: "set (zremrangebyscore lo hi ms) \<subseteq> set ms"
  by (auto simp: zremrangebyscore_def)

lemma distinct_filter_fst: "distinct (map fst ms) \<Longrightarrow> distinct (map fst (filter P ms))"
  by (simp add: distinct_map_filter)

lemma zmembers_inv:
  assumes "run_inv L key r"
  shows "distinct (map fst (zmembers (ru_store r) now (redis_key L key)))"
    "fst ` set (zmembers (ru_store r) now (redis_key L key)) \<subseteq> fst ` set (ru_accepted r) \<union> ru_rejected r"
  using assms by (auto simp: run_inv_def zmembers_def split: option.splits)

lemma set_zadd: "member \<notin> fst ` set ms \<Longrightarrow> set (zadd member now ms) = insert (member, now) (set ms)"
  unfolding zadd_def by (induction ms) auto

text \<open>What the pipeline of a request with a new member leaves.\<close>

lemma pipeline_members:
  assumes inv: "run_inv L key r" and now: "ru_clock r \<le> now"
    and fresh: "member \<notin> fst ` set (ru_accepted r)" "member \<notin> ru_rejected r"
  obtains ms where "pipeline L now member key (ru_store r) =
      (length ms, (ru_store r)(redis_key L key \<mapsto> \<lparr>z_members = ms, z_expires = now + window_length L\<rparr>))"
    "distinct (map fst ms)" "fst ` set ms \<subseteq> insert member (fst ` set (ru_accepted r) \<union> ru_rejected r)"
    "(member, now) \<in> set ms"
    "\<And>mt. mt \<in> set (ru_accepted r) \<Longrightarrow> now < snd mt + window_length L \<Longrightarrow> mt \<in> set ms"
proof
  let ?k = "redis_key L key"
  let ?old = "zremrangebyscore 0 (now - window_length L) (zmembers (ru_store r) now ?k)"
  let ?ms = "zadd member now ?old"
  show "pipeline L now member key (ru_store r) =
      (length ?ms, (ru_store r)(?k \<mapsto> \<lparr>z_members = ?ms, z_expires = now + window_length L\<rparr>))"
    by (simp add: pipeline_def Let_def)
  have old: "set ?old \<subseteq> set (zmembers (ru_store r) now ?k)" by (rule set_zremrange)
  have d: "distinct (map fst ?old)"
    unfolding zremrangebyscore_def by (rule distinct_filter_fst [OF zmembers_inv(1) [OF inv]])
  then show "distinct (map fst ?ms)" by (simp add: zadd_def distinct_update)
  have new: "member \<notin> fst ` set ?old" using old zmembers_inv(2) [OF inv] fresh by blast
  note ms = set_zadd [OF this, of now]
  show "fst ` set ?ms \<subseteq> insert member (fst ` set (ru_accepted r) \<union> ru_rejected r)"
    unfolding ms using old zmembers_inv(2) [OF inv, of now] by auto
  show "(member, now) \<in> set ?ms" by (simp add: ms)
  fix mt
  assume mt: "mt \<in> set (ru_accepted r)" "now < snd mt + window_length L"
  with inv now obtain z where "ru_store r ?k = Some z" "mt \<in> set (z_members z)"
    "snd mt + window_length L \<le> z_expires z" unfolding run_inv_def by (meson le_less_trans)
  with mt have "mt \<in> set ?old" by (auto simp: zmembers_def zremrangebyscore_def)
  then show "mt \<in> set ?ms" by (simp add: ms)
qed

lemma request_inv:
  assumes inv: "run_inv L key r" and b: "window_bounded L r" and n: "0 \<le> l_requests L"
    and now: "ru_clock r \<le> now"
    and fresh: "member \<notin> fst ` set (ru_accepted r)" "member \<notin> ru_rejected r"
  shows "run_inv L key (request L key now member r) \<and> window_bounded L (request L key now member r)"
proof -
  obtain ms where p: "pipeline L now member key (ru_store r) =
      (length ms, (ru_store r)(redis_key L key \<mapsto> \<lparr>z_members = ms, z_expires = now + window_length L\<rparr>))"
    and ms: "distinct (map fst ms)" "fst ` set ms \<subseteq> insert member (fst ` set (ru_accepted r) \<union> ru_rejected r)"
      "(member, now) \<in> set ms"
      "\<And>mt. mt \<in> set (ru_accepted r) \<Longrightarrow> now < snd mt + window_length L \<Longrightarrow> mt \<in> set ms"
    by (rule pipeline_members [OF inv now fresh]) (rule that)
  have past: "snd mt \<le> now" if "mt \<in> set (ru_accepted r)" for mt
    using inv now that by (force simp: run_inv_def)
  show ?thesis
  proof (cases "int (length ms) > l_requests L")
    case True
    then have r': "request L key now member r = r\<lparr>ru_store := (ru_store r)(redis_key L key \<mapsto>
        \<lparr>z_members = ms, z_expires = now + window_length L\<rparr>), ru_clock := now,
        ru_rejected := insert member (ru_rejected r)\<rparr>" by (simp add: request_def p)
    show ?thesis
      using inv b ms past fresh by (auto simp: r' run_inv_def window_bounded_def)
  next
    case False
    then have r': "request L key now member r = r\<lparr>ru_store := (ru_store r)(redis_key L key \<mapsto>
        \<lparr>z_members = ms, z_expires = now + window_length L\<rparr>), ru_clock := now,
        ru_accepted := ru_accepted r @ [(member, now)]\<rparr>" by (simp add: request_def p)
    have "run_inv L key (request L key now member r)"
      using inv ms past fresh by (auto simp: r' run_inv_def)
    moreover have "int (length (filter (in_window L x) (ru_accepted r @ [(member, now)]))) \<le> l_requests L" for x
    proof (cases "x < now")
      case True
      then show ?thesis using b by (simp add: window_bounded_def in_window_def)
    next
      case x: False
      let ?f = "filter (in_window L x) (ru_accepted r @ [(member, now)])"
      have d: "distinct (map fst ?f)"
        using inv fresh by (intro distinct_filter_fst) (auto simp: run_inv_def)
      have "set ?f \<subseteq> set ms" using ms(3,4) x by (auto simp: in_window_def)
      then have "card (set ?f) \<le> card (set ms)" by (rule card_mono [rotated]) simp
      moreover have "card (set ?f) = length ?f" "card (set ms) = length ms"
        using d ms(1) by (simp_all only: distinct_card distinct_map)
      ultimately have "length ?f \<le> length ms" by simp
      with False show ?thesis by linarith
    qed
    ultimately show ?thesis by (simp add: r' window_bounded_def)
  qed
qed

lemma undo_inv:
  assumes inv: "run_inv L key r" and m: "member \<in> ru_rejected r"
  shows "run_inv L key (r\<lparr>ru_store := undo L member key (ru_store r)\<rparr>)"
proof (cases "ru_store r (redis_key L key)")
  case None
  with inv show ?thesis by (simp add: undo_def run_inv_def)
next
  case (Some z)
  let ?ms = "zrem member (z_members z)"
  have u: "undo L member key (ru_store r) = (ru_store r)(redis_key L key \<mapsto> z\<lparr>z_members := ?ms\<rparr>)"
    by (simp add: undo_def set_members_def Some)
  have "mt \<in> set ?ms \<and> snd mt + window_length L \<le> z_expires z"
    if "mt \<in> set (ru_accepted r)" "ru_clock r < snd mt + window_length L" for mt
  proof -
    have "fst mt \<noteq> member" using inv m that(1) by (auto simp: run_inv_def)
    moreover have "mt \<in> set (z_members z) \<and> snd mt + window_length L \<le> z_expires z"
      using inv that Some by (auto simp: run_inv_def)
    ultimately show ?thesis by (auto simp: zrem_def)
  qed
  moreover have "distinct (map fst ?ms)"
    using inv Some unfolding zrem_def by (intro distinct_filter_fst) (simp add: run_inv_def)
  moreover have "fst ` set ?ms \<subseteq> fst ` set (ru_accepted r) \<union> ru_rejected r"
    using inv Some by (auto simp: run_inv_def zrem_def)
  ultimately show ?thesis
    using inv unfolding u by (auto simp: run_inv_def)
qed

lemma remaining_inv:
  assumes inv: "run_inv L key r" and now: "ru_clock r \<le> now"
  shows "run_inv L key (r\<lparr>ru_store := snd (get_remaining L True now key (ru_store r)), ru_clock := now\<rparr>)"
proof -
  let ?k = "redis_key L key"
  let ?ms = "zremrangebyscore 0 (now - window_length L) (zmembers (ru_store r) now ?k)"
  have s: "snd (get_remaining L True now key (ru_store r)) =
      (if ?ms = [] then (ru_store r)(?k := None) else set_members ?k ?ms (ru_store r))"
    by (simp add: get_remaining_def Let_def)
  have keep: "\<exists>z. ru_store r ?k = Some z \<and> mt \<in> set ?ms \<and> snd mt + window_length L \<le> z_expires z"
    if "mt \<in> set (ru_accepted r)" "now < snd mt + window_length L" for mt
  proof -
    from inv now that obtain z where "ru_store r ?k = Some z" "mt \<in> set (z_members z)"
      "snd mt + window_length L \<le> z_expires z" unfolding run_inv_def by (meson le_less_trans)
    with that show ?thesis by (auto simp: zmembers_def zremrangebyscore_def)
  qed
  have "distinct (map fst ?ms)"
    unfolding zremrangebyscore_def by (rule distinct_filter_fst [OF zmembers_inv(1) [OF inv]])
  moreover have "fst ` set ?ms \<subseteq> fst ` set (ru_accepted r) \<union> ru_rejected r"
    using set_zremrange zmembers_inv(2) [OF inv] by (meson image_mono order_trans)
  moreover have "\<forall>mt \<in> set (ru_accepted r). snd mt \<le> now" using inv now by (force simp: run_inv_def)
  moreover have "\<exists>z. snd (get_remaining L True now key (ru_store r)) ?k = Some z \<and> mt \<in> set (z_members z) \<and>
      snd mt + window_length L \<le> z_expires z"
    if "mt \<in> set (ru_accepted r)" "now < snd mt + window_length L" for mt
    using keep [OF that] unfolding s by (auto simp: set_members_def)
  moreover have "snd (get_remaining L True now key (ru_store r)) ?k \<in>
      {None} \<union> {Some z |z. z_members z = ?ms}"
    unfolding s by (auto simp: set_members_def split: option.split)
  ultimately show ?thesis
    using inv by (auto simp: run_inv_def)
qed

lemma limiter_step_inv:
  assumes "limiter_step L key r r'" "run_inv L key r" "window_bounded L r" "0 \<le> l_requests L"
  shows "run_inv L key r' \<and> window_bounded L r'"
  using assms(1)
proof cases
  case (request now member)
  with request_inv [OF assms(2-4)] show ?thesis by blast
next
  case (undo member)
  with undo_inv [OF assms(2)] assms(3) show ?thesis by (simp add: window_bounded_def)
next
  case (remaining now)
  with remaining_inv [OF assms(2)] assms(3) show ?thesis by (simp add: window_bounded_def)
next
  case (other_key s)
  then show ?thesis using assms(2,3) unfolding other_key(1)
    by (auto simp: run_inv_def window_bounded_def split: option.splits)
qed

text \<open>One call of the limiter is a request, followed by the removal when it is refused.\<close>

lemma is_allowed_runs:
  assumes "is_allowed L True True now member key (ru_store r) = (ok, s)" "ru_clock r \<le> now"
    and "member \<notin> fst ` set (ru_accepted r)" "member \<notin> ru_rejected r"
  shows "\<exists>r'. (limiter_step L key)\<^sup>*\<^sup>* r r' \<and> ru_store r' = s \<and>
    ru_accepted r' = ru_accepted r @ (if ok then [(member, now)] else [])"
proof -
  let ?r = "request L key now member r"
  have step: "limiter_step L key r ?r" using assms(2-4) by (rule limiter_step.request)
  show ?thesis
  proof (cases ok)
    case True
    with assms(1) have "ru_store ?r = s \<and> ru_accepted ?r = ru_accepted r @ [(member, now)]"
      by (auto simp: is_allowed_def request_def case_prod_beta split: if_splits)
    with step True show ?thesis by (intro exI [of _ ?r]) auto
  next
    case False
    with assms(1) have r: "member \<in> ru_rejected ?r" "ru_accepted ?r = ru_accepted r"
      "s = undo L member key (ru_store ?r)"
      by (auto simp: is_allowed_def request_def case_prod_beta split: if_splits)
    from limiter_step.undo [OF r(1), where L = L and key = key] step False r(2,3) show ?thesis
      by (intro exI [of _ "?r\<lparr>ru_store := undo L member key (ru_store ?r)\<rparr>"]) auto
  qed
qed



end
