(* ===== verification/AuthActions.thy ===== *)
theory AuthActions
  imports TokenSafety UserService RateLimit Validation
begin

text \<open>
  \<^verbatim>\<open>app/services/auth/password.py\<close>, \<^verbatim>\<open>app/services/auth/actions/\<close>, \<^verbatim>\<open>app/services/verify/\<close> and the
  housekeeping task of \<^verbatim>\<open>app/queue/task.py\<close>: login, refresh, logout, registration, Google sign-in,
  and the links sent by mail. The clock is read once per call. Times are microseconds.
\<close>

subsection \<open>Passwords\<close>

text \<open>
  bcrypt is not part of the repository: \<open>checkpw\<close> compares a password with a hash, \<open>hashpw\<close>
  hashes one with a salt; both may raise. A user without a password (one that Google signed up)
  has \<open>None\<close>, whose \<open>encode\<close> is an AttributeError.
\<close>

record bcrypt =
  checkpw :: "string \<Rightarrow> string \<Rightarrow> exn + bool"
  hashpw :: "string \<Rightarrow> string \<Rightarrow> exn + string"

definition verify_password :: "bcrypt \<Rightarrow> string \<Rightarrow> string option \<Rightarrow> exn + bool" where
  "verify_password B plain_password hashed_password =
     (case hashed_password of None \<Rightarrow> Inl AttributeError | Some h \<Rightarrow> checkpw B plain_password h)"

definition get_password_hash :: "bcrypt \<Rightarrow> string \<Rightarrow> string \<Rightarrow> exn + string" where
  "get_password_hash B salt password = hashpw B salt password"

subsection \<open>Login\<close>

record token_response =
  access_token :: string
  refresh_token :: string
  token_type :: string

record cookie =
  c_key :: string
  c_value :: string
  c_httponly :: bool
  c_secure :: bool
  c_max_age :: int

text \<open>An expression of type \<open>exn + 'a\<close> as a call that changes nothing.\<close>

definition lift :: "exn + 'a \<Rightarrow> 'a action" where
  "lift r w = (r, w)"

definition refresh_cookie :: "config \<Rightarrow> bool \<Rightarrow> string \<Rightarrow> cookie" where
  "refresh_cookie C production value = \<lparr>c_key = ''refresh_token'', c_value = value, c_httponly = True,
     c_secure = production, c_max_age = REFRESH_TOKEN_EXPIRE C * 24 * 60 * 60\<rparr>"

definition mint_for :: "jwt_lib \<Rightarrow> config \<Rightarrow> int \<Rightarrow> string \<Rightarrow> user_obj option \<Rightarrow> string action" where
  "mint_for J C now auth_method user w =
     (case user of None \<Rightarrow> (Inl AttributeError, w)
      | Some u \<Rightarrow> (mint_access_token J C now auth_method u (w_db w), w))"

definition login_credentials ::
    "jwt_lib \<Rightarrow> config \<Rightarrow> bcrypt \<Rightarrow> bool \<Rightarrow> int \<Rightarrow> uuid \<Rightarrow> string \<Rightarrow> string \<Rightarrow> (token_response \<times> cookie) action"
  where
  "login_credentials J C B production now jti username password w =
     (case get_user_by_username username (w_db w) of
        None \<Rightarrow> (Inl UserUnauthenticated, w)
      | Some user \<Rightarrow>
        (case verify_password B password (u_password user) of
           Inl e \<Rightarrow> (Inl e, w)
         | Inr ok \<Rightarrow>
           if \<not> ok then (Inl UserUnauthenticated, w)
           else if \<not> u_is_verified user then (Inl UserNotVerified, w)
           else
             and_then (mint_for J C now ''password'' (get_user_with_grants (u_id user) (w_db w))) (\<lambda>access.
             let refresh = create_refresh_token J C now (u_id user) jti (days 7) in
             and_then (token_create refresh (u_id user) (now + days (REFRESH_TOKEN_EXPIRE C))) (\<lambda>_ w.
               (Inr (\<lparr>access_token = access, refresh_token = refresh, token_type = ''bearer''\<rparr>,
                     refresh_cookie C production refresh), w))) w))"

text \<open>
  The whole of \<open>login\<close>: the limiter of the account first, on the store of the counters, then the
  credentials. \<open>pipe_ok\<close>, \<open>zrem_ok\<close> and \<open>member\<close> are those of \<open>is_allowed\<close>.
\<close>

definition login ::
    "jwt_lib \<Rightarrow> config \<Rightarrow> bcrypt \<Rightarrow> bool \<Rightarrow> bool \<Rightarrow> bool \<Rightarrow> string \<Rightarrow> int \<Rightarrow> uuid \<Rightarrow> string \<Rightarrow> string \<Rightarrow>
     world \<times> store \<Rightarrow> (exn + token_response \<times> cookie) \<times> world \<times> store"
  where
  "login J C B production pipe_ok zrem_ok member now jti username password ws =
     (case ws of (w, s) \<Rightarrow>
      case is_allowed login_limiter pipe_ok zrem_ok now member username s of (allowed, s') \<Rightarrow>
        if \<not> allowed
        then (Inl (RateLimit ''Too many login attempts for this account. Please wait before trying again.''
                [(''Retry-After'', str_int (l_window login_limiter))]), w, s')
        else case login_credentials J C B production now jti username password w of (r, w') \<Rightarrow> (r, w', s'))"

subsection \<open>Refresh and logout\<close>

definition refresh :: "jwt_lib \<Rightarrow> config \<Rightarrow> int \<Rightarrow> uuid \<Rightarrow> string \<Rightarrow> token_response action" where
  "refresh J C now jti token w =
     (case get_by_token token (w_db w) of
        None \<Rightarrow> (Inl (HTTPException 401 ''Invalid refresh token''), w)
      | Some db_token \<Rightarrow>
        if k_is_revoked db_token then
          and_then (delete_all_for_user (k_user_id db_token))
            (\<lambda>_. lift (Inl (HTTPException 403
               ''Security breach detected. All sessions invalidated. Please login again.''))) w
        else if k_expires_at db_token < now then
          and_then (token_delete_instance db_token)
            (\<lambda>_. lift (Inl (HTTPException 401 ''Refresh token expired''))) w
        else
          and_then (token_revoke db_token) (\<lambda>_ w.
            let user_id = k_user_id db_token in
            case get_user_with_grants user_id (w_db w) of
              None \<Rightarrow> (Inl (UserNotFound (IdUuid user_id)), w)
            | Some user \<Rightarrow>
              and_then (lift (mint_access_token J C now ''password'' user (w_db w))) (\<lambda>access.
              let new_token = create_refresh_token J C now user_id jti (days 7) in
              and_then (token_create new_token user_id (now + days (REFRESH_TOKEN_EXPIRE C))) (\<lambda>_.
                lift (Inr \<lparr>access_token = access, refresh_token = new_token, token_type = ''bearer''\<rparr>))) w) w)"

definition logout :: "string option \<Rightarrow> (string \<times> string) action" where
  "logout token = and_then
     (case token of None \<Rightarrow> lift (Inr ()) | Some t \<Rightarrow> if t = [] then lift (Inr ()) else delete_by_token t)
     (\<lambda>_. lift (Inr (''message'', ''Successfully logged out'')))"

text \<open>\<open>verify_refresh_token\<close>, which no endpoint calls: \<open>refresh\<close> looks the token up and never decodes it.\<close>

definition verify_refresh_token :: "jwt_lib \<Rightarrow> config \<Rightarrow> int \<Rightarrow> string \<Rightarrow> exn + uuid option" where
  "verify_refresh_token J C now token =
     (case jwt_decode J token (REFRESH_KEY C) now of
        None \<Rightarrow> Inr None
      | Some payload \<Rightarrow>
        (case map_of payload ''user'' of
           Some (JObj user) \<Rightarrow>
             (case map_of user ''id'' of
                None \<Rightarrow> Inl (KeyError ''id'')
              | Some JNull \<Rightarrow> Inr None
              | Some (JStr i) \<Rightarrow>
                  (case uuid_parse i of
                     None \<Rightarrow> Inl (ValueError ''badly formed hexadecimal UUID string'')
                   | Some u \<Rightarrow> Inr (Some u))
              | Some _ \<Rightarrow> Inl AttributeError)
         | _ \<Rightarrow> Inl TypeError))"

text \<open>The periodic task: one DELETE; its result is the row count.\<close>

definition cleanup_expired_tokens :: "int \<Rightarrow> nat action" where
  "cleanup_expired_tokens now w =
     (let d = w_db w; gone = (\<lambda>k. k_expires_at k < now \<or> k_is_revoked k) in
      (Inr (length (filter gone (refresh_tokens d))),
       commit (d\<lparr>refresh_tokens := filter (\<lambda>k. \<not> gone k) (refresh_tokens d)\<rparr>) [] w))"

subsection \<open>Registration and Google sign-in\<close>

record user_response =
  ur_id :: uuid
  ur_username :: string
  ur_email :: string
  ur_tenant_id :: "uuid option"
  ur_tenant_name :: "string option"
  ur_is_superuser :: bool

text \<open>\<open>UserResponse.model_validate\<close> of a row: a row has no attribute \<open>tenant_name\<close>, so it stays None.\<close>

definition user_response_of :: "user \<Rightarrow> user_response" where
  "user_response_of u = \<lparr>ur_id = u_id u, ur_username = u_username u, ur_email = u_email u,
     ur_tenant_id = u_tenant_id u, ur_tenant_name = None, ur_is_superuser = u_is_superuser u\<rparr>"

text \<open>
  itsdangerous is not part of the repository: \<open>sign\<close> makes a token of some data at some time
  under a salt, \<open>unsign\<close> reads it back with a maximal age in seconds, None for any exception.
  The data the code signs is one address, under the key \<open>email\<close>.
\<close>

record signer =
  sign :: "string \<Rightarrow> int \<Rightarrow> (string \<times> string) list \<Rightarrow> string"
  unsign :: "string \<Rightarrow> int \<Rightarrow> int \<Rightarrow> string \<Rightarrow> (string \<times> string) list option"

definition PASSWORD_RESET_MAX_AGE_SECONDS :: int where "PASSWORD_RESET_MAX_AGE_SECONDS = 60 * 30"

definition create_url_safe_token :: "signer \<Rightarrow> int \<Rightarrow> (string \<times> string) list \<Rightarrow> string" where
  "create_url_safe_token S now data = sign S ''email-configuration'' now data"

definition decode_url_safe_token :: "signer \<Rightarrow> int \<Rightarrow> string \<Rightarrow> exn + (string \<times> string) list" where
  "decode_url_safe_token S now token =
     (case unsign S ''email-configuration'' now (60 * 60 * 24) token of
        None \<Rightarrow> Inl (HTTPException 400 ''Invalid or expired token'') | Some data \<Rightarrow> Inr data)"

definition create_password_reset_token :: "signer \<Rightarrow> int \<Rightarrow> (string \<times> string) list \<Rightarrow> string" where
  "create_password_reset_token S now data = sign S ''password-reset'' now data"

definition decode_password_reset_token :: "signer \<Rightarrow> int \<Rightarrow> string \<Rightarrow> exn + (string \<times> string) list" where
  "decode_password_reset_token S now token =
     (case unsign S ''password-reset'' now PASSWORD_RESET_MAX_AGE_SECONDS token of
        None \<Rightarrow> Inl (HTTPException 400 ''Link expired or already used'') | Some data \<Rightarrow> Inr data)"

text \<open>
  A mail to be sent after the response: its address, its subject and the link in its body. What
  sending does (a task queue, an SMTP server) is not modelled; its failure is logged and no more.
\<close>

record mail =
  m_recipients :: "string list"
  m_subject :: string
  m_link :: string

definition verification_mail :: "signer \<Rightarrow> int \<Rightarrow> string \<Rightarrow> string \<Rightarrow> mail" where
  "verification_mail S now domain email = \<lparr>m_recipients = [email], m_subject = ''verify your mail'',
     m_link = ''http://'' @ domain @ ''/api/v1/auth/verify/'' @ create_url_safe_token S now [(''email'', email)]\<rparr>"

definition register :: "bcrypt \<Rightarrow> uuid \<Rightarrow> string \<Rightarrow> string \<Rightarrow> string \<Rightarrow> string \<Rightarrow> (string \<times> user_response) action" where
  "register B new_id salt username email password w =
     (if exists_by_username username (w_db w) then (Inl (UsernameExist (IdStr username)), w)
      else if exists_by_email email (w_db w) then (Inl (UserMailExist (IdStr email)), w)
      else and_then (lift (get_password_hash B salt password)) (\<lambda>hashed_password.
        and_then (user_create new_id username email (Some hashed_password) False False None None) (\<lambda>new_user.
          lift (Inr (''Account Created Successfully! Check mail to verify your Account'',
            user_response_of new_user)))) w)"

text \<open>
  \<open>_build_unique_username\<close>: the loop that appends 2, 3, \<dots> to the base until no user has the name.
\<close>

definition suffixed :: "string \<Rightarrow> nat \<Rightarrow> string" where
  "suffixed base suffix = base @ str_int (int suffix)"

lemma suffixed_inject: "suffixed base i = suffixed base j \<longleftrightarrow> i = j"
  using parse_int_str_int by (metis option.inject of_nat_eq_iff same_append_eq suffixed_def)

definition taken_from :: "db \<Rightarrow> string \<Rightarrow> nat \<Rightarrow> nat set" where
  "taken_from d base n = {k. n < k \<and> exists_by_username (suffixed base k) d}"

lemma finite_taken: "finite (taken_from d base n)"
proof -
  have "suffixed base ` taken_from d base n \<subseteq> u_username ` set (users d)"
    by (force simp: taken_from_def exists_by_username_def)
  then have "finite (suffixed base ` taken_from d base n)" by (rule finite_subset) simp
  then show ?thesis by (rule finite_imageD) (auto simp: inj_on_def suffixed_inject)
qed

lemma taken_from_Suc:
  "card (taken_from d base (Suc n)) + (if exists_by_username (suffixed base (Suc n)) d then 1 else 0)
     = card (taken_from d base n)"
proof (cases "exists_by_username (suffixed base (Suc n)) d")
  case True
  then have "taken_from d base n = insert (Suc n) (taken_from d base (Suc n))"
    by (auto simp: taken_from_def Suc_lessI)
  moreover have "Suc n \<notin> taken_from d base (Suc n)" by (simp add: taken_from_def)
  ultimately show ?thesis using True by (simp add: finite_taken)
next
  case False
  then have "taken_from d base n = taken_from d base (Suc n)"
    by (auto simp: taken_from_def) (metis Suc_lessI)
  with False show ?thesis by simp
qed

function unique_username_loop :: "db \<Rightarrow> string \<Rightarrow> string \<Rightarrow> nat \<Rightarrow> string" where
  "unique_username_loop d base candidate suffix =
     (if exists_by_username candidate d
      then unique_username_loop d base (suffixed base (Suc suffix)) (Suc suffix)
      else candidate)"
  by pat_completeness auto
termination
proof (relation "measure (\<lambda>(d, base, candidate, suffix).
    card (taken_from d base suffix) + (if exists_by_username candidate d then 1 else 0))")
  fix d base candidate suffix
  assume "exists_by_username candidate d"
  with taken_from_Suc [of d base suffix]
  show "((d, base, suffixed base (Suc suffix), Suc suffix), d, base, candidate, suffix) \<in>
      measure (\<lambda>(d, base, candidate, suffix).
        card (taken_from d base suffix) + (if exists_by_username candidate d then 1 else 0))"
    by auto
qed simp

declare unique_username_loop.simps [simp del]

definition build_unique_username :: "string \<Rightarrow> db \<Rightarrow> string" where
  "build_unique_username email d =
     (let base_username = sanitize_identifier (takeWhile (\<lambda>c. c \<noteq> CHR ''@'') email) 50
      in unique_username_loop d base_username base_username 1)"

text \<open>
  \<open>handle_callback\<close>: \<open>userinfo\<close> is what exchanging the authorization code at Google gives, an
  exception or the address of the account, when there is one.
\<close>

record google_response = token_response +
  gr_user :: user_response
  gr_is_new_user :: bool

definition google_user :: "uuid \<Rightarrow> string \<Rightarrow> (user \<times> bool) action" where
  "google_user new_id email w =
     (case get_user_by_email email (w_db w) of
        Some user \<Rightarrow> (Inr (user, False), w)
      | None \<Rightarrow>
        and_then (user_create new_id (build_unique_username email (w_db w)) email None True False None None)
          (\<lambda>user. lift (Inr (user, True))) w)"

definition handle_callback ::
    "jwt_lib \<Rightarrow> config \<Rightarrow> int \<Rightarrow> uuid \<Rightarrow> uuid \<Rightarrow> exn + string option \<Rightarrow> google_response action" where
  "handle_callback J C now new_id jti userinfo =
     and_then (lift userinfo) (\<lambda>email.
     if email = None \<or> email = Some []
     then lift (Inl (HTTPException 400 ''Email not provided by Google''))
     else and_then (google_user new_id (the email)) (\<lambda>(user, is_new_user) w.
       and_then (mint_for J C now ''google'' (get_user_with_grants (u_id user) (w_db w))) (\<lambda>access.
       let refresh = create_refresh_token J C now (u_id user) jti (days (REFRESH_TOKEN_EXPIRE C)) in
       and_then (token_create refresh (u_id user) (now + days (REFRESH_TOKEN_EXPIRE C))) (\<lambda>_.
         lift (Inr \<lparr>access_token = access, refresh_token = refresh, token_type = ''bearer'',
           gr_user = user_response_of user, gr_is_new_user = is_new_user\<rparr>))) w))"

definition authorize_redirect :: "string \<Rightarrow> string \<Rightarrow> exn + 'a \<Rightarrow> exn + 'a" where
  "authorize_redirect client_id client_secret redirect =
     (if client_id = [] \<or> client_secret = []
      then Inl (HTTPException 500 ''Google OAuth is not configured'') else redirect)"

subsection \<open>The links sent by mail\<close>

text \<open>A JSON answer with a message, and the mail of a password reset.\<close>

definition message_response :: "nat \<Rightarrow> string \<Rightarrow> response" where
  "message_response status m = \<lparr>status_code = status, content = [(''message'', JStr m)]\<rparr>"

definition reset_password :: "string \<Rightarrow> (string \<times> string) action" where
  "reset_password email w =
     (if \<not> exists_by_email email (w_db w) then (Inl (UserNotFound (IdStr email)), w)
      else (Inr (''message'', ''Please Check you mail for password reset link''), w))"

definition reset_mail :: "signer \<Rightarrow> int \<Rightarrow> string \<Rightarrow> string \<Rightarrow> mail" where
  "reset_mail S now domain email = \<lparr>m_recipients = [email], m_subject = ''Reset Password'',
     m_link = ''http://'' @ domain @ ''/api/v1/auth/reset/password/'' @
       create_password_reset_token S now [(''email'', email)] @ ''/verify''\<rparr>"

definition verify_mail :: "signer \<Rightarrow> int \<Rightarrow> string \<Rightarrow> response action" where
  "verify_mail S now token = and_then (lift (decode_url_safe_token S now token)) (\<lambda>data w.
     case map_of data ''email'' of
       Some (c # cs) \<Rightarrow>
         (case get_user_by_email (c # cs) (w_db w) of
            None \<Rightarrow> (Inl (UserNotFound unknown), w)
          | Some user \<Rightarrow>
            and_then (set_verified (u_id user))
              (\<lambda>_. lift (Inr (message_response 200 ''Account verified successfully''))) w)
     | _ \<Rightarrow> (Inr (message_response 500 ''Error occured during verification''), w))"

definition verify_reset :: "signer \<Rightarrow> bcrypt \<Rightarrow> int \<Rightarrow> string \<Rightarrow> string \<Rightarrow> string \<Rightarrow> string \<Rightarrow> response action" where
  "verify_reset S B now salt token new_password confirm_password =
     and_then (lift (decode_password_reset_token S now token)) (\<lambda>data w.
     case map_of data ''email'' of
       Some (c # cs) \<Rightarrow>
         (case get_user_by_email (c # cs) (w_db w) of
            None \<Rightarrow> (Inl (UserNotFound unknown), w)
          | Some user \<Rightarrow>
            if new_password \<noteq> confirm_password
            then (Inl (HTTPException 404 ''Password and confirm Password are not same''), w)
            else and_then (lift (get_password_hash B salt new_password)) (\<lambda>hashed_password.
              and_then (set_password (u_id user) hashed_password)
                (\<lambda>_. lift (Inr (message_response 200 ''Account Password Reset Successfully'')))) w)
     | _ \<Rightarrow> (Inr (message_response 500 ''Error occured during Reset Password''), w))"

subsection \<open>What the actions do\<close>

lemma lift_simps [simp]: "lift r w = (r, w)" "snd (lift r w) = w"
  by (simp_all add: lift_def)

lemma and_then_lift [simp]: "and_then (lift (Inr x)) f w = f x w" "and_then (lift (Inl e)) f w = (Inl e, w)"
  by (simp_all add: and_then_def)

lemma mint_for_world [simp]: "snd (mint_for J C now m u w) = w"
  by (simp add: mint_for_def split: option.split)

lemmas auth_steps = repo_step.token_create [THEN runs_step] repo_step.token_revoke [THEN runs_step]
  repo_step.delete_all_for_user [THEN runs_step] repo_step.token_delete_instance [THEN runs_step]
  repo_step.delete_by_token [THEN runs_step] repo_step.user_create [THEN runs_step]
  repo_step.set_verified [THEN runs_step] repo_step.set_password [THEN runs_step]

lemma login_credentials_run: "world_step\<^sup>*\<^sup>* w (snd (login_credentials J C B production now jti username password w))"
  by (auto simp: login_credentials_def Let_def intro!: runs.and_then auth_steps split: option.split sum.split)

lemma refresh_run: "world_step\<^sup>*\<^sup>* w (snd (refresh J C now jti token w))"
  by (auto simp: refresh_def Let_def intro!: runs.and_then auth_steps split: option.split)

lemma logout_run: "world_step\<^sup>*\<^sup>* w (snd (logout token w))"
  by (auto simp: logout_def intro!: runs.and_then auth_steps split: option.split)

lemma register_run: "world_step\<^sup>*\<^sup>* w (snd (register B i salt n e p w))"
  by (auto simp: register_def intro!: runs.and_then auth_steps)

lemma handle_callback_run: "world_step\<^sup>*\<^sup>* w (snd (handle_callback J C now i jti userinfo w))"
  by (auto simp: handle_callback_def google_user_def Let_def intro!: runs.and_then auth_steps split: option.split)

lemma links_run: "world_step\<^sup>*\<^sup>* w (snd (verify_mail S now token w))"
  "world_step\<^sup>*\<^sup>* w (snd (verify_reset S B now salt token p p' w))"
  by (auto simp: verify_mail_def verify_reset_def intro!: runs.and_then auth_steps split: option.split list.split)

lemmas auth_runs = login_credentials_run refresh_run logout_run register_run handle_callback_run links_run

subsection \<open>Rotation of refresh tokens\<close>

text \<open>
  What the rotation needs of a store of sessions: a lookup by token, and how it sees a row that was
  added, a token that was revoked, and a user whose sessions were purged.
\<close>

locale session_store =
  fixes lookup :: "string \<Rightarrow> 'd \<Rightarrow> refresh_token option"
    and store :: "refresh_token \<Rightarrow> 'd \<Rightarrow> 'd"
    and revoke :: "string \<Rightarrow> 'd \<Rightarrow> 'd"
    and purge :: "uuid \<Rightarrow> 'd \<Rightarrow> 'd"
  assumes lookup_token: "lookup t d = Some k \<Longrightarrow> k_token k = t"
    and lookup_store: "lookup t (store row d) =
      (case lookup t d of Some k \<Rightarrow> Some k | None \<Rightarrow> if k_token row = t then Some row else None)"
    and lookup_revoke: "lookup t (revoke t' d) =
      map_option (\<lambda>k. if k_token k = t' then k\<lparr>k_is_revoked := True\<rparr> else k) (lookup t d)"
    and lookup_purge: "lookup t (purge u d) = Some k \<Longrightarrow> k_user_id k \<noteq> u"
begin

lemma rotated:
  assumes "lookup t d = Some k" "lookup (k_token row) (revoke t d) = None"
  shows "lookup t (store row (revoke t d)) = Some (k\<lparr>k_is_revoked := True\<rparr>)"
    and "lookup (k_token row) (store row (revoke t d)) = Some row"
  using assms lookup_token [OF assms(1)] by (simp_all add: lookup_store lookup_revoke)

lemma purged: "k_user_id k = u \<Longrightarrow> lookup t (purge u d) \<noteq> Some k"
  using lookup_purge by blast

end

definition store_token :: "refresh_token \<Rightarrow> db \<Rightarrow> db" where
  "store_token row d = d\<lparr>refresh_tokens := refresh_tokens d @ [row]\<rparr>"

definition revoke_token :: "string \<Rightarrow> db \<Rightarrow> db" where
  "revoke_token t d = d\<lparr>refresh_tokens := update_where (\<lambda>k. k_token k = t) (\<lambda>k. k\<lparr>k_is_revoked := True\<rparr>) (refresh_tokens d)\<rparr>"

definition purge_user :: "uuid \<Rightarrow> db \<Rightarrow> db" where
  "purge_user u d = d\<lparr>refresh_tokens := filter (\<lambda>k. k_user_id k \<noteq> u) (refresh_tokens d)\<rparr>"

interpretation sessions: session_store get_by_token store_token revoke_token purge_user
proof
  show "get_by_token t d = Some k \<Longrightarrow> k_token k = t" for t d k
    by (auto simp: get_by_token_def dest: find_SomeD)
  show "get_by_token t (store_token row d) =
      (case get_by_token t d of Some k \<Rightarrow> Some k | None \<Rightarrow> if k_token row = t then Some row else None)" for t row d
    by (simp add: get_by_token_def store_token_def find_append split: option.split)
  show "get_by_token t (revoke_token t' d) =
      map_option (\<lambda>k. if k_token k = t' then k\<lparr>k_is_revoked := True\<rparr> else k) (get_by_token t d)" for t t' d
    unfolding get_by_token_def by (simp add: revoke_token_def find_update_where)
  show "get_by_token t (purge_user u d) = Some k \<Longrightarrow> k_user_id k \<noteq> u" for t u d k
    by (auto simp: get_by_token_def purge_user_def dest: find_SomeD)
qed

text \<open>The calls of the repository are these operations, published nowhere.\<close>

lemma token_calls:
  "token_revoke k w = (Inr (), commit (revoke_token (k_token k) (w_db w)) [] w)"
  "delete_all_for_user u w = (Inr (), commit (purge_user u (w_db w)) [] w)"
  by (simp_all add: token_revoke_def revoke_token_def delete_all_for_user_def purge_user_def Let_def)

lemma token_create_Inr:
  "token_create t u x w = (Inr row, w') \<Longrightarrow>
     row = \<lparr>k_token = t, k_user_id = u, k_expires_at = x, k_is_revoked = False\<rparr> \<and>
     t \<notin> k_token ` set (refresh_tokens (w_db w)) \<and> w' = commit (store_token row (w_db w)) [] w"
  by (auto simp: token_create_def store_token_def Let_def split: if_splits)

lemma fresh_token: "t \<notin> k_token ` set (refresh_tokens d) \<longleftrightarrow> get_by_token t d = None"
  by (auto simp: get_by_token_def find_None_iff)

lemma refresh_Inr:
  assumes "refresh J C now jti token w = (Inr r, w')"
  shows "\<exists>k w1 row. get_by_token token (w_db w) = Some k \<and> \<not> k_is_revoked k \<and> now \<le> k_expires_at k \<and>
    token_revoke k w = (Inr (), w1) \<and>
    token_create (refresh_token r) (k_user_id k) (now + days (REFRESH_TOKEN_EXPIRE C)) w1 = (Inr row, w')"
  using assms by (auto simp: refresh_def Let_def and_then_Inr split: option.splits if_splits)


text \<open>
  The periodic task forgets what the detection of a replay rests on: once it has run, the old token
  is merely unknown, and the session of the new one goes on.
\<close>

lemma cleanup_forgets_replay:
  assumes "get_by_token token (w_db w) = Some k" "k_is_revoked k" "distinct (map k_token (refresh_tokens (w_db w)))"
  shows "refresh J C now jti token (snd (cleanup_expired_tokens now w)) =
    (Inl (HTTPException 401 ''Invalid refresh token''), snd (cleanup_expired_tokens now w))"
proof -
  have "k_is_revoked x" if "x \<in> set (refresh_tokens (w_db w))" "k_token x = token" for x
    using find_unique [OF assms(3) that(1)] assms(1,2) that(2) by (simp add: get_by_token_def)
  then have "get_by_token token (w_db (snd (cleanup_expired_tokens now w))) = None"
    by (auto simp: cleanup_expired_tokens_def Let_def get_by_token_def find_None_iff)
  then show ?thesis by (simp add: refresh_def)
qed

lemma cleanup_keeps_invariant: "world_inv w \<Longrightarrow> world_inv (snd (cleanup_expired_tokens now w))"
  by (auto simp: cleanup_expired_tokens_def Let_def world_inv_db intro!: world_inv_commit)

definition ann_session :: world where
  "ann_session = sample_world\<lparr>w_db := sample_db\<lparr>refresh_tokens :=
     [\<lparr>k_token = ''old'', k_user_id = ann, k_expires_at = 1000, k_is_revoked = False\<rparr>]\<rparr>\<rparr>"

lemma tokens_frame [simp]:
  "load_user (d\<lparr>refresh_tokens := l\<rparr>) = load_user d"
  "get_tenant_by_id t (d\<lparr>refresh_tokens := l\<rparr>) = get_tenant_by_id t d"
proof -
  have role: "load_role (d\<lparr>refresh_tokens := l\<rparr>) = load_role d"
    and tenant: "tenant_by_id (d\<lparr>refresh_tokens := l\<rparr>) = tenant_by_id d"
    by (simp_all add: fun_eq_iff load_role_def role_perm_rows_def tenant_by_id_def)
  show "load_user (d\<lparr>refresh_tokens := l\<rparr>) = load_user d"
    by (rule ext) (simp add: load_user_def user_role_rows_def user_perm_rows_def role tenant split: option.split)
  show "get_tenant_by_id t (d\<lparr>refresh_tokens := l\<rparr>) = get_tenant_by_id t d"
    by (simp add: get_tenant_by_id_def tenant)
qed

lemma tokens_frame_calls [simp]:
  "get_user_with_grants uid (d\<lparr>refresh_tokens := l\<rparr>) = get_user_with_grants uid d"
  "mint_access_token J C now m user (d\<lparr>refresh_tokens := l\<rparr>) = mint_access_token J C now m user d"
  by (simp add: get_user_with_grants_def) (auto simp: mint_access_token_def Let_def split: option.split)

lemma ann_refreshes: "\<exists>r w'. refresh plain_jwt sample_config 0 7 ''old'' ann_session = (Inr r, w')"
proof -
  from ann_mints [of 0] obtain token where "mint_access_token plain_jwt sample_config 0 ''password''
      (load_user sample_db ann_row) sample_db = Inr token" by (auto simp: sample_world_def)
  moreover have "get_user_with_grants ann sample_db = Some (load_user sample_db ann_row)"
    using ann_loaded by (simp add: sample_world_def)
  moreover have "create_refresh_token plain_jwt sample_config 0 ann 7 (days 7) \<noteq> ''old''"
    by (simp add: create_refresh_token_def plain_jwt_def)
  moreover have "ann \<in> user_ids sample_db" by (simp add: sample_db_def ann_row_def)
  ultimately show ?thesis
    by (simp add: refresh_def ann_session_def get_by_token_def token_revoke_def Let_def and_then_def lift_def
        update_where_def token_create_def sample_world_def)
qed


subsection \<open>Login\<close>

lemma login_credentials_raises:
  "login_credentials J C B production now jti username password w = (Inl e, w') \<Longrightarrow> w' = w"
  by (auto simp: login_credentials_def Let_def and_then_Inl mint_for_def token_create_def
      split: option.splits sum.splits if_splits)

lemma login_credentials_Inr:
  assumes "login_credentials J C B production now jti username password w = (Inr (r, c), w')"
  shows "\<exists>u h user row. get_user_by_username username (w_db w) = Some u \<and> u_password u = Some h \<and>
    checkpw B password h = Inr True \<and> u_is_verified u \<and>
    get_user_with_grants (u_id u) (w_db w) = Some user \<and>
    mint_access_token J C now ''password'' user (w_db w) = Inr (access_token r) \<and>
    token_create (refresh_token r) (u_id u) (now + days (REFRESH_TOKEN_EXPIRE C)) w = (Inr row, w') \<and>
    c = refresh_cookie C production (refresh_token r)"
  using assms
  by (auto simp: login_credentials_def Let_def and_then_Inr mint_for_def verify_password_def
      split: option.splits sum.splits if_splits)

lemma get_user_by_username_Some:
  "get_user_by_username n d = Some u \<Longrightarrow> u \<in> set (users d) \<and> u_username u = n"
  by (auto simp: get_user_by_username_def dest: find_SomeD)


definition plain_bcrypt :: bcrypt where
  "plain_bcrypt = \<lparr>checkpw = (\<lambda>p h. Inr (h = CHR ''h'' # p)), hashpw = (\<lambda>salt p. Inr (CHR ''h'' # p))\<rparr>"

lemma ann_logs_in:
  "\<exists>r c w'. login_credentials plain_jwt sample_config plain_bcrypt False 0 7 ''ann'' ''1'' sample_world = (Inr (r, c), w')"
proof -
  from ann_mints [of 0] obtain token where "mint_access_token plain_jwt sample_config 0 ''password''
      (load_user sample_db ann_row) sample_db = Inr token" by (auto simp: sample_world_def)
  moreover have "get_user_with_grants ann sample_db = Some (load_user sample_db ann_row)"
    using ann_loaded by (simp add: sample_world_def)
  moreover have "get_user_by_username ''ann'' sample_db = Some ann_row" "ann \<in> user_ids sample_db"
    by (simp_all add: sample_db_def ann_row_def get_user_by_username_def)
  moreover have "refresh_tokens sample_db = []" by (simp add: sample_db_def)
  ultimately show ?thesis
    by (simp add: login_credentials_def sample_world_def ann_row_def verify_password_def plain_bcrypt_def
        mint_for_def Let_def and_then_def token_create_def)
qed


text \<open>An account that Google signed up has no password, and a password login to it is not refused but fails.\<close>

lemma password_login_without_password:
  "get_user_by_username username (w_db w) = Some u \<Longrightarrow> u_password u = None \<Longrightarrow>
     login_credentials J C B production now jti username password w = (Inl AttributeError, w)"
  by (simp add: login_credentials_def verify_password_def)

subsection \<open>Names for Google accounts\<close>

lemma exists_by_username_image: "exists_by_username n d \<longleftrightarrow> n \<in> u_username ` set (users d)"
  by (force simp: exists_by_username_def)

lemma unique_username_loop_spec:
  "0 < s \<Longrightarrow> c = (if s = 1 then b else suffixed b s) \<Longrightarrow>
     suffixed b ` {2..<s} \<union> (if s = 1 then {} else {b}) \<subseteq> u_username ` set (users d) \<Longrightarrow>
   \<exists>k \<ge> s. unique_username_loop d b c s = (if k = 1 then b else suffixed b k) \<and>
     unique_username_loop d b c s \<notin> u_username ` set (users d) \<and>
     suffixed b ` {2..<k} \<union> (if k = 1 then {} else {b}) \<subseteq> u_username ` set (users d)"
proof (induction d b c s rule: unique_username_loop.induct)
  case (1 d b c s)
  show ?case
  proof (cases "exists_by_username c d")
    case True
    then have "c \<in> u_username ` set (users d)" by (simp add: exists_by_username_image)
    moreover have "{2..<Suc s} = (if s = 1 then {} else insert s {2..<s})" using 1(2) by auto
    ultimately have "suffixed b ` {2..<Suc s} \<union> (if Suc s = 1 then {} else {b}) \<subseteq> u_username ` set (users d)"
      using 1(2-4) by (auto split: if_splits)
    from 1(1) [OF True _ _ this] obtain k where "k \<ge> Suc s"
      "unique_username_loop d b (suffixed b (Suc s)) (Suc s) = (if k = 1 then b else suffixed b k)"
      "unique_username_loop d b (suffixed b (Suc s)) (Suc s) \<notin> u_username ` set (users d)"
      "suffixed b ` {2..<k} \<union> (if k = 1 then {} else {b}) \<subseteq> u_username ` set (users d)"
      using 1(2) by auto
    with True show ?thesis
      by (intro exI [of _ k]) (simp add: unique_username_loop.simps [of d b c s])
  next
    case False
    then have "c \<notin> u_username ` set (users d)" by (simp add: exists_by_username_image)
    moreover have "unique_username_loop d b c s = c" using False by (simp add: unique_username_loop.simps [of d b c s])
    ultimately show ?thesis using 1(3,4) by (intro exI [of _ s]) simp
  qed
qed

text \<open>
  C28. The loop that looks for a free user name ends, whatever names are taken, and gives a name
  that no user has: the sanitized local part of the address or, when that is taken, the part
  followed by the first free number from 2 on; every shorter attempt was taken.
\<close>

theorem unique_username_free:
  "\<exists>k \<ge> 1. let base = sanitize_identifier (takeWhile (\<lambda>c. c \<noteq> CHR ''@'') email) 50;
       name = build_unique_username email d in
     name = (if k = 1 then base else suffixed base k) \<and> \<not> exists_by_username name d \<and>
     suffixed base ` {2..<k} \<union> (if k = 1 then {} else {base}) \<subseteq> u_username ` set (users d) \<and>
     base \<noteq> [] \<and> list_all identifier_char base"
proof -
  let ?b = "sanitize_identifier (takeWhile (\<lambda>c. c \<noteq> CHR ''@'') email) 50"
  from unique_username_loop_spec [of 1 ?b ?b d] obtain k where "k \<ge> 1"
    "build_unique_username email d = (if k = 1 then ?b else suffixed ?b k)"
    "build_unique_username email d \<notin> u_username ` set (users d)"
    "suffixed ?b ` {2..<k} \<union> (if k = 1 then {} else {?b}) \<subseteq> u_username ` set (users d)"
    by (auto simp: build_unique_username_def)
  moreover have "list_all identifier_char ?b"
    using sanitize_identifier_chars by (simp add: list_all_iff)
  ultimately show ?thesis
    by (intro exI [of _ k]) (simp add: Let_def exists_by_username_image sanitize_identifier_length(1))
qed

subsection \<open>A reset link is not used up\<close>

lemma get_user_by_email_set_password:
  "get_user_by_email e (w_db (snd (set_password uid h w))) =
     map_option (\<lambda>u. if u_id u = uid then u\<lparr>u_password := Some h\<rparr> else u) (get_user_by_email e (w_db w))"
  by (simp add: set_password_def get_user_by_email_def write_user_def find_update_where)

text \<open>
  The message for a bad link speaks of one that was already used; but the same link sets the
  password again and again for as long as its signature is accepted.
\<close>

lemma reset_link_works_again:
  assumes "unsign S ''password-reset'' now' PASSWORD_RESET_MAX_AGE_SECONDS token = Some [(''email'', c # cs)]"
    and "verify_reset S B now salt token p p w = (Inr r, w')"
    and "unsign S ''password-reset'' now PASSWORD_RESET_MAX_AGE_SECONDS token = Some [(''email'', c # cs)]"
    and "hashpw B salt' p' = Inr h'"
  shows "\<exists>w''. verify_reset S B now' salt' token p' p' w' =
    (Inr (message_response 200 ''Account Password Reset Successfully''), w'')"
proof -
  from assms(2,3) obtain u h where "get_user_by_email (c # cs) (w_db w) = Some u" "w' = snd (set_password (u_id u) h w)"
    by (auto simp: verify_reset_def decode_password_reset_token_def get_password_hash_def and_then_Inr
        set_password_def split: option.splits)
  then obtain u' where "get_user_by_email (c # cs) (w_db w') = Some u'"
    by (auto simp: get_user_by_email_set_password)
  with assms(1,4) show ?thesis
    by (auto simp: verify_reset_def decode_password_reset_token_def get_password_hash_def and_then_def set_password_def lift_def)
qed

end
