(* ===== verification/Routes.thy ===== *)
theory Routes
  imports Gates Schemas AuthActions
begin

text \<open>
  \<^verbatim>\<open>app/api/v1/routes/\<close>: the endpoints of roles, permissions, users and tenants. An endpoint resolves
  its dependencies in the order FastAPI does (those of the decorator first, then the parameters),
  validates the body, calls its service and shapes the response; an exception of any of these is
  the answer. A dependency reads the database and changes nothing. Page numbers are not negative.
  The identifier of a new row and the bcrypt hash of the password of a request are arguments.
\<close>

definition depends :: "'a reader \<Rightarrow> ('a \<Rightarrow> 'b action) \<Rightarrow> 'b action" where
  "depends dep k w = (case dep (w_db w) of Inl e \<Rightarrow> (Inl e, w) | Inr x \<Rightarrow> k x w)"

definition body :: "exn + 'a \<Rightarrow> ('a \<Rightarrow> 'b action) \<Rightarrow> 'b action" where
  "body v k w = (case v of Inl e \<Rightarrow> (Inl e, w) | Inr x \<Rightarrow> k x w)"

definition respond :: "('a \<Rightarrow> exn + 'b) \<Rightarrow> 'a action \<Rightarrow> 'b action" where
  "respond f m w = (case m w of (r, w') \<Rightarrow> (bind_sum r f, w'))"

definition answer :: "(db \<Rightarrow> exn + 'a) \<Rightarrow> 'a action" where
  "answer f w = (f (w_db w), w)"

text \<open>\<open>Depends(permission_required(name))\<close>, resolved; the name was checked at import time.\<close>

definition needs :: "string \<Rightarrow> request \<Rightarrow> principal reader" where
  "needs name rq = (case permission_required name of Inl e \<Rightarrow> (\<lambda>_. Inl e) | Inr gate \<Rightarrow> gate rq)"

text \<open>A response model that is handed None does not fit.\<close>

definition present :: "('a \<Rightarrow> exn + 'b) \<Rightarrow> 'a option \<Rightarrow> exn + 'b" where
  "present f x = (case x of None \<Rightarrow> Inl ResponseValidationError | Some y \<Rightarrow> f y)"

subsection \<open>Roles\<close>

definition create_new_role :: "request \<Rightarrow> string \<Rightarrow> string list \<Rightarrow> role_response action" where
  "create_new_role rq name permission_names =
     depends (needs ''role:create'' rq) (\<lambda>_. depends (current_user rq) (\<lambda>user.
     body (RoleCreate name permission_names) (\<lambda>(n, ps). respond role_response_of (create_role n ps user))))"

definition read_role :: "request \<Rightarrow> int \<Rightarrow> role_response action" where
  "read_role rq role_id = depends (needs ''role:read.id'' rq) (\<lambda>p.
     respond role_response_of (service_get_role role_id (pr_is_superuser p) (pr_tenant_id p)))"

definition read_role_grants :: "request \<Rightarrow> int \<Rightarrow> (string list \<times> string list) action" where
  "read_role_grants rq role_id = depends (needs ''role:read.id'' rq) (\<lambda>p.
     get_role_grants role_id (pr_is_superuser p) (pr_tenant_id p))"

definition update_role_endpoint :: "request \<Rightarrow> int \<Rightarrow> string \<Rightarrow> role_response action" where
  "update_role_endpoint rq role_id name =
     depends (needs ''role:update'' rq) (\<lambda>_. depends (current_user rq) (\<lambda>user.
     body (RoleBase name) (\<lambda>n. respond (present role_response_of) (update_role role_id (Some n) user))))"

definition delete_role_endpoint :: "request \<Rightarrow> int \<Rightarrow> unit action" where
  "delete_role_endpoint rq role_id =
     depends (needs ''role:delete'' rq) (\<lambda>_. depends (current_user rq) (delete_role role_id))"

definition read_roles :: "request \<Rightarrow> nat \<Rightarrow> nat \<Rightarrow> role_response list action" where
  "read_roles rq skip limit = depends (needs ''role:read'' rq) (\<lambda>p. answer (\<lambda>d.
     traverse role_response_of (get_all_roles (pr_is_superuser p) (pr_tenant_id p) skip limit d)))"

definition add_permission_to_role_endpoint :: "request \<Rightarrow> int \<Rightarrow> int \<Rightarrow> role_response action" where
  "add_permission_to_role_endpoint rq role_id permission_id =
     depends (needs ''role:add-permission'' rq) (\<lambda>_. depends (current_user rq) (\<lambda>user.
       respond role_response_of (add_permission_to_role role_id permission_id user)))"

definition remove_permission_from_role_endpoint :: "request \<Rightarrow> int \<Rightarrow> int \<Rightarrow> role_response action" where
  "remove_permission_from_role_endpoint rq role_id permission_id =
     depends (needs ''role:delete-permission'' rq) (\<lambda>_. depends (current_user rq) (\<lambda>user.
       respond role_response_of (remove_permission_from_role role_id permission_id user)))"

definition add_grantable_role_endpoint :: "request \<Rightarrow> int \<Rightarrow> int \<Rightarrow> unit action" where
  "add_grantable_role_endpoint rq role_id grantable_role_id =
     depends (needs ''role:update'' rq) (\<lambda>_. depends (current_user rq)
       (service_add_grantable_role role_id grantable_role_id))"

definition remove_grantable_role_endpoint :: "request \<Rightarrow> int \<Rightarrow> int \<Rightarrow> unit action" where
  "remove_grantable_role_endpoint rq role_id grantable_role_id =
     depends (needs ''role:update'' rq) (\<lambda>_. depends (current_user rq)
       (service_remove_grantable_role role_id grantable_role_id))"

definition add_grantable_permission_endpoint :: "request \<Rightarrow> int \<Rightarrow> int \<Rightarrow> unit action" where
  "add_grantable_permission_endpoint rq role_id permission_id =
     depends (needs ''role:update'' rq) (\<lambda>_. depends (current_user rq)
       (service_add_grantable_permission role_id permission_id))"

definition remove_grantable_permission_endpoint :: "request \<Rightarrow> int \<Rightarrow> int \<Rightarrow> unit action" where
  "remove_grantable_permission_endpoint rq role_id permission_id =
     depends (needs ''role:update'' rq) (\<lambda>_. depends (current_user rq)
       (service_remove_grantable_permission role_id permission_id))"

subsection \<open>Permissions\<close>

definition read_permission :: "request \<Rightarrow> int \<Rightarrow> permission_response action" where
  "read_permission rq permission_id = depends (needs ''permission:read.id'' rq) (\<lambda>_. answer (\<lambda>d.
     bind_sum (service_get_permission permission_id d) permission_response_of))"

definition read_permissions :: "request \<Rightarrow> nat \<Rightarrow> nat \<Rightarrow> permission_response list action" where
  "read_permissions rq skip limit = depends (needs ''permission:read'' rq) (\<lambda>p. answer (\<lambda>d.
     let names = (if pr_is_superuser p then None else Some (names_for_mask (pr_perm_mask p))) in
     traverse permission_response_of (get_all_permissions skip limit names d)))"

subsection \<open>Users\<close>

definition get_my_grants :: "request \<Rightarrow> grantable_summary action" where
  "get_my_grants rq = depends (current_user rq) (\<lambda>user. answer (\<lambda>d. Inr (grantable_summary_of (get_grants user d))))"

definition create_user_endpoint ::
    "request \<Rightarrow> (string \<Rightarrow> string option) \<Rightarrow> uuid \<Rightarrow> string \<Rightarrow> string \<Rightarrow> string \<Rightarrow> string \<Rightarrow> user_list_item action" where
  "create_user_endpoint rq E new_id password_hash username email password =
     depends (needs ''user:create'' rq) (\<lambda>_. depends (current_user rq) (\<lambda>user.
     body (UserCreate E username email password) (\<lambda>data.
       respond (present (\<lambda>u. Inr (user_list_item_of u)))
         (create_user new_id user (uf_username data) (uf_email data) password_hash))))"

definition list_users_endpoint :: "request \<Rightarrow> nat \<Rightarrow> nat \<Rightarrow> uuid option \<Rightarrow> user_list_item list action" where
  "list_users_endpoint rq skip limit tenant_id = depends (needs ''user:read'' rq) (\<lambda>p. answer (\<lambda>d.
     Inr (map user_list_item_of
       (service_list_users (pr_tenant_id p) (pr_is_superuser p) skip limit tenant_id d))))"

definition count_users_endpoint :: "request \<Rightarrow> uuid option \<Rightarrow> nat action" where
  "count_users_endpoint rq tenant_id = depends (needs ''user:read'' rq) (\<lambda>p. answer (\<lambda>d.
     Inr (service_count_users (pr_tenant_id p) (pr_is_superuser p) tenant_id d)))"

definition get_user_endpoint :: "request \<Rightarrow> uuid \<Rightarrow> user_detail_response action" where
  "get_user_endpoint rq user_id = depends (needs ''user:read.id'' rq) (\<lambda>p.
     respond (\<lambda>x. Inr (user_detail_response_of x)) (get_user_detail (pr_tenant_id p) (pr_is_superuser p) user_id))"

definition assign_role_to_user :: "request \<Rightarrow> uuid \<Rightarrow> int \<Rightarrow> unit action" where
  "assign_role_to_user rq user_id role_id =
     depends (\<lambda>d. grant_role_required rq role_id d) (\<lambda>_. depends (current_user rq) (\<lambda>user. assign_role user user_id role_id))"

definition remove_role_from_user :: "request \<Rightarrow> uuid \<Rightarrow> int \<Rightarrow> unit action" where
  "remove_role_from_user rq user_id role_id =
     depends (grant_role_required rq role_id) (\<lambda>_. depends (current_user rq) (\<lambda>user. remove_role user user_id role_id))"

definition grant_permission_to_user :: "request \<Rightarrow> uuid \<Rightarrow> int \<Rightarrow> unit action" where
  "grant_permission_to_user rq user_id permission_id =
     depends (grant_permission_required rq permission_id) (\<lambda>_. depends (current_user rq)
       (\<lambda>user. service_grant_permission user user_id permission_id))"

definition revoke_permission_from_user :: "request \<Rightarrow> uuid \<Rightarrow> int \<Rightarrow> unit action" where
  "revoke_permission_from_user rq user_id permission_id =
     depends (grant_permission_required rq permission_id) (\<lambda>_. depends (current_user rq)
       (\<lambda>user. service_revoke_permission user user_id permission_id))"

definition deactivate_user :: "request \<Rightarrow> uuid \<Rightarrow> unit action" where
  "deactivate_user rq user_id = depends (needs ''user:deactivate'' rq) (\<lambda>p.
     service_set_user_active (pr_tenant_id p) (pr_is_superuser p) user_id False)"

definition activate_user :: "request \<Rightarrow> uuid \<Rightarrow> unit action" where
  "activate_user rq user_id = depends (needs ''user:deactivate'' rq) (\<lambda>p.
     service_set_user_active (pr_tenant_id p) (pr_is_superuser p) user_id True)"

subsection \<open>Tenants\<close>

definition create_tenant :: "request \<Rightarrow> (string \<Rightarrow> string option) \<Rightarrow> uuid \<Rightarrow> uuid \<Rightarrow> string \<Rightarrow> string \<Rightarrow> string \<Rightarrow>
    string \<Rightarrow> string \<Rightarrow> string list option \<Rightarrow> (tenant_response \<times> tenant_admin_response) action" where
  "create_tenant rq E new_tenant_id new_user_id password_hash name admin_username admin_email admin_password allowed =
     depends (superuser_required rq) (\<lambda>user.
     body (TenantCreate E name admin_username admin_email admin_password allowed) (\<lambda>data.
       respond (\<lambda>(t, u). Inr (tenant_response_of t, tenant_admin_response_of u))
         (create_tenant_with_admin new_tenant_id new_user_id user (tf_name data) (uf_username (tf_admin data))
           (uf_email (tf_admin data)) password_hash (tf_allowed_permissions data))))"

definition list_tenants_endpoint :: "request \<Rightarrow> nat \<Rightarrow> nat \<Rightarrow> tenant_response list action" where
  "list_tenants_endpoint rq skip limit = depends (superuser_required rq) (\<lambda>_. answer (\<lambda>d.
     Inr (map tenant_response_of (list_tenants skip limit d))))"

definition get_tenant_endpoint :: "request \<Rightarrow> uuid \<Rightarrow> tenant_response action" where
  "get_tenant_endpoint rq tenant_id = depends (superuser_required rq) (\<lambda>_.
     respond (\<lambda>t. Inr (tenant_response_of t)) (get_tenant tenant_id))"

definition deactivate_tenant :: "request \<Rightarrow> uuid \<Rightarrow> unit action" where
  "deactivate_tenant rq tenant_id = depends (superuser_required rq) (\<lambda>user.
     respond (\<lambda>_. Inr ()) (service_set_tenant_active user tenant_id False))"

definition activate_tenant :: "request \<Rightarrow> uuid \<Rightarrow> unit action" where
  "activate_tenant rq tenant_id = depends (superuser_required rq) (\<lambda>user.
     respond (\<lambda>_. Inr ()) (service_set_tenant_active user tenant_id True))"

definition update_tenant_permissions_endpoint :: "request \<Rightarrow> uuid \<Rightarrow> string list \<Rightarrow> tenant_response action" where
  "update_tenant_permissions_endpoint rq tenant_id allowed = depends (superuser_required rq) (\<lambda>user.
     body (TenantPermissionsUpdate allowed) (\<lambda>names.
       respond (\<lambda>t. Inr (tenant_response_of t)) (update_tenant_permissions user tenant_id names)))"

text \<open>\<open>GET /auth/user\<close>, which reads the name of the tenant from the loaded object.\<close>

definition get_current_user_info :: "request \<Rightarrow> user_response action" where
  "get_current_user_info rq = depends (current_user rq) (\<lambda>user. answer (\<lambda>d.
     Inr \<lparr>ur_id = u_id user, ur_username = u_username user, ur_email = u_email user,
       ur_tenant_id = u_tenant_id user, ur_tenant_name = map_option t_name (tenant_of user),
       ur_is_superuser = u_is_superuser user\<rparr>))"

subsection \<open>Accounts\<close>

text \<open>
  \<open>account.py\<close> and \<open>google_oauth.py\<close>: no token is asked for. The cookie of a logout may be absent.
\<close>

definition register_user :: "bcrypt \<Rightarrow> (string \<Rightarrow> string option) \<Rightarrow> uuid \<Rightarrow> string \<Rightarrow> string \<Rightarrow> string \<Rightarrow> string \<Rightarrow>
    (string \<times> user_response) action" where
  "register_user B E new_id salt username email password = body (UserRegister E username email password)
     (\<lambda>data. register B new_id salt (uf_username data) (uf_email data) (uf_password data))"

definition verify_user_account :: "signer \<Rightarrow> int \<Rightarrow> string \<Rightarrow> response action" where
  "verify_user_account S now token = verify_mail S now token"

definition logout_user :: "string option \<Rightarrow> (string \<times> string) action" where
  "logout_user cookie = logout cookie"

definition refresh_access_token :: "jwt_lib \<Rightarrow> config \<Rightarrow> int \<Rightarrow> uuid \<Rightarrow> string \<Rightarrow> token_response action" where
  "refresh_access_token J C now jti token = refresh J C now jti token"

definition reset_password_mail :: "(string \<Rightarrow> string option) \<Rightarrow> string \<Rightarrow> (string \<times> string) action" where
  "reset_password_mail E email = body (EmailStr E email) reset_password"

text \<open>The new password of a reset is any string: its schema does not ask for a strong one.\<close>

definition reset_password_update :: "signer \<Rightarrow> bcrypt \<Rightarrow> int \<Rightarrow> string \<Rightarrow> string \<Rightarrow> string \<Rightarrow> string \<Rightarrow> response action" where
  "reset_password_update S B now salt token new_password confirm_password =
     verify_reset S B now salt token new_password confirm_password"

lemma reset_accepts_weak_password:
  assumes "unsign S ''password-reset'' now PASSWORD_RESET_MAX_AGE_SECONDS token = Some [(''email'', c # cs)]"
    and "get_user_by_email (c # cs) (w_db w) = Some u" "hashpw B salt ''a'' = Inr h"
  shows "reset_password_update S B now salt token ''a'' ''a'' w =
      (Inr (message_response 200 ''Account Password Reset Successfully''), snd (set_password (u_id u) h w)) \<and>
    (\<exists>e. register_user B E i salt n m ''a'' w = (Inl e, w))"
proof -
  have "validate_strong_password ''a'' = Inl (ValueError
      ''Password must be 8-128 chars with uppercase, lowercase, digit, and special character'')"
    by code_simp
  then have "\<exists>e. register_user B E i salt n m ''a'' w = (Inl e, w)"
    by (simp add: register_user_def body_def UserRegister_def StrongPassword_def validated_def bind_sum_def
        SafeStr_def EmailStr_def length_between_def split: sum.split option.split)
  with assms show ?thesis
    by (simp add: reset_password_update_def verify_reset_def decode_password_reset_token_def
        get_password_hash_def and_then_def set_password_def lift_def)
qed

subsection \<open>Every changing endpoint is guarded\<close>

text \<open>The calls that may change something, with the arguments of their requests.\<close>

datatype route_call =
    Create_role string "string list"
  | Update_role int string
  | Delete_role int
  | Add_permission int int
  | Remove_permission int int
  | Add_grantable_role int int
  | Remove_grantable_role int int
  | Add_grantable_permission int int
  | Remove_grantable_permission int int
  | Create_user "string \<Rightarrow> string option" uuid string string string string
  | Assign_role uuid int
  | Remove_role uuid int
  | Grant_permission uuid int
  | Revoke_permission uuid int
  | Set_user_active uuid bool
  | Create_tenant "string \<Rightarrow> string option" uuid uuid string string string string string "string list option"
  | Set_tenant_active uuid bool
  | Update_tenant_permissions uuid "string list"

text \<open>What an endpoint does to the world, and the exception it ends with, if any.\<close>

definition outcome_of :: "'a action \<Rightarrow> world \<Rightarrow> exn option \<times> world" where
  "outcome_of m w = (case m w of (Inl e, w') \<Rightarrow> (Some e, w') | (Inr _, w') \<Rightarrow> (None, w'))"

fun serve :: "request \<Rightarrow> route_call \<Rightarrow> world \<Rightarrow> exn option \<times> world" where
  "serve rq (Create_role n ps) = outcome_of (create_new_role rq n ps)"
| "serve rq (Update_role r n) = outcome_of (update_role_endpoint rq r n)"
| "serve rq (Delete_role r) = outcome_of (delete_role_endpoint rq r)"
| "serve rq (Add_permission r p) = outcome_of (add_permission_to_role_endpoint rq r p)"
| "serve rq (Remove_permission r p) = outcome_of (remove_permission_from_role_endpoint rq r p)"
| "serve rq (Add_grantable_role r g) = outcome_of (add_grantable_role_endpoint rq r g)"
| "serve rq (Remove_grantable_role r g) = outcome_of (remove_grantable_role_endpoint rq r g)"
| "serve rq (Add_grantable_permission r p) = outcome_of (add_grantable_permission_endpoint rq r p)"
| "serve rq (Remove_grantable_permission r p) = outcome_of (remove_grantable_permission_endpoint rq r p)"
| "serve rq (Create_user E i h n e p) = outcome_of (create_user_endpoint rq E i h n e p)"
| "serve rq (Assign_role u r) = outcome_of (assign_role_to_user rq u r)"
| "serve rq (Remove_role u r) = outcome_of (remove_role_from_user rq u r)"
| "serve rq (Grant_permission u p) = outcome_of (grant_permission_to_user rq u p)"
| "serve rq (Revoke_permission u p) = outcome_of (revoke_permission_from_user rq u p)"
| "serve rq (Set_user_active u active) = outcome_of (if active then activate_user rq u else deactivate_user rq u)"
| "serve rq (Create_tenant E i j h n un e p a) = outcome_of (create_tenant rq E i j h n un e p a)"
| "serve rq (Set_tenant_active t active) = outcome_of (if active then activate_tenant rq t else deactivate_tenant rq t)"
| "serve rq (Update_tenant_permissions t ns) = outcome_of (update_tenant_permissions_endpoint rq t ns)"

text \<open>What the bearer of the token must hold: a permission, the right to grant, or to be a superuser.\<close>

definition bears :: "string \<Rightarrow> request \<Rightarrow> db \<Rightarrow> bool" where
  "bears name rq d \<longleftrightarrow> (\<exists>p b. current_principal rq d = Inr p \<and> registry_bit name = Some b \<and>
     (pr_is_superuser p \<or> bit (pr_perm_mask p) b))"

fun permitted :: "request \<Rightarrow> route_call \<Rightarrow> db \<Rightarrow> bool" where
  "permitted rq (Create_role n ps) d = bears ''role:create'' rq d"
| "permitted rq (Update_role r n) d = bears ''role:update'' rq d"
| "permitted rq (Delete_role r) d = bears ''role:delete'' rq d"
| "permitted rq (Add_permission r p) d = bears ''role:add-permission'' rq d"
| "permitted rq (Remove_permission r p) d = bears ''role:delete-permission'' rq d"
| "permitted rq (Add_grantable_role r g) d = bears ''role:update'' rq d"
| "permitted rq (Remove_grantable_role r g) d = bears ''role:update'' rq d"
| "permitted rq (Add_grantable_permission r p) d = bears ''role:update'' rq d"
| "permitted rq (Remove_grantable_permission r p) d = bears ''role:update'' rq d"
| "permitted rq (Create_user E i h n e p) d = bears ''user:create'' rq d"
| "permitted rq (Assign_role u r) d = (\<exists>user. current_user rq d = Inr user \<and> can_grant_role user r d)"
| "permitted rq (Remove_role u r) d = (\<exists>user. current_user rq d = Inr user \<and> can_grant_role user r d)"
| "permitted rq (Grant_permission u p) d = (\<exists>user. current_user rq d = Inr user \<and> can_grant_permission user p d)"
| "permitted rq (Revoke_permission u p) d = (\<exists>user. current_user rq d = Inr user \<and> can_grant_permission user p d)"
| "permitted rq (Set_user_active u active) d = bears ''user:deactivate'' rq d"
| "permitted rq _ d = (\<exists>user. current_user rq d = Inr user \<and> u_is_superuser user)"

lemma needs_bears: "needs name rq d = Inr p \<Longrightarrow> bears name rq d"
  by (auto simp: needs_def bears_def permission_required_def check_Inr permission_checker_bit
      split: option.splits if_splits)

text \<open>
  The rule for endpoints: what holds of an endpoint whose first dependency implies the right, and
  whose service runs operations of the repositories.
\<close>

definition guarded :: "(db \<Rightarrow> bool) \<Rightarrow> 'a action \<Rightarrow> bool" where
  "guarded P m \<longleftrightarrow> (\<forall>w. (P (w_db w) \<or> (\<exists>e. m w = (Inl e, w))) \<and>
     (world_inv w \<longrightarrow> world_step\<^sup>*\<^sup>* w (snd (m w))))"

lemma guarded_depends:
  assumes "\<And>d x. dep d = Inr x \<Longrightarrow> P d"
    and "\<And>x w. world_inv w \<Longrightarrow> dep (w_db w) = Inr x \<Longrightarrow> world_step\<^sup>*\<^sup>* w (snd (k x w))"
  shows "guarded P (depends dep k)"
  using assms unfolding guarded_def depends_def
  by (metis (mono_tags) rtranclp.rtrancl_refl snd_conv sum.case_eq_if sum.collapse(1) sum.collapse(2))

lemma runs_depends:
  "(\<And>x. dep (w_db w) = Inr x \<Longrightarrow> world_step\<^sup>*\<^sup>* w (snd (k x w))) \<Longrightarrow> world_step\<^sup>*\<^sup>* w (snd (depends dep k w))"
  by (auto simp: depends_def split: sum.split)

lemma runs_body: "(\<And>x. v = Inr x \<Longrightarrow> world_step\<^sup>*\<^sup>* w (snd (k x w))) \<Longrightarrow> world_step\<^sup>*\<^sup>* w (snd (body v k w))"
  by (auto simp: body_def split: sum.split)

lemma runs_respond: "world_step\<^sup>*\<^sup>* w (snd (m w)) \<Longrightarrow> world_step\<^sup>*\<^sup>* w (snd (respond f m w))"
  by (simp add: respond_def case_prod_beta)

lemma runs_sound: "sound_call m w \<Longrightarrow> world_step\<^sup>*\<^sup>* w (snd (m w))"
  by (simp add: sound_call_def)

lemma runs_create_role:
  "world_inv w \<Longrightarrow> current_user rq (w_db w) = Inr user \<Longrightarrow> world_step\<^sup>*\<^sup>* w (snd (create_role n ps user w))"
  by (intro runs_sound sound_create_role creator_tenant_exists) (auto dest: current_user_loaded)

lemmas tenant_steps = repo_step.tenant_create [THEN runs_step] repo_step.create_root_tenant_role [THEN runs_step]
  repo_step.assign_to_user [THEN runs_step] repo_step.set_tenant_active [THEN runs_step]
  repo_step.set_allowed_permission_mask [THEN runs_step] repo_step.sync_root [THEN runs_step] auth_steps

lemma runs_tenants:
  "world_step\<^sup>*\<^sup>* w (snd (create_tenant_with_admin i j actor n un e h a w))"
  "world_step\<^sup>*\<^sup>* w (snd (service_set_tenant_active actor t active w))"
  "world_step\<^sup>*\<^sup>* w (snd (update_tenant_permissions actor t ns w))"
  by (auto simp: create_tenant_with_admin_def service_set_tenant_active_def update_tenant_permissions_def
      get_tenant_def Let_def intro!: runs.and_then tenant_steps split: option.split sum.split)

lemmas runs_services = sound_update_role [THEN runs_sound] sound_delete_role [THEN runs_sound]
  sound_add_permission_to_role [THEN runs_sound] sound_remove_permission_from_role [THEN runs_sound]
  sound_grantable [THEN runs_sound] sound_create_user [THEN runs_sound] sound_user_active [THEN runs_sound]
  sound_role_changes [THEN runs_sound] sound_grant_changes [THEN runs_sound] runs_create_role runs_tenants

lemma guarded_role_endpoints:
  "guarded (bears ''role:create'' rq) (create_new_role rq n ps)"
  "guarded (bears ''role:update'' rq) (update_role_endpoint rq r n)"
  "guarded (bears ''role:delete'' rq) (delete_role_endpoint rq r)"
  "guarded (bears ''role:add-permission'' rq) (add_permission_to_role_endpoint rq r p)"
  "guarded (bears ''role:delete-permission'' rq) (remove_permission_from_role_endpoint rq r p)"
  unfolding create_new_role_def update_role_endpoint_def delete_role_endpoint_def
    add_permission_to_role_endpoint_def remove_permission_from_role_endpoint_def
  by (rule guarded_depends, erule needs_bears,
      auto intro!: runs_depends runs_body runs_respond runs_services)+

lemma guarded_grantable_endpoints:
  "guarded (bears ''role:update'' rq) (add_grantable_role_endpoint rq r g)"
  "guarded (bears ''role:update'' rq) (remove_grantable_role_endpoint rq r g)"
  "guarded (bears ''role:update'' rq) (add_grantable_permission_endpoint rq r p)"
  "guarded (bears ''role:update'' rq) (remove_grantable_permission_endpoint rq r p)"
  unfolding add_grantable_role_endpoint_def remove_grantable_role_endpoint_def
    add_grantable_permission_endpoint_def remove_grantable_permission_endpoint_def
  by (rule guarded_depends, erule needs_bears, auto intro!: runs_depends runs_services)+

lemma guarded_user_endpoints:
  "guarded (bears ''user:create'' rq) (create_user_endpoint rq E i h n e pw)"
  "guarded (bears ''user:deactivate'' rq) (deactivate_user rq u)"
  "guarded (bears ''user:deactivate'' rq) (activate_user rq u)"
  "guarded (\<lambda>d. \<exists>user. current_user rq d = Inr user \<and> can_grant_role user r d) (assign_role_to_user rq u r)"
  "guarded (\<lambda>d. \<exists>user. current_user rq d = Inr user \<and> can_grant_role user r d) (remove_role_from_user rq u r)"
  "guarded (\<lambda>d. \<exists>user. current_user rq d = Inr user \<and> can_grant_permission user p d) (grant_permission_to_user rq u p)"
  "guarded (\<lambda>d. \<exists>user. current_user rq d = Inr user \<and> can_grant_permission user p d) (revoke_permission_from_user rq u p)"
  unfolding create_user_endpoint_def deactivate_user_def activate_user_def assign_role_to_user_def
    remove_role_from_user_def grant_permission_to_user_def revoke_permission_from_user_def
  by (rule guarded_depends,
      force simp: grant_role_required_Inr grant_permission_required_Inr dest: needs_bears,
      auto intro!: runs_depends runs_body runs_respond runs_services)+

lemma guarded_tenant_endpoints:
  "guarded (\<lambda>d. \<exists>user. current_user rq d = Inr user \<and> u_is_superuser user) (create_tenant rq E i j h n un e pw a)"
  "guarded (\<lambda>d. \<exists>user. current_user rq d = Inr user \<and> u_is_superuser user) (deactivate_tenant rq t)"
  "guarded (\<lambda>d. \<exists>user. current_user rq d = Inr user \<and> u_is_superuser user) (activate_tenant rq t)"
  "guarded (\<lambda>d. \<exists>user. current_user rq d = Inr user \<and> u_is_superuser user) (update_tenant_permissions_endpoint rq t ns)"
  unfolding create_tenant_def deactivate_tenant_def activate_tenant_def update_tenant_permissions_endpoint_def
  by (rule guarded_depends, force simp: superuser_required_Inr,
      auto intro!: runs_body runs_respond runs_services)+

lemma guarded_outcome:
  "guarded P m \<Longrightarrow> world_inv w \<Longrightarrow> (P (w_db w) \<or> (\<exists>e. outcome_of m w = (Some e, w))) \<and>
     world_step\<^sup>*\<^sup>* w (snd (outcome_of m w))"
  by (fastforce simp: guarded_def outcome_of_def split: prod.split sum.split)

lemma guarded_switches:
  "guarded (bears ''user:deactivate'' rq) (if active then activate_user rq u else deactivate_user rq u)"
  "guarded (\<lambda>d. \<exists>user. current_user rq d = Inr user \<and> u_is_superuser user)
     (if active then activate_tenant rq t else deactivate_tenant rq t)"
  by (simp_all add: guarded_user_endpoints guarded_tenant_endpoints)

lemmas guarded_endpoints = guarded_role_endpoints guarded_grantable_endpoints guarded_user_endpoints
  guarded_tenant_endpoints guarded_switches

text \<open>
  C3. No endpoint changes anything without the right it asks for. Whatever request arrives at an
  endpoint that can change roles, users or tenants, either its bearer has the right (the bit of
  the permission in an accepted token, a role configured to grant what is granted, or superuser)
  or the answer is an exception and the database and the cache mirror are as before; and what a
  request does change, it changes by operations of the repositories, so that every invariant holds
  afterwards.
\<close>

theorem routes_guarded:
  assumes "world_inv w"
  shows "(permitted rq c (w_db w) \<or> (\<exists>e. serve rq c w = (Some e, w))) \<and>
    world_step\<^sup>*\<^sup>* w (snd (serve rq c w)) \<and> world_inv (snd (serve rq c w))"
proof -
  have "(permitted rq c (w_db w) \<or> (\<exists>e. serve rq c w = (Some e, w))) \<and> world_step\<^sup>*\<^sup>* w (snd (serve rq c w))"
    by (cases c; simp only: serve.simps permitted.simps;
        rule guarded_endpoints [THEN guarded_outcome, OF assms])
  with world_steps_inv assms show ?thesis by blast
qed

lemma routes_guarded_witness:
  "\<exists>token e p. current_principal (sample_request token 5000000) (w_db without_reader) = Inr p \<and>
     serve (sample_request token 5000000) (Set_user_active bob False) without_reader = (Some e, without_reader)"
proof -
  from ann_live_request obtain token p where
    mint: "mint_access_token plain_jwt sample_config 0 ''password'' (load_user sample_db ann_row)
      (w_db sample_world) = Inr token"
    and ok: "get_current_principal plain_jwt sample_config 5000000
      (drained (synced_worker (w_redis without_reader))) token = Inr p" by blast
  let ?rq = "sample_request token 5000000"
  have cp: "current_principal ?rq (w_db without_reader) = Inr p"
    by (simp add: sample_request_def current_principal_def ok)
  have "p = \<lparr>pr_id = ann, pr_tenant_id = Some acme, pr_is_superuser = False,
      pr_perm_mask = effective_permission_mask (load_user sample_db ann_row), pr_perm_version = 1\<rparr>"
    using principal_of_minted [OF jwt_roundtrip_plain world_inv_db [OF world_inv_sample] _ mint, of 5000000] ok
      get_user_loaded [OF ann_loaded] by (simp add: ann_row_def split: if_splits)
  moreover have "effective_permission_mask (load_user sample_db ann_row) = 35"
    by (simp add: sample_eval)
  ultimately have "\<not> permitted ?rq (Set_user_active bob False) (w_db without_reader)"
    by (simp add: bears_def cp PERMISSION_REGISTRY_def bit_iff_odd)
  moreover have "world_inv without_reader"
    using world_steps_inv [of sample_world without_reader] world_inv_sample
    by (auto simp: without_reader_def intro: runs_step repo_step.remove_from_user)
  ultimately obtain e where "serve ?rq (Set_user_active bob False) without_reader = (Some e, without_reader)"
    using routes_guarded [of without_reader ?rq "Set_user_active bob False"] by blast
  with cp show ?thesis by blast
qed

end
