(* ===== verification/Router.thy ===== *)
theory Router
  imports Prelude
begin

text \<open>
  The routing table: the decorators of the files of \<^verbatim>\<open>app/api/v1/routes/\<close>, in the order the files
  declare them, and the \<open>include_router\<close> calls of \<^verbatim>\<open>app/main.py\<close>, in theirs. A path is the list of
  what stands between its slashes, so a trailing slash is a last empty segment. A parameter carries
  the type its endpoint declares. Which route answers a request is the framework's choice; its
  documentation says that routes are tried in order, and only that is used.
\<close>

datatype verb = Get | Post | Put | Patch | Delete

datatype path_type = Text | Integer | Uuid

datatype segment = Lit string | Param path_type string

type_synonym route = "verb \<times> segment list \<times> string"

subsection \<open>The routers\<close>

definition account_router :: "route list" where
  "account_router =
    [(Post, [Lit ''register''], ''register_user''),
     (Get, [Lit ''verify'', Param Text ''token''], ''verify_user_account''),
     (Post, [Lit ''login''], ''login_user''),
     (Post, [Lit ''logout''], ''logout_user''),
     (Post, [Lit ''refresh''], ''refresh_access_token''),
     (Post, [Lit ''reset'', Lit ''password''], ''reset_password_mail''),
     (Post, [Lit ''reset'', Lit ''password'', Param Text ''token'', Lit ''verify''], ''reset_password_update''),
     (Get, [Lit ''user''], ''get_current_user_info'')]"

definition google_router :: "route list" where
  "google_router =
    [(Get, [Lit ''google''], ''auth_google''),
     (Get, [Lit ''google'', Lit ''callback''], ''google_callback'')]"

definition roles_router :: "route list" where
  "roles_router =
    [(Post, [Lit ''''], ''create_new_role''),
     (Get, [Param Integer ''role_id''], ''read_role''),
     (Get, [Param Integer ''role_id'', Lit ''grants''], ''read_role_grants''),
     (Put, [Param Integer ''role_id''], ''update_role_endpoint''),
     (Delete, [Param Integer ''role_id''], ''delete_role_endpoint''),
     (Get, [Lit ''''], ''read_roles''),
     (Post, [Param Integer ''role_id'', Lit ''permissions'', Param Integer ''permission_id''],
        ''add_permission_to_role_endpoint''),
     (Delete, [Param Integer ''role_id'', Lit ''permissions'', Param Integer ''permission_id''],
        ''remove_permission_from_role_endpoint''),
     (Post, [Param Integer ''role_id'', Lit ''grantable-roles'', Param Integer ''grantable_role_id''],
        ''add_grantable_role_endpoint''),
     (Delete, [Param Integer ''role_id'', Lit ''grantable-roles'', Param Integer ''grantable_role_id''],
        ''remove_grantable_role_endpoint''),
     (Post, [Param Integer ''role_id'', Lit ''grantable-permissions'', Param Integer ''permission_id''],
        ''add_grantable_permission_endpoint''),
     (Delete, [Param Integer ''role_id'', Lit ''grantable-permissions'', Param Integer ''permission_id''],
        ''remove_grantable_permission_endpoint'')]"

definition permission_router :: "route list" where
  "permission_router =
    [(Get, [Param Integer ''permission_id''], ''read_permission''),
     (Get, [Lit ''''], ''read_permissions'')]"

definition users_router :: "route list" where
  "users_router =
    [(Get, [Lit ''me'', Lit ''grants''], ''get_my_grants''),
     (Post, [Lit ''''], ''create_user''),
     (Get, [Lit ''''], ''list_users''),
     (Get, [Lit ''count''], ''count_users''),
     (Get, [Param Uuid ''user_id''], ''get_user''),
     (Post, [Param Uuid ''user_id'', Lit ''roles'', Param Integer ''role_id''], ''assign_role_to_user''),
     (Delete, [Param Uuid ''user_id'', Lit ''roles'', Param Integer ''role_id''], ''remove_role_from_user''),
     (Post, [Param Uuid ''user_id'', Lit ''permissions'', Param Integer ''permission_id''],
        ''grant_permission_to_user''),
     (Delete, [Param Uuid ''user_id'', Lit ''permissions'', Param Integer ''permission_id''],
        ''revoke_permission_from_user''),
     (Post, [Param Uuid ''user_id'', Lit ''deactivate''], ''deactivate_user''),
     (Post, [Param Uuid ''user_id'', Lit ''activate''], ''activate_user'')]"

definition tenant_router :: "route list" where
  "tenant_router =
    [(Post, [Lit ''''], ''create_tenant''),
     (Get, [Lit ''''], ''list_tenants''),
     (Get, [Param Uuid ''tenant_id''], ''get_tenant''),
     (Post, [Param Uuid ''tenant_id'', Lit ''deactivate''], ''deactivate_tenant''),
     (Post, [Param Uuid ''tenant_id'', Lit ''activate''], ''activate_tenant''),
     (Patch, [Param Uuid ''tenant_id'', Lit ''permissions''], ''update_tenant_permissions'')]"

definition health_router :: "route list" where
  "health_router =
    [(Get, [Lit ''health''], ''health_check''),
     (Get, [Lit ''health'', Lit ''live''], ''liveness''),
     (Get, [Lit ''health'', Lit ''ready''], ''readiness'')]"

subsection \<open>The application\<close>

definition include_router :: "string list \<Rightarrow> route list \<Rightarrow> route list" where
  "include_router prefix rs = map (\<lambda>(v, t, e). (v, map Lit prefix @ t, e)) rs"

definition app_routes :: "route list" where
  "app_routes =
     include_router [''api'', ''v1'', ''auth''] account_router @
     include_router [''api'', ''v1'', ''auth''] google_router @
     include_router [''api'', ''v1'', ''role''] roles_router @
     include_router [''api'', ''v1'', ''permission''] permission_router @
     include_router [''api'', ''v1'', ''users''] users_router @
     include_router [''api'', ''v1'', ''tenants''] tenant_router @
     include_router [''api'', ''v1''] health_router"

subsection \<open>Which route answers\<close>

text \<open>A parameter stands for any text between two slashes, whatever its type: the type is checked later.\<close>

fun stands_for :: "segment \<Rightarrow> string \<Rightarrow> bool" where
  "stands_for (Lit a) s \<longleftrightarrow> s = a"
| "stands_for (Param ty x) s \<longleftrightarrow> s \<noteq> ''''"

definition fits :: "verb \<Rightarrow> string list \<Rightarrow> route \<Rightarrow> bool" where
  "fits v p r \<longleftrightarrow> (case r of (v', t, e) \<Rightarrow> v' = v \<and> list_all2 stands_for t p)"

text \<open>
  The paths a client means by a template: a parameter is a value of its type. Only what the values
  look like matters here: the text of a UUID has at least 32 characters.
\<close>

fun value_of :: "segment \<Rightarrow> string \<Rightarrow> bool" where
  "value_of (Lit a) s \<longleftrightarrow> s = a"
| "value_of (Param Uuid x) s \<longleftrightarrow> 32 \<le> length s"
| "value_of (Param ty x) s \<longleftrightarrow> s \<noteq> ''''"

text \<open>Can an earlier route take a path that a client means for a later one?\<close>

fun takes :: "segment \<Rightarrow> segment \<Rightarrow> bool" where
  "takes (Lit a) s \<longleftrightarrow> value_of s a"
| "takes (Param ty x) (Lit b) \<longleftrightarrow> b \<noteq> ''''"
| "takes (Param ty x) (Param ty' y) \<longleftrightarrow> True"

definition shadows :: "route \<Rightarrow> route \<Rightarrow> bool" where
  "shadows r r' \<longleftrightarrow> (case (r, r') of ((v, t, e), (v', t', e')) \<Rightarrow> v = v' \<and> list_all2 takes t t')"

fun unshadowed :: "route list \<Rightarrow> bool" where
  "unshadowed [] \<longleftrightarrow> True"
| "unshadowed (r # rs) \<longleftrightarrow> list_all (\<lambda>r'. \<not> shadows r r') rs \<and> unshadowed rs"

lemma value_stands_for: "value_of s x \<Longrightarrow> stands_for s x"
  by (cases "(s, x)" rule: value_of.cases) auto

lemma takes_complete: "stands_for s x \<Longrightarrow> value_of s' x \<Longrightarrow> takes s s'"
  by (cases "(s, s')" rule: takes.cases) auto

lemma list_takes_complete:
  "list_all2 stands_for t p \<Longrightarrow> list_all2 value_of t' p \<Longrightarrow> list_all2 takes t t'"
  by (fastforce simp: list_all2_conv_all_nth intro: takes_complete)

lemma find_unshadowed:
  "unshadowed rs \<Longrightarrow> (v, t, e) \<in> set rs \<Longrightarrow> list_all2 value_of t p \<Longrightarrow> find (fits v p) rs = Some (v, t, e)"
proof (induction rs)
  case (Cons r rs)
  show ?case
  proof (cases "r = (v, t, e)")
    case True
    with list_all2_mono [OF Cons.prems(3) value_stands_for] show ?thesis by (simp add: fits_def)
  next
    case False
    with Cons.prems have "\<not> shadows r (v, t, e)" by (auto simp: list_all_iff)
    with Cons.prems(3) have "\<not> fits v p r"
      by (auto simp: fits_def shadows_def dest: list_takes_complete split: prod.splits)
    with False Cons show ?thesis by auto
  qed
qed simp

lemma app_routes_unshadowed: "unshadowed app_routes"
  by code_simp

text \<open>
  C40. Every route can be reached: no route declared earlier, in the same file or in a router
  included earlier, answers for it. For every route of the application and every path that is its
  template with values of the declared types in place of the parameters, a framework that takes
  the first route in order of declaration that fits calls the endpoint of that route. So
  \<open>/users/count\<close>, which \<open>/users/{user_id}\<close> would take too, is the count.
\<close>

theorem every_route_reachable:
  assumes "\<And>rs v p r. find (fits v p) rs = Some r \<Longrightarrow> dispatch rs v p = Some (snd (snd r))"
    and "(v, t, e) \<in> set app_routes" and "list_all2 value_of t p"
  shows "dispatch app_routes v p = Some e"
  using assms(1) find_unshadowed [OF app_routes_unshadowed assms(2,3)] by fastforce

lemma every_route_reachable_witness:
  "map_option (\<lambda>r. snd (snd r)) (find (fits Get [''api'', ''v1'', ''users'', ''count'']) app_routes) =
     Some ''count_users''"
  by (rule every_route_reachable [where dispatch = "\<lambda>rs v p. map_option (\<lambda>r. snd (snd r)) (find (fits v p) rs)"
        and t = "[Lit ''api'', Lit ''v1'', Lit ''users'', Lit ''count'']"])
    (simp_all add: app_routes_def include_router_def users_router_def)

end
