(* ===== verification/SyncSeed.thy ===== *)
theory SyncSeed
  imports Repositories
begin

text \<open>
  \<^verbatim>\<open>app/cli/sync_permissions.py\<close>, which the application runs when it starts, and
  \<^verbatim>\<open>app/cli/seed.py\<close>, which creates the first superuser. What they print is not modelled; the dash of a message, which is
  not among the characters of eight bits, stands as its UTF-8 bytes.
\<close>

definition mismatch :: "string \<Rightarrow> nat option \<Rightarrow> nat \<Rightarrow> string" where
  "mismatch name db_bit code_bit =
     ''Permission registry mismatch for '' @ [CHR 39] @ name @ [CHR 39] @ '': db bit_position='' @
     (case db_bit of None \<Rightarrow> ''None'' | Some b \<Rightarrow> str_int (int b)) @ '', code bit_position='' @ str_int (int code_bit) @
     ''. Never edit an existing PERMISSION_REGISTRY value '' @ [CHR 0xE2, CHR 0x80, CHR 0x94] @ '' see registry.py.''"

fun sync_loop :: "(string \<times> nat) list \<Rightarrow> nat \<Rightarrow> nat action" where
  "sync_loop [] created w = (Inr created, w)"
| "sync_loop ((name, b) # rest) created w =
     (case get_permission_by_name name (w_db w) of
        Some existing \<Rightarrow>
          if p_bit_position existing \<noteq> Some b
          then (Inl (RuntimeError (mismatch name (p_bit_position existing) b)), w)
          else sync_loop rest created w
      | None \<Rightarrow> and_then (create_with_bit name b) (\<lambda>_. sync_loop rest (Suc created)) w)"

definition sync :: "nat action" where
  "sync = sync_loop PERMISSION_REGISTRY 0"

definition seed :: "uuid \<Rightarrow> string \<Rightarrow> string \<Rightarrow> string \<Rightarrow> user option action" where
  "seed new_id username email password_hash w =
     (if exists_by_username username (w_db w) then (Inr None, w)
      else and_then (user_create new_id username email (Some password_hash) True True None None)
        (\<lambda>user w. (Inr (Some user), w)) w)"

subsection \<open>What the synchronisation does\<close>

text \<open>The rows a run adds: named by the catalog, with its bits.\<close>

definition from_catalog :: "(string \<times> nat) list \<Rightarrow> permission list \<Rightarrow> bool" where
  "from_catalog cat l \<longleftrightarrow> (\<forall>p \<in> set l. \<exists>b. p_bit_position p = Some b \<and> (p_name p, b) \<in> set cat)"

definition has_row :: "permission list \<Rightarrow> string \<times> nat \<Rightarrow> bool" where
  "has_row rows = (\<lambda>(n, b). \<exists>p \<in> set rows. p_name p = n \<and> p_bit_position p = Some b)"

text \<open>Two entries, one of the catalog and one of the table, that cannot both stand.\<close>

definition conflict :: "string \<times> nat \<Rightarrow> permission \<Rightarrow> bool" where
  "conflict = (\<lambda>(n, b) p. (p_name p = n) \<noteq> (p_bit_position p = Some b))"

lemma create_with_bit_Inr:
  "create_with_bit n b w = (Inr row, w') \<Longrightarrow>
     row = \<lparr>p_id = next_permission_id (w_db w), p_name = n, p_bit_position = Some b\<rparr> \<and>
     permissions (w_db w') = permissions (w_db w) @ [row] \<and> n \<notin> p_name ` set (permissions (w_db w)) \<and>
     w_redis w' = w_redis w \<and> roles (w_db w') = roles (w_db w) \<and> users (w_db w') = users (w_db w)"
  by (auto simp: create_with_bit_def Let_def split: if_splits)

lemma get_permission_by_name_None: "get_permission_by_name n d = None \<longleftrightarrow> n \<notin> p_name ` set (permissions d)"
  by (auto simp: get_permission_by_name_def find_None_iff)

lemma sync_loop_Inr:
  "sync_loop ps c w = (Inr n, w') \<Longrightarrow> distinct (map p_name (permissions (w_db w))) \<Longrightarrow>
   \<exists>l. permissions (w_db w') = permissions (w_db w) @ l \<and> n = c + length l \<and> from_catalog ps l \<and>
     list_all (has_row (permissions (w_db w'))) ps \<and> distinct (map p_name (permissions (w_db w'))) \<and>
     w_redis w' = w_redis w \<and> roles (w_db w') = roles (w_db w) \<and> users (w_db w') = users (w_db w)"
proof (induction ps arbitrary: c w)
  case Nil
  then show ?case by (auto simp: from_catalog_def)
next
  case (Cons nb ps)
  obtain nm b where nb: "nb = (nm, b)" by (cases nb)
  show ?case
  proof (cases "get_permission_by_name nm (w_db w)")
    case (Some p)
    then have "p \<in> set (permissions (w_db w))" "p_name p = nm"
      by (auto simp: get_permission_by_name_def dest: find_SomeD)
    moreover from Some Cons.prems(1) nb have "p_bit_position p = Some b" "sync_loop ps c w = (Inr n, w')"
      by (auto split: if_splits)
    moreover from Cons.IH [OF this(2) Cons.prems(2)] obtain l where
      "permissions (w_db w') = permissions (w_db w) @ l" "n = c + length l" "from_catalog ps l"
      "list_all (has_row (permissions (w_db w'))) ps" "distinct (map p_name (permissions (w_db w')))"
      "w_redis w' = w_redis w" "roles (w_db w') = roles (w_db w)" "users (w_db w') = users (w_db w)" by blast
    ultimately show ?thesis by (intro exI [of _ l]) (auto simp: nb from_catalog_def has_row_def)
  next
    case None
    with Cons.prems(1) nb obtain row w1 where c: "create_with_bit nm b w = (Inr row, w1)"
      and rest: "sync_loop ps (Suc c) w1 = (Inr n, w')" by (auto simp: and_then_Inr)
    from create_with_bit_Inr [OF c] have row: "permissions (w_db w1) = permissions (w_db w) @ [row]"
      "p_name row = nm" "p_bit_position row = Some b" "nm \<notin> p_name ` set (permissions (w_db w))"
      "w_redis w1 = w_redis w" "roles (w_db w1) = roles (w_db w)" "users (w_db w1) = users (w_db w)" by auto
    with Cons.prems(2) have "distinct (map p_name (permissions (w_db w1)))" by auto
    from Cons.IH [OF rest this] obtain l where
      "permissions (w_db w') = permissions (w_db w1) @ l" "n = Suc c + length l" "from_catalog ps l"
      "list_all (has_row (permissions (w_db w'))) ps" "distinct (map p_name (permissions (w_db w')))"
      "w_redis w' = w_redis w1" "roles (w_db w') = roles (w_db w1)" "users (w_db w') = users (w_db w1)" by blast
    with row show ?thesis by (intro exI [of _ "row # l"]) (auto simp: nb from_catalog_def has_row_def)
  qed
qed

lemma sync_loop_Inl:
  "sync_loop ps c w = (Inl e, w') \<Longrightarrow> \<exists>nb \<in> set ps. \<exists>l. from_catalog ps l \<and>
     list_ex (conflict nb) (permissions (w_db w) @ l)"
proof (induction ps arbitrary: c w)
  case (Cons nb ps)
  obtain nm b where nb: "nb = (nm, b)" by (cases nb)
  have extend: "from_catalog (nb # ps) l" if "from_catalog ps l" for l
    using that by (auto simp: from_catalog_def)
  show ?case
  proof (cases "get_permission_by_name nm (w_db w)")
    case (Some p)
    then have p: "p \<in> set (permissions (w_db w))" "p_name p = nm"
      by (auto simp: get_permission_by_name_def dest: find_SomeD)
    show ?thesis
    proof (cases "p_bit_position p = Some b")
      case True
      with Some Cons.prems nb have "sync_loop ps c w = (Inl e, w')" by simp
      from Cons.IH [OF this] extend show ?thesis by (meson list.set_intros(2))
    next
      case False
      with p have "list_ex (conflict nb) (permissions (w_db w) @ [])"
        by (auto simp: nb conflict_def list_ex_iff)
      then show ?thesis by (intro bexI [of _ nb] exI [of _ "[]"]) (auto simp: from_catalog_def)
    qed
  next
    case None
    show ?thesis
    proof (cases "create_with_bit nm b w")
      case (Pair r w1)
      show ?thesis
      proof (cases r)
        case (Inl e')
        with Pair None obtain p where "p \<in> set (permissions (w_db w))" "p_bit_position p = Some b"
          by (auto simp: create_with_bit_def Let_def get_permission_by_name_None split: if_splits)
        with None have "list_ex (conflict nb) (permissions (w_db w) @ [])"
          by (auto simp: nb conflict_def list_ex_iff get_permission_by_name_None)
        then show ?thesis by (intro bexI [of _ nb] exI [of _ "[]"]) (auto simp: from_catalog_def)
      next
        case (Inr row)
        with Pair None nb Cons.prems have "sync_loop ps (Suc c) w1 = (Inl e, w')"
          by (simp add: and_then_def)
        from Cons.IH [OF this] obtain nb' l where *: "nb' \<in> set ps" "from_catalog ps l"
          "list_ex (conflict nb') (permissions (w_db w1) @ l)" by blast
        from create_with_bit_Inr [of nm b w row w1] Pair Inr
        have "permissions (w_db w1) = permissions (w_db w) @ [row]" "p_name row = nm" "p_bit_position row = Some b"
          by auto
        with * show ?thesis
          by (intro bexI [of _ nb'] exI [of _ "row # l"]) (auto simp: nb from_catalog_def)
      qed
    qed
  qed
qed simp

lemma catalog_no_conflict:
  assumes "from_catalog PERMISSION_REGISTRY l" "nb \<in> set PERMISSION_REGISTRY" "p \<in> set l"
  shows "\<not> conflict nb p"
proof -
  obtain n b where nb: "nb = (n, b)" by (cases nb)
  from assms obtain b' where b': "p_bit_position p = Some b'" "registry_bit (p_name p) = Some b'"
    by (auto simp: from_catalog_def registry_bit_iff)
  have "registry_bit n = Some b" using assms(2) nb by (simp add: registry_bit_iff)
  with b' registry_bit_inj [of n b "p_name p"] show ?thesis by (auto simp: nb conflict_def)
qed

lemma sync_again: "list_all (has_row (permissions (w_db w))) ps \<Longrightarrow> distinct (map p_name (permissions (w_db w))) \<Longrightarrow>
    sync_loop ps c w = (Inr c, w)"
proof (induction ps)
  case (Cons nb ps)
  obtain nm b where nb: "nb = (nm, b)" by (cases nb)
  from Cons.prems obtain p where p: "p \<in> set (permissions (w_db w))" "p_name p = nm" "p_bit_position p = Some b"
    by (auto simp: nb has_row_def)
  from find_unique [OF Cons.prems(2) p(1)] have "get_permission_by_name nm (w_db w) = Some p"
    by (simp add: get_permission_by_name_def p(2))
  with p Cons show ?case by (simp add: nb)
qed simp

text \<open>Bits that fit the mask.\<close>

definition bits_fit :: "permission list \<Rightarrow> bool" where
  "bits_fit ps \<longleftrightarrow> list_all (\<lambda>p. case p_bit_position p of None \<Rightarrow> True | Some b \<Rightarrow> b < 256) ps"

lemma sync_raises:
  assumes "sync w = (Inl e, w')"
  shows "\<exists>nb \<in> set PERMISSION_REGISTRY. list_ex (conflict nb) (permissions (w_db w))"
proof -
  from sync_loop_Inl [OF assms [unfolded sync_def]] obtain nb l where nb: "nb \<in> set PERMISSION_REGISTRY"
    "from_catalog PERMISSION_REGISTRY l" "list_ex (conflict nb) (permissions (w_db w) @ l)" by blast
  then have "list_ex (conflict nb) (permissions (w_db w))"
    using catalog_no_conflict [OF nb(2,1)] by (auto simp: list_ex_iff)
  with nb(1) show ?thesis by blast
qed

lemma sync_returns:
  assumes "sync w = (Inr n, w')" "distinct (map p_name (permissions (w_db w)))" "bits_fit (permissions (w_db w))"
  shows "catalog_synced (w_db w')" "sync w' = (Inr 0, w')" "w_redis w' = w_redis w"
    "users (w_db w') = users (w_db w)" "roles (w_db w') = roles (w_db w)"
    "\<exists>l. permissions (w_db w') = permissions (w_db w) @ l \<and> length l = n \<and> from_catalog PERMISSION_REGISTRY l"
proof -
  from assms obtain l where l: "permissions (w_db w') = permissions (w_db w) @ l" "n = length l"
    "from_catalog PERMISSION_REGISTRY l" "list_all (has_row (permissions (w_db w'))) PERMISSION_REGISTRY"
    "distinct (map p_name (permissions (w_db w')))"
    "w_redis w' = w_redis w" "roles (w_db w') = roles (w_db w)" "users (w_db w') = users (w_db w)"
    using sync_loop_Inr [of PERMISSION_REGISTRY 0 w n w'] by (auto simp: sync_def)
  have row: "\<exists>p \<in> set (permissions (w_db w')). p_name p = nm \<and> p_bit_position p = Some b"
    if "registry_bit nm = Some b" for nm b
    using l(4) that by (auto simp: registry_bit_iff [symmetric] list_all_iff has_row_def)
  have "p_bit_position p = Some b"
    if "p \<in> set (permissions (w_db w'))" "registry_bit (p_name p) = Some b" for p b
    using row [OF that(2)] find_unique [OF l(5)] that(1) by (metis option.inject)
  moreover have "b < 256" if "p \<in> set (permissions (w_db w'))" "p_bit_position p = Some b" for p b
    using that assms(3) l(1,3) registry_bit_less
    by (force simp: bits_fit_def list_all_iff from_catalog_def registry_bit_iff [symmetric])
  ultimately show "catalog_synced (w_db w')" using row unfolding catalog_synced_def by blast
  show "sync w' = (Inr 0, w')" using sync_again [OF l(4,5)] by (simp add: sync_def)
  show "w_redis w' = w_redis w" "users (w_db w') = users (w_db w)" "roles (w_db w') = roles (w_db w)"
    using l by simp_all
  show "\<exists>l. permissions (w_db w') = permissions (w_db w) @ l \<and> length l = n \<and> from_catalog PERMISSION_REGISTRY l"
    using l by auto
qed

text \<open>
  C21. Starting the application brings the table of permissions in step with the code, or stops it.
  When the synchronisation returns, it has only appended rows, as many as it counts, each one an
  entry of the catalog; every entry of the catalog has its row with its bit, no row of a catalog
  name has another bit, and running it again adds nothing. When it raises, an entry of the catalog and
  a row that was in the table before contradict each other: the same name with another bit, or the
  same bit under another name.
\<close>

theorem sync_establishes_catalog:
  assumes "distinct (map p_name (permissions (w_db w)))"
    and "bits_fit (permissions (w_db w))"
  shows "case sync w of
      (Inr n, w') \<Rightarrow> catalog_synced (w_db w') \<and> sync w' = (Inr 0, w') \<and>
        (\<exists>l. permissions (w_db w') = permissions (w_db w) @ l \<and> length l = n \<and> from_catalog PERMISSION_REGISTRY l) \<and>
        users (w_db w') = users (w_db w) \<and> roles (w_db w') = roles (w_db w) \<and> w_redis w' = w_redis w
    | (Inl e, w') \<Rightarrow> \<exists>nb \<in> set PERMISSION_REGISTRY. list_ex (conflict nb) (permissions (w_db w))"
proof (cases "sync w")
  case (Pair r w')
  show ?thesis
  proof (cases r)
    case (Inl e)
    with Pair sync_raises [of w e w'] show ?thesis by simp
  next
    case (Inr n)
    with sync_returns [OF Pair [unfolded Inr] assms] Pair show ?thesis by simp
  qed
qed

lemma sync_establishes_catalog_witness:
  "\<exists>n w'. sync \<lparr>w_db = empty_db, w_redis = empty_redis\<rparr> = (Inr n, w') \<and> catalog_synced (w_db w')"
proof -
  let ?w = "\<lparr>w_db = empty_db, w_redis = empty_redis\<rparr>"
  from sync_establishes_catalog [of ?w]
  show ?thesis by (cases "sync ?w"; cases "fst (sync ?w)") (auto simp: empty_db_def bits_fit_def)
qed

end
