(* ===== verification/Middleware.thy ===== *)
theory Middleware
  imports Errors RateLimit
begin

text \<open>
  \<^verbatim>\<open>app/middleware/\<close> and the order in which \<^verbatim>\<open>app/main.py\<close> stacks it. What is inside a middleware
  (\<open>call_next\<close>) is a function of the state of the application that gives a response or raises.
  Headers are an association list; a log line has no effect here. The session and CORS layers
  belong to the framework and are not modelled.
\<close>

record http = response +
  h_headers :: "(string \<times> string) list"

type_synonym 's app = "'s \<Rightarrow> (exn + http) \<times> 's"

definition with_headers :: "response \<Rightarrow> http" where
  "with_headers r = response.extend r \<lparr>h_headers = []\<rparr>"

definition set_header :: "string \<Rightarrow> string \<Rightarrow> http \<Rightarrow> http" where
  "set_header k v r = r\<lparr>h_headers := AList.update k v (h_headers r)\<rparr>"

definition setdefault :: "string \<times> string \<Rightarrow> http \<Rightarrow> http" where
  "setdefault = (\<lambda>(k, v) r. if map_of (h_headers r) k = None then set_header k v r else r)"

text \<open>The handler \<open>register_exception\<close> registers for \<open>Exception\<close>, and the one for \<open>RateLimit\<close>.\<close>

definition exception_handler :: "exn \<Rightarrow> response" where
  "exception_handler exc = create_global_handler 500 [(''message'', ''Internal Server Error'')] exc"

definition ratelimit_handler :: "exn \<Rightarrow> response" where
  "ratelimit_handler exc = create_exception_handler 429 [] exc"

text \<open>
  The framework around the endpoints: an exception of a class with a handler of its own is answered
  here, as are the framework's own exceptions (\<open>http_handler\<close>); any other leaves.
\<close>

definition answered_inside :: "exn \<Rightarrow> bool" where
  "answered_inside e = (case e of HTTPException _ _ \<Rightarrow> True | RequestValidationError \<Rightarrow> True
     | _ \<Rightarrow> registered e \<noteq> None)"

definition handled :: "(nat \<Rightarrow> string \<Rightarrow> response) \<Rightarrow> 's app \<Rightarrow> 's app" where
  "handled http_handler endpoint s =
     (case endpoint s of
        (Inr r, s') \<Rightarrow> (Inr r, s')
      | (Inl e, s') \<Rightarrow>
          (if answered_inside e then Inr (with_headers (handle_exception http_handler e)) else Inl e, s'))"

definition logger_middleware :: "string \<Rightarrow> 's app \<Rightarrow> 's app" where
  "logger_middleware request_id call_next s =
     (case call_next s of
        (Inr response, s') \<Rightarrow> (Inr (set_header ''X-Request-ID'' request_id response), s')
      | (Inl exc, s') \<Rightarrow> (Inr (set_header ''X-Request-ID'' request_id (with_headers (exception_handler exc))), s'))"

definition rate_limit_error :: exn where
  "rate_limit_error = RateLimit ''Too many requests. Please slow down.''
     [(''X-RateLimit-Limit'', str_int (l_requests request_limiter)), (''X-RateLimit-Remaining'', ''0''),
      (''Retry-After'', str_int (l_window request_limiter))]"

text \<open>
  What Redis does during one request: whether it answers the limiter's pipeline, the removal after
  a rejection and the reading of the remaining requests, and the times and the member used.
\<close>

record limiter_env =
  le_pipe_ok :: bool
  le_zrem_ok :: bool
  le_remaining_ok :: bool
  le_now :: int
  le_later :: int
  le_member :: string

definition rate_limit_middleware :: "limiter_env \<Rightarrow> string option \<Rightarrow> ('s \<times> store) app \<Rightarrow> ('s \<times> store) app" where
  "rate_limit_middleware L client call_next st =
     (let client_ip = (case client of None \<Rightarrow> ''unknown'' | Some h \<Rightarrow> h) in
      case st of (s, counters) \<Rightarrow>
      case is_allowed request_limiter (le_pipe_ok L) (le_zrem_ok L) (le_now L) (le_member L) client_ip counters of
        (allowed, counters1) \<Rightarrow>
        if \<not> allowed then (Inr (with_headers (ratelimit_handler rate_limit_error)), s, counters1)
        else case call_next (s, counters1) of
          (Inl exc, st2) \<Rightarrow> (Inr (with_headers (ratelimit_handler exc)), st2)
        | (Inr response, s2, counters2) \<Rightarrow>
            (case get_remaining request_limiter (le_remaining_ok L) (le_later L) client_ip counters2 of
               (remaining, counters3) \<Rightarrow>
                 (Inr (set_header ''X-RateLimit-Remaining'' (str_int remaining)
                    (set_header ''X-RateLimit-Limit'' (str_int (l_requests request_limiter)) response)),
                  s2, counters3)))"

definition SECURITY_HEADERS :: "(string \<times> string) list" where
  "SECURITY_HEADERS =
     [(''X-Content-Type-Options'', ''nosniff''),
      (''X-Frame-Options'', ''DENY''),
      (''X-XSS-Protection'', ''0''),
      (''Referrer-Policy'', ''strict-origin-when-cross-origin''),
      (''Cross-Origin-Opener-Policy'', ''same-origin''),
      (''Content-Security-Policy'',
       ''default-src '' @ [CHR 39] @ ''self'' @ [CHR 39] @ ''; script-src '' @ [CHR 39] @ ''self'' @ [CHR 39] @
       ''; style-src '' @ [CHR 39] @ ''self'' @ [CHR 39] @ ''; object-src '' @ [CHR 39] @ ''none'' @ [CHR 39]),
      (''Permissions-Policy'', ''geolocation=(), microphone=(), camera=()''),
      (''Strict-Transport-Security'', ''max-age=31536000; includeSubDomains; preload'')]"

definition security_headers_middleware :: "'s app \<Rightarrow> 's app" where
  "security_headers_middleware call_next s =
     (case call_next s of
        (Inr response, s') \<Rightarrow> (Inr (fold setdefault SECURITY_HEADERS response), s')
      | (Inl exc, s') \<Rightarrow> (Inl exc, s'))"

text \<open>The stack of \<open>main.py\<close>: the middleware registered last is the outermost.\<close>

definition served :: "(nat \<Rightarrow> string \<Rightarrow> response) \<Rightarrow> limiter_env \<Rightarrow> string option \<Rightarrow> string \<Rightarrow>
    ('s \<times> store) app \<Rightarrow> ('s \<times> store) app" where
  "served http_handler L client request_id endpoint =
     security_headers_middleware (rate_limit_middleware L client
       (logger_middleware request_id (handled http_handler endpoint)))"

subsection \<open>What every answer has\<close>

lemma map_of_set_header: "map_of (h_headers (set_header k v r)) k' = (if k' = k then Some v else map_of (h_headers r) k')"
  by (simp add: set_header_def update_conv')

lemma setdefault_keeps: "map_of (h_headers r) k = Some v \<Longrightarrow> map_of (h_headers (setdefault h r)) k = Some v"
  by (cases h) (auto simp: setdefault_def map_of_set_header)

lemma fold_setdefault_keeps: "map_of (h_headers r) k = Some v \<Longrightarrow> map_of (h_headers (fold setdefault hs r)) k = Some v"
  by (induction hs arbitrary: r) (simp_all add: setdefault_keeps)

lemma fold_setdefault_sets: "(k, v) \<in> set hs \<Longrightarrow> map_of (h_headers (fold setdefault hs r)) k \<noteq> None"
proof (induction hs arbitrary: r)
  case (Cons h hs)
  show ?case
  proof (cases "h = (k, v)")
    case True
    then have "\<exists>u. map_of (h_headers (setdefault h r)) k = Some u"
      by (auto simp: setdefault_def map_of_set_header)
    then show ?thesis by (auto simp: fold_setdefault_keeps)
  next
    case False
    with Cons show ?thesis by simp
  qed
qed simp

lemma fold_setdefault_other: "k \<notin> fst ` set hs \<Longrightarrow> map_of (h_headers (fold setdefault hs r)) k = map_of (h_headers r) k"
  by (induction hs arbitrary: r) (auto simp: setdefault_def map_of_set_header split: prod.split)

lemma setdefault_status [simp]: "status_code (setdefault h r) = status_code r" "content (setdefault h r) = content r"
  by (simp_all add: setdefault_def set_header_def split: prod.split)

lemma fold_setdefault_status [simp]:
  "status_code (fold setdefault hs r) = status_code r" "content (fold setdefault hs r) = content r"
  by (induction hs arbitrary: r) simp_all

lemma with_headers_simps [simp]:
  "status_code (with_headers r) = status_code r" "content (with_headers r) = content r" "h_headers (with_headers r) = []"
  by (simp_all add: with_headers_def response.defs)

lemma set_header_status [simp]: "status_code (set_header k v r) = status_code r" "content (set_header k v r) = content r"
  by (simp_all add: set_header_def)

lemma handled_as_handler:
  "\<not> answered_inside e \<Longrightarrow> exception_handler e = handle_exception h e"
  by (cases e) (auto simp: answered_inside_def handle_exception_def exception_handler_def)

lemma logger_answers:
  "\<exists>r s'. logger_middleware rid (handled h endpoint) s = (Inr r, s') \<and> snd (endpoint s) = s' \<and>
     map_of (h_headers r) ''X-Request-ID'' = Some rid \<and>
     (case fst (endpoint s) of
        Inr r0 \<Rightarrow> status_code r = status_code r0 \<and> content r = content r0
      | Inl e \<Rightarrow> status_code r = status_code (handle_exception h e) \<and> content r = content (handle_exception h e))"
  by (cases "endpoint s"; cases "fst (endpoint s)")
    (auto simp: logger_middleware_def handled_def map_of_set_header handled_as_handler [where h = h])


end
