(* ===== verification/Logging.thy ===== *)
theory Logging
  imports Errors Validation
begin

text \<open>
  \<^verbatim>\<open>app/core/logger/\<close>: what the decorators on every route, service and repository write to the log
  around a call. A record is a value of \<open>log_record\<close>; the state of a run is that of the program,
  and the records of a call are listed beside its outcome.
\<close>

subsection \<open>Values and their redaction\<close>

text \<open>
  The values a call may be given: what JSON knows, a pydantic model with its fields (as
  \<open>model_dump\<close> gives them), an object with a method \<open>dict\<close> (None when that raises), and any other
  object, by its text.
\<close>

datatype py =
    PyNone
  | PyBool bool
  | PyInt int
  | PyFloat string
  | PyStr string
  | PyList "py list"
  | PyDict "(string \<times> py) list"
  | PyModel "(string \<times> py) list"
  | PyDictable "(string \<times> py) list option" string
  | PyObject string

fun is_prefix :: "string \<Rightarrow> string \<Rightarrow> bool" where
  "is_prefix [] s = True"
| "is_prefix (p # ps) [] = False"
| "is_prefix (p # ps) (c # cs) = (p = c \<and> is_prefix ps cs)"

fun contains :: "string \<Rightarrow> string \<Rightarrow> bool" where
  "contains s [] = is_prefix s []"
| "contains s (c # cs) = (is_prefix s (c # cs) \<or> contains s cs)"

definition sensitive :: "string \<Rightarrow> bool" where
  "sensitive key = list_ex (\<lambda>t. contains t (map lower_char key)) [''pass'', ''token'', ''secret'', ''key'']"

text \<open>\<open>show\<close> is Python's \<open>str\<close>. \<open>model_dump\<close> gives the fields as a dictionary.\<close>

fun redact_value :: "(py \<Rightarrow> string) \<Rightarrow> string \<Rightarrow> py \<Rightarrow> py" where
  "redact_value show key v =
     (if sensitive key then PyStr ''********''
      else case v of
        PyModel kvs \<Rightarrow> PyDict kvs
      | PyDictable (Some kvs) _ \<Rightarrow> PyDict kvs
      | PyDictable None text \<Rightarrow> PyStr text
      | PyList vs \<Rightarrow> PyList (map (\<lambda>x. PyStr (show x)) vs)
      | PyDict kvs \<Rightarrow> PyDict (map (\<lambda>(k, x). (k, redact_value show k x)) kvs)
      | PyObject text \<Rightarrow> PyStr text
      | _ \<Rightarrow> v)"

declare redact_value.simps [simp del]

definition infer_layer :: "string \<Rightarrow> string" where
  "infer_layer module_name =
     (if contains ''.api.'' module_name then ''route''
      else if contains ''.services.'' module_name then ''service''
      else if contains ''.repositories.'' module_name then ''repository''
      else if contains ''.middleware.'' module_name then ''middleware''
      else ''function'')"

subsection \<open>Records\<close>

datatype log_record =
    Request_start string string string "(string \<times> string) list option"
  | Request_end nat string
  | Call string string "(string \<times> py) list" string
  | Result string string string
  | Error string string string string
  | Message string string "(string \<times> json) list option"

definition log_request_start :: "string \<Rightarrow> string \<Rightarrow> string \<Rightarrow> (string \<times> string) list option \<Rightarrow> log_record" where
  "log_request_start method path client_ip query_params = Request_start method path client_ip query_params"

text \<open>A duration is given by its text with two decimals.\<close>

definition log_request_end :: "nat \<Rightarrow> string \<Rightarrow> log_record" where
  "log_request_end status duration = Request_end status duration"

definition log_call :: "string \<Rightarrow> string \<Rightarrow> (string \<times> py) list \<Rightarrow> string \<Rightarrow> log_record" where
  "log_call owner method_name arguments layer = Call owner method_name arguments layer"

definition log_result :: "string \<Rightarrow> string \<Rightarrow> string \<Rightarrow> log_record" where
  "log_result result_type result_preview layer = Result result_type result_preview layer"

definition log_error :: "string \<Rightarrow> string \<Rightarrow> string \<Rightarrow> string \<Rightarrow> log_record" where
  "log_error error_type message error_location layer = Error error_type message error_location layer"

text \<open>Plain messages; keyword arguments become the record's \<open>extra_data\<close>.\<close>

definition extra_data :: "(string \<times> json) list \<Rightarrow> (string \<times> json) list option" where
  "extra_data extra = (if extra = [] then None else Some extra)"

definition log_info :: "string \<Rightarrow> (string \<times> json) list \<Rightarrow> log_record" where
  "log_info message extra = Message ''INFO'' message (extra_data extra)"

definition log_warning :: "string \<Rightarrow> (string \<times> json) list \<Rightarrow> log_record" where
  "log_warning message extra = Message ''WARNING'' message (extra_data extra)"

definition log_debug :: "string \<Rightarrow> (string \<times> json) list \<Rightarrow> log_record" where
  "log_debug message extra = Message ''DEBUG'' message (extra_data extra)"

subsection \<open>The decorators\<close>

definition logged_arguments :: "(py \<Rightarrow> string) \<Rightarrow> (string \<times> py) list \<Rightarrow> (string \<times> py) list" where
  "logged_arguments show bound =
     map (\<lambda>(key, value). (key, redact_value show key value))
       (filter (\<lambda>(key, value). key \<noteq> ''self'' \<and> key \<noteq> ''cls'') bound)"

text \<open>
  \<open>_wrap_callable\<close>, for a function on the state of the program; the asynchronous wrapper does the
  same. \<open>bound\<close> are the arguments by name with their defaults; \<open>type_of\<close> is \<open>type(result).__name__\<close>.
\<close>

definition wrap_callable :: "(py \<Rightarrow> string) \<Rightarrow> (py \<Rightarrow> string) \<Rightarrow> string \<Rightarrow> string \<Rightarrow> string \<Rightarrow> (string \<times> py) list \<Rightarrow>
    string \<Rightarrow> ('s \<Rightarrow> (exn + py) \<times> 's) \<Rightarrow> 's \<Rightarrow> ((exn + py) \<times> 's) \<times> log_record list" where
  "wrap_callable show type_of layer owner name bound duration func s =
     (let called = log_call owner name (logged_arguments show bound) layer in
      case func s of
        (Inr result, s') \<Rightarrow>
          ((Inr result, s'),
           [called, log_result (''Success ('' @ type_of result @ '')'')
              (take 120 (show result) @ '' | '' @ duration @ ''ms'') layer])
      | (Inl exc, s') \<Rightarrow>
          ((Inl exc, s'),
           [called, log_error (type_name exc) (exn_str exc) (owner @ ''.'' @ name) layer,
            log_result ''Error'' (duration @ ''ms'') layer]))"

definition log_function :: "(py \<Rightarrow> string) \<Rightarrow> (py \<Rightarrow> string) \<Rightarrow> string \<Rightarrow> string \<Rightarrow> string \<Rightarrow> (string \<times> py) list \<Rightarrow>
    string \<Rightarrow> ('s \<Rightarrow> (exn + py) \<times> 's) \<Rightarrow> 's \<Rightarrow> ((exn + py) \<times> 's) \<times> log_record list" where
  "log_function show type_of module_name owner name bound duration func s =
     wrap_callable show type_of (infer_layer module_name) owner name bound duration func s"

text \<open>The layer a class gives to its methods, and \<open>log_method\<close>, which is told its layer.\<close>

datatype logged_base = LoggedMethods | LoggedService | LoggedRepository

fun log_layer :: "logged_base \<Rightarrow> string" where
  "log_layer LoggedMethods = ''function''"
| "log_layer LoggedService = ''service''"
| "log_layer LoggedRepository = ''repository''"

definition log_method :: "(py \<Rightarrow> string) \<Rightarrow> (py \<Rightarrow> string) \<Rightarrow> string \<Rightarrow> string \<Rightarrow> string \<Rightarrow> (string \<times> py) list \<Rightarrow>
    string \<Rightarrow> ('s \<Rightarrow> (exn + py) \<times> 's) \<Rightarrow> 's \<Rightarrow> ((exn + py) \<times> 's) \<times> log_record list" where
  "log_method show type_of layer owner name bound duration func s =
     wrap_callable show type_of layer owner name bound duration func s"

text \<open>The attributes of a subclass of \<open>LoggedMethods\<close> that are wrapped: its public functions.\<close>

definition logged_methods :: "(string \<times> bool) list \<Rightarrow> string list" where
  "logged_methods class_dict = map fst (filter (\<lambda>(name, is_function). \<not> (is_prefix ''_'' name \<or> name = ''__init__'') \<and> is_function) class_dict)"

subsection \<open>The human-readable lines\<close>

definition line_break :: string where "line_break = [CHR 10]"

definition request_id_text :: "string option \<Rightarrow> string" where
  "request_id_text rid = (case rid of None \<Rightarrow> ''NO_REQUEST_ID'' | Some r \<Rightarrow> if r = [] then ''NO_REQUEST_ID'' else r)"

text \<open>\<open>layer.upper()\<close>; a layer is a word of small letters.\<close>

fun upper_char :: "char \<Rightarrow> char" where
  "upper_char (Char b0 b1 b2 b3 b4 b5 b6 b7) =
     (let c = Char b0 b1 b2 b3 b4 b5 b6 b7 in if is_lower c then Char b0 b1 b2 b3 b4 False b6 b7 else c)"

definition upper_text :: "string \<Rightarrow> string" where
  "upper_text s = map upper_char s"

text \<open>\<open>dumps\<close> is \<open>json.dumps(\<dots>, indent=6, default=str)\<close>; the name of a level stands in a \<open>Message\<close>.\<close>

fun beautiful_format :: "(py \<Rightarrow> string) \<Rightarrow> (py \<Rightarrow> string) \<Rightarrow> string option \<Rightarrow> string \<Rightarrow> log_record \<Rightarrow> string" where
  "beautiful_format show dumps rid timestamp (Request_start method path client_ip query_params) =
     (let separator = replicate 100 (CHR ''='') in
      line_break @ separator @ line_break @
      ''[REQUEST START] Request ID: '' @ request_id_text rid @ '' | '' @ timestamp @ line_break @
      ''   Method: '' @ method @ '' | Path: '' @ path @ '' | Client: '' @ client_ip @ line_break @
      (case query_params of None \<Rightarrow> [] | Some q \<Rightarrow> if q = [] then [] else
         ''   Query Params: '' @ show (PyDict (map (\<lambda>(k, v). (k, PyStr v)) q)) @ line_break) @ separator)"
| "beautiful_format show dumps rid timestamp (Request_end status duration) =
     (let separator = replicate 100 (CHR ''='') in
      line_break @ separator @ line_break @
      ''[REQUEST END] Request ID: '' @ request_id_text rid @ '' | '' @ timestamp @ line_break @
      ''   Status Code: '' @ str_int (int status) @ '' | Duration: '' @ duration @ ''ms'' @ line_break @
      separator @ line_break)"
| "beautiful_format show dumps rid timestamp (Call owner method_name arguments layer) =
     (let separator = replicate 90 (CHR ''-'') in
      line_break @ separator @ line_break @
      ''['' @ (if layer = [] then ''CALL'' else upper_text layer) @ ''] Request ID: '' @ request_id_text rid @ '' | '' @ timestamp @ line_break @
      ''   Owner: '' @ owner @ '' | Method: '' @ method_name @ line_break @
      ''   Arguments: '' @ dumps (PyDict arguments) @ line_break @ separator)"
| "beautiful_format show dumps rid timestamp (Result result_type result_preview layer) =
     (let separator = replicate 90 (CHR ''-'') in
      line_break @ separator @ line_break @
      ''['' @ (if layer = [] then ''RESULT'' else upper_text layer) @ ''] Request ID: '' @ request_id_text rid @ '' | '' @ timestamp @ line_break @
      ''   Result Type: '' @ result_type @ line_break @
      (if result_preview = [] then [] else ''   Preview: '' @ result_preview @ line_break) @ separator)"
| "beautiful_format show dumps rid timestamp (Error error_type message error_location layer) =
     (let separator = replicate 100 (CHR ''!'') in
      line_break @ separator @ line_break @
      ''[ERROR] Request ID: '' @ request_id_text rid @ '' | '' @ timestamp @ line_break @
      ''   Layer: '' @ (if layer = [] then ''-'' else layer) @ line_break @
      ''   Error Type: '' @ error_type @ line_break @ ''   Message: '' @ message @ line_break @
      (if error_location = [] then [] else ''   Location: '' @ error_location @ line_break) @ separator)"
| "beautiful_format show dumps rid timestamp (Message level message extra) =
     ''['' @ timestamp @ ''] ['' @ level @ ''] [ReqID: '' @ request_id_text rid @ ''] '' @ message"

subsection \<open>The JSON lines\<close>

text \<open>
  \<open>StructuredFormatter\<close>, before \<open>json.dumps\<close>. A record the emitters make has no module, function or
  line; those of a plain message are the argument \<open>site\<close>. A duration is given by its text, and
  \<open>trace\<close> is the formatted traceback of an error that was logged with one.
\<close>

fun record_message :: "log_record \<Rightarrow> string" where
  "record_message (Request_start _ _ _ _) = ''REQUEST_START''"
| "record_message (Request_end _ _) = ''REQUEST_END''"
| "record_message (Call _ _ _ _) = ''CALL''"
| "record_message (Result _ _ _) = ''RESULT''"
| "record_message (Error _ message _ _) = message"
| "record_message (Message _ message _) = message"

fun record_type :: "log_record \<Rightarrow> string option" where
  "record_type (Error _ _ _ _) = Some ''ERROR''"
| "record_type (Message _ _ _) = None"
| "record_type r = Some (record_message r)"

fun record_level :: "log_record \<Rightarrow> string" where
  "record_level (Error _ _ _ _) = ''ERROR''"
| "record_level (Message level _ _) = level"
| "record_level _ = ''INFO''"

definition structured_format ::
    "string option \<Rightarrow> string \<Rightarrow> string \<times> string \<times> int \<Rightarrow> string list option \<Rightarrow> log_record \<Rightarrow> (string \<times> json) list" where
  "structured_format rid timestamp site trace r =
     [(''timestamp'', JStr timestamp), (''level'', JStr (record_level r)), (''request_id'', JStr (request_id_text rid)),
      (''logger'', JStr ''app''), (''message'', JStr (record_message r))] @
     (case record_type r of
        None \<Rightarrow> [(''module'', JStr (fst site)), (''function'', JStr (fst (snd site))), (''line'', JInt (snd (snd site)))]
      | Some t \<Rightarrow> [(''module'', JStr []), (''function'', JNull), (''line'', JInt 0)]) @
     (case r of Message _ _ (Some extra) \<Rightarrow> [(''extra'', JObj extra)] | _ \<Rightarrow> []) @
     (case record_type r of None \<Rightarrow> [] | Some t \<Rightarrow> [(''log_type'', JStr t)]) @
     (case r of Request_end _ duration \<Rightarrow> [(''duration_ms'', JStr duration)] | _ \<Rightarrow> []) @
     (case r of
        Error error_type message _ _ \<Rightarrow>
          (case trace of None \<Rightarrow> []
           | Some lines \<Rightarrow> [(''exception'', JObj [(''type'', JStr error_type), (''message'', JStr message),
               (''traceback'', JList (map JStr lines))])])
      | _ \<Rightarrow> [])"

subsection \<open>What a logged call shows\<close>

lemma redact_sensitive: "sensitive key \<Longrightarrow> redact_value show key v = PyStr ''********''"
  by (simp add: redact_value.simps)

lemma user_data_plain: "\<not> sensitive ''user_data''"
  by code_simp

text \<open>
  A decorated call is the call: it returns or raises the same and leaves the same state, and
  writes the CALL record first and one record of its outcome last. An argument whose own name
  contains one of the four words is masked. But the fields of a request body are dumped as they
  are: when the argument \<open>user_data\<close> is a model with a password, as in a registration, the CALL record
  holds the password in clear, and the preview of a result that is a token is the token.
\<close>

lemma logged_call:
  "fst (wrap_callable show type_of layer owner name bound duration func s) = func s \<and>
   (\<exists>rest. snd (wrap_callable show type_of layer owner name bound duration func s) =
      log_call owner name (logged_arguments show bound) layer # rest \<and> rest \<noteq> [] \<and>
      (\<exists>t p. last rest = log_result t p layer)) \<and>
   list_all (\<lambda>(k, v). if sensitive k then v = PyStr ''********'' else True) (logged_arguments show bound) \<and>
   logged_arguments show [(''self'', obj), (''user_data'', PyModel [(''username'', n), (''password'', PyStr pw)])] =
     [(''user_data'', PyDict [(''username'', n), (''password'', PyStr pw)])] \<and>
   last (snd (wrap_callable show type_of layer owner name bound duration (\<lambda>s. (Inr (PyStr token), s)) s)) =
     log_result (''Success ('' @ type_of (PyStr token) @ '')'') (take 120 (show (PyStr token)) @ '' | '' @ duration @ ''ms'') layer"
proof (intro conjI)
  show "fst (wrap_callable show type_of layer owner name bound duration func s) = func s"
    by (simp add: wrap_callable_def Let_def split: prod.split sum.split)
  show "\<exists>rest. snd (wrap_callable show type_of layer owner name bound duration func s) =
      log_call owner name (logged_arguments show bound) layer # rest \<and> rest \<noteq> [] \<and>
      (\<exists>t p. last rest = log_result t p layer)"
    by (auto simp: wrap_callable_def Let_def split: prod.split sum.split)
  show "list_all (\<lambda>(k, v). if sensitive k then v = PyStr ''********'' else True) (logged_arguments show bound)"
    by (auto simp: logged_arguments_def list_all_iff redact_sensitive)
  show "logged_arguments show [(''self'', obj), (''user_data'', PyModel [(''username'', n), (''password'', PyStr pw)])] =
     [(''user_data'', PyDict [(''username'', n), (''password'', PyStr pw)])]"
    by (simp add: logged_arguments_def redact_value.simps user_data_plain)
qed (simp add: wrap_callable_def Let_def)

end
