(* ===== verification/Health.thy ===== *)
theory Health
  imports Errors
begin

text \<open>
  \<^verbatim>\<open>app/core/health.py\<close> and \<^verbatim>\<open>app/api/v1/routes/health.py\<close>. What the database and Redis answer to
  a ping is an argument, an exception or nothing; so are the readings of the clock, in
  microseconds, of which a latency of three decimals in milliseconds is a whole number.
\<close>

record health_status =
  hs_healthy :: bool
  hs_service :: string
  hs_latency :: int
  hs_detail :: string

record health_report =
  hr_status :: string
  hr_checks :: "health_status list"
  hr_timestamp :: string

definition check_dict :: "health_status \<Rightarrow> json" where
  "check_dict c = JObj [(''service'', JStr (hs_service c)), (''healthy'', JBool (hs_healthy c)),
     (''latency_ms'', JInt (hs_latency c)), (''detail'', JStr (hs_detail c))]"

text \<open>\<open>now_text\<close> is what \<open>strftime\<close> gives for the current time.\<close>

definition to_dict :: "string \<Rightarrow> health_report \<Rightarrow> (string \<times> json) list" where
  "to_dict now_text r = [(''status'', JStr (hr_status r)), (''checks'', JList (map check_dict (hr_checks r))),
     (''timestamp'', JStr (if hr_timestamp r = [] then now_text else hr_timestamp r))]"

definition ping_check :: "string \<Rightarrow> int \<Rightarrow> int \<Rightarrow> exn option \<Rightarrow> health_status" where
  "ping_check service start stop failure =
     (case failure of
        None \<Rightarrow> \<lparr>hs_healthy = True, hs_service = service, hs_latency = stop - start, hs_detail = ''OK''\<rparr>
      | Some exc \<Rightarrow> \<lparr>hs_healthy = False, hs_service = service, hs_latency = stop - start, hs_detail = exn_str exc\<rparr>)"

definition check_db :: "int \<Rightarrow> int \<Rightarrow> exn option \<Rightarrow> health_status" where
  "check_db start stop failure = ping_check ''database'' start stop failure"

definition check_redis :: "int \<Rightarrow> int \<Rightarrow> exn option \<Rightarrow> health_status" where
  "check_redis start stop failure = ping_check ''redis'' start stop failure"

text \<open>\<open>run_all_checks\<close>: None stands for a service that was not passed.\<close>

definition run_all_checks :: "string \<Rightarrow> health_status option \<Rightarrow> health_status option \<Rightarrow> health_report" where
  "run_all_checks now_text db_check redis_check =
     (let checks = (case db_check of None \<Rightarrow> [] | Some c \<Rightarrow> [c]) @ (case redis_check of None \<Rightarrow> [] | Some c \<Rightarrow> [c]) in
      if checks = [] then \<lparr>hr_status = ''healthy'', hr_checks = [], hr_timestamp = now_text\<rparr>
      else
        let status = (if list_all hs_healthy checks then ''healthy''
                      else if list_ex hs_healthy checks then ''degraded'' else ''unhealthy'')
        in \<lparr>hr_status = status, hr_checks = checks, hr_timestamp = now_text\<rparr>)"

definition health_check :: "string \<Rightarrow> health_status \<Rightarrow> health_status \<Rightarrow> response" where
  "health_check now_text db_check redis_check =
     \<lparr>status_code = 200, content = to_dict now_text (run_all_checks now_text (Some db_check) (Some redis_check))\<rparr>"

definition liveness :: response where
  "liveness = \<lparr>status_code = 200, content = [(''status'', JStr ''alive'')]\<rparr>"

definition readiness :: "string \<Rightarrow> health_status \<Rightarrow> health_status \<Rightarrow> response" where
  "readiness now_text db_check redis_check =
     (let report = run_all_checks now_text (Some db_check) (Some redis_check) in
      if hr_status report = ''unhealthy'' then \<lparr>status_code = 503, content = to_dict now_text report\<rparr>
      else \<lparr>status_code = 200, content = to_dict now_text report\<rparr>)"

lemma ping_check_simps [simp]:
  "hs_healthy (check_db a b f) = (f = None)" "hs_healthy (check_redis a b f) = (f = None)"
  by (auto simp: check_db_def check_redis_def ping_check_def split: option.split)

lemma report_status:
  "hr_status (run_all_checks t (Some (check_db a b f)) (Some (check_redis a' b' g))) =
     (if f = None \<and> g = None then ''healthy'' else if f = None \<or> g = None then ''degraded'' else ''unhealthy'')"
  by (simp add: run_all_checks_def Let_def)

text \<open>
  The readiness probe answers 503 exactly when both the database and Redis fail; when the
  database alone is down it says that the worker is ready, although its report says degraded, names
  the database as unhealthy and carries the error.
\<close>

lemma readiness_status:
  "(status_code (readiness t (check_db a b f) (check_redis a' b' g)) =
      (if f \<noteq> None \<and> g \<noteq> None then 503 else 200)) \<and>
   (status_code (readiness t (check_db a b (Some e)) (check_redis a' b' None)) = 200) \<and>
   (\<exists>checks. map_of (content (readiness t (check_db a b (Some e)) (check_redis a' b' None))) ''status'' = Some (JStr ''degraded'') \<and>
      map_of (content (readiness t (check_db a b (Some e)) (check_redis a' b' None))) ''checks'' = Some (JList checks) \<and>
      checks = [JObj [(''service'', JStr ''database''), (''healthy'', JBool False), (''latency_ms'', JInt (b - a)),
          (''detail'', JStr (exn_str e))],
        JObj [(''service'', JStr ''redis''), (''healthy'', JBool True), (''latency_ms'', JInt (b' - a')),
          (''detail'', JStr ''OK'')]])"
proof (intro conjI)
  show "status_code (readiness t (check_db a b f) (check_redis a' b' g)) = (if f \<noteq> None \<and> g \<noteq> None then 503 else 200)"
    by (simp add: readiness_def Let_def report_status)
  show "status_code (readiness t (check_db a b (Some e)) (check_redis a' b' None)) = 200"
    by (simp add: readiness_def Let_def report_status)
qed (simp add: readiness_def Let_def run_all_checks_def to_dict_def check_dict_def check_db_def check_redis_def ping_check_def)

end
