(* ===== verification/DataValidation.thy ===== *)
theory DataValidation
  imports Validation
begin

text \<open>
  \<^verbatim>\<open>app/core/security/data_validation.py\<close>: file names, required keys and the trimming of
  dictionaries. A dictionary of request data is a JSON object.
\<close>

subsection \<open>File names\<close>

definition exactly :: "string \<Rightarrow> item list" where
  "exactly s = map (\<lambda>c. one (\<lambda>x. x = c)) s"

definition PATH_TRAVERSAL_RE :: "item list list" where
  "PATH_TRAVERSAL_RE = map exactly [''../'', ''..'' @ [CHR 92], ''%2e%2e%2f'', ''%2e%2e/'']"

definition dot_or_underscore :: "char \<Rightarrow> bool" where
  "dot_or_underscore c \<longleftrightarrow> c = CHR ''.'' \<or> c = CHR ''_''"

definition filename_char :: "char \<Rightarrow> bool" where
  "filename_char c \<longleftrightarrow> is_word c \<or> c = CHR ''.'' \<or> c = CHR ''-''"

text \<open>\<open>value.rpartition(".")\<close>.\<close>

definition rpartition_dot :: "string \<Rightarrow> string \<times> string \<times> string" where
  "rpartition_dot v =
     (let ext = rev (takeWhile (\<lambda>c. c \<noteq> CHR ''.'') (rev v)) in
      if length ext = length v then ([], [], v)
      else (take (length v - length ext - 1) v, ''.'', ext))"

definition or_file :: "string \<Rightarrow> string" where
  "or_file s = (if s = [] then ''file'' else s)"

definition safe_filename :: "string \<Rightarrow> int \<Rightarrow> string" where
  "safe_filename v max_len =
     (let v1 = re_sub PATH_TRAVERSAL_RE v;
          v2 = or_file (strip_where dot_or_underscore
                 (map (\<lambda>c. if filename_char c then c else CHR ''_'') v1)) in
      if int (length v2) \<le> max_len then v2
      else case rpartition_dot v2 of (stem, dot, ext) \<Rightarrow>
        if dot \<noteq> [] \<and> 0 < length ext \<and> length ext \<le> 10
        then or_file (strip_where dot_or_underscore (py_take (max_len - int (length ext) - 1) stem)) @ ''.'' @ ext
        else strip_where dot_or_underscore (py_take max_len v2))"

subsection \<open>Dictionaries\<close>

text \<open>
  \<open>validate_required_fields\<close>: the first required key that is missing, None, or a string of
  white space.
\<close>

definition blank :: "json option \<Rightarrow> bool" where
  "blank j = (case j of None \<Rightarrow> True | Some JNull \<Rightarrow> True | Some (JStr s) \<Rightarrow> py_strip s = [] | _ \<Rightarrow> False)"

fun validate_required_fields :: "(string \<times> json) list \<Rightarrow> string list \<Rightarrow> string \<Rightarrow> exn + unit" where
  "validate_required_fields d [] label = Inr ()"
| "validate_required_fields d (k # ks) label =
     (if blank (map_of d k)
      then Inl (ValueError (''Missing required '' @ label @ '': '' @ [CHR 39] @ k @ [CHR 39]))
      else validate_required_fields d ks label)"

fun sanitize_field :: "int \<Rightarrow> json \<Rightarrow> json" and sanitize_item :: "int \<Rightarrow> json \<Rightarrow> json" where
  "sanitize_field m (JStr s) = JStr (py_take m s)"
| "sanitize_field m (JObj kvs) = JObj (map (\<lambda>(k, v). (k, sanitize_field m v)) kvs)"
| "sanitize_field m (JList js) = JList (map (sanitize_item m) js)"
| "sanitize_field m j = j"
| "sanitize_item m (JObj kvs) = JObj (map (\<lambda>(k, v). (k, sanitize_field m v)) kvs)"
| "sanitize_item m (JStr s) = JStr (py_take m s)"
| "sanitize_item m j = j"

definition sanitize_dict :: "(string \<times> json) list \<Rightarrow> int \<Rightarrow> (string \<times> json) list" where
  "sanitize_dict d max_str_len = map (\<lambda>(k, v). (k, sanitize_field max_str_len v)) d"

subsection \<open>What a safe file name is\<close>

definition good_ends :: "string \<Rightarrow> bool" where
  "good_ends s \<longleftrightarrow> s \<noteq> [] \<and> \<not> dot_or_underscore (hd s) \<and> \<not> dot_or_underscore (last s)"

lemma strip_where_ends: "strip_where P s \<noteq> [] \<Longrightarrow> \<not> P (hd (strip_where P s)) \<and> \<not> P (last (strip_where P s))"
proof -
  assume ne: "strip_where P s \<noteq> []"
  let ?d = "dropWhile P s"
  obtain t where t: "?d = strip_where P s @ t"
    unfolding strip_where_def by (metis rev_append rev_rev_ident takeWhile_dropWhile_id)
  then have "hd ?d = hd (strip_where P s)" "?d \<noteq> []" using ne by auto
  then show ?thesis using strip_where_last [OF ne] hd_dropWhile [of P s] by auto
qed

lemma set_strip_where: "set (strip_where P s) \<subseteq> set s"
  by (auto simp: strip_where_def dest!: set_dropWhileD)

lemma length_strip_where: "length (strip_where P s) \<le> length s"
  using length_dropWhile_le [of P "rev (dropWhile P s)"] length_dropWhile_le [of P s]
  by (simp add: strip_where_def)

lemma strip_where_nonempty: "s \<noteq> [] \<Longrightarrow> \<not> P (hd s) \<Longrightarrow> strip_where P s \<noteq> []"
  by (cases s) (auto simp: strip_where_def dropWhile_append)

lemma or_file_ends:
  "(s \<noteq> [] \<Longrightarrow> \<not> dot_or_underscore (hd s) \<and> \<not> dot_or_underscore (last s)) \<Longrightarrow> good_ends (or_file s)"
  by (auto simp: good_ends_def or_file_def dot_or_underscore_def)

lemma or_file_chars: "list_all filename_char s \<Longrightarrow> list_all filename_char (or_file s)"
  by (simp add: or_file_def filename_char_def is_word_def is_ascii_alnum_def is_lower_def)

lemma length_or_file: "4 \<le> n \<Longrightarrow> length s \<le> n \<Longrightarrow> length (or_file s) \<le> n"
  by (simp add: or_file_def)

lemma list_all_strip: "list_all P s \<Longrightarrow> list_all P (strip_where Q s)"
  using set_strip_where [of Q s] by (auto simp: list_all_iff)

lemma list_all_py_take: "list_all P s \<Longrightarrow> list_all P (py_take n s)"
  using set_py_take [of n s] by (auto simp: list_all_iff)

lemma rpartition_dot:
  assumes "rpartition_dot v = (stem, dot, ext)" "dot \<noteq> []"
  shows "v = stem @ ''.'' @ ext"
proof -
  let ?e = "takeWhile (\<lambda>c. c \<noteq> CHR ''.'') (rev v)" and ?r = "dropWhile (\<lambda>c. c \<noteq> CHR ''.'') (rev v)"
  from assms have ext: "ext = rev ?e" "length ?e \<noteq> length v" "stem = take (length v - length ?e - 1) v"
    by (auto simp: rpartition_dot_def Let_def split: if_splits)
  have v: "v = rev ?r @ rev ?e" by (metis rev_append rev_rev_ident takeWhile_dropWhile_id)
  have ne: "?r \<noteq> []" using ext(2) v by (metis append_Nil length_rev rev.simps(1))
  then have r: "?r = CHR ''.'' # tl ?r" using hd_dropWhile [of "\<lambda>c. c \<noteq> CHR ''.''" "rev v"] by (metis list.collapse)
  have w: "v = rev (tl ?r) @ ''.'' @ ext" using v r ext(1) by (metis append.assoc rev.simps(2))
  have "length ext = length ?e" by (simp add: ext(1))
  then have "length v = length (rev (tl ?r)) + Suc (length ?e)" by (subst w) simp
  then have "stem = take (length (rev (tl ?r))) v" by (simp add: ext(3))
  also have "\<dots> = rev (tl ?r)" by (subst w) simp
  finally show ?thesis using w by simp
qed



end
