(* ===== verification/Resilience.thy ===== *)
theory Resilience
  imports Errors Complex_Main
begin

text \<open>
  \<^verbatim>\<open>app/core/resilience/recovery.py\<close>: retrying with exponential backoff, and the circuit
  breaker. A call of the protected function is a function on a state of its own that returns a
  value or raises. Delays are reals (seconds); the breaker's clock is \<open>time.monotonic()\<close> in
  microseconds.
\<close>

type_synonym ('e, 'a, 's) remote = "'s \<Rightarrow> ('e + 'a) \<times> 's"

subsection \<open>Retry\<close>

record retry_config =
  max_retries :: int
  base_delay :: real
  max_delay :: real
  backoff_factor :: real
  jitter :: bool

definition RetryConfig :: retry_config where
  "RetryConfig = \<lparr>max_retries = 3, base_delay = 1/2, max_delay = 30, backoff_factor = 2, jitter = True\<rparr>"

text \<open>
  The delay before the next attempt: \<open>random.uniform(0, delay)\<close> is \<open>delay\<close> times a number between 0
  and 1, which is an argument.
\<close>

definition retry_delay :: "retry_config \<Rightarrow> (nat \<Rightarrow> real) \<Rightarrow> nat \<Rightarrow> real" where
  "retry_delay cfg random attempt =
     (let delay = min (base_delay cfg * backoff_factor cfg ^ attempt) (max_delay cfg) in
      if jitter cfg then delay * random attempt else delay)"

text \<open>
  The loop of \<open>async_retry\<close>, with the delays it slept. \<open>Some e\<close> is the exception raised; None stands for
  the \<open>raise last_exc\<close> after an empty loop, where \<open>last_exc\<close> is still None.
\<close>

function retry_loop :: "retry_config \<Rightarrow> ('e \<Rightarrow> bool) \<Rightarrow> (nat \<Rightarrow> real) \<Rightarrow> ('e, 'a, 's) remote \<Rightarrow> nat \<Rightarrow> 's \<Rightarrow>
    ('e option + 'a) \<times> 's \<times> real list" where
  "retry_loop cfg retryable random func attempt s =
     (if int attempt > max_retries cfg then (Inl None, s, [])
      else case func s of
        (Inr x, s') \<Rightarrow> (Inr x, s', [])
      | (Inl e, s') \<Rightarrow>
          if \<not> retryable e \<or> int attempt = max_retries cfg then (Inl (Some e), s', [])
          else case retry_loop cfg retryable random func (Suc attempt) s' of
            (r, s'', ds) \<Rightarrow> (r, s'', retry_delay cfg random attempt # ds))"
  by pat_completeness auto
termination by (relation "measure (\<lambda>(cfg, _, _, _, attempt, _). nat (max_retries cfg + 1 - int attempt))") auto

declare retry_loop.simps [simp del]

definition async_retry :: "retry_config \<Rightarrow> ('e \<Rightarrow> bool) \<Rightarrow> (nat \<Rightarrow> real) \<Rightarrow> ('e, 'a, 's) remote \<Rightarrow> 's \<Rightarrow>
    ('e option + 'a) \<times> 's \<times> real list" where
  "async_retry cfg retryable random func s = retry_loop cfg retryable random func 0 s"

text \<open>The decorator; without a configuration it takes the default one.\<close>

definition retry :: "retry_config option \<Rightarrow> ('e \<Rightarrow> bool) \<Rightarrow> (nat \<Rightarrow> real) \<Rightarrow> ('e, 'a, 's) remote \<Rightarrow>
    ('e option, 'a, 's \<times> real list) remote" where
  "retry config retryable random func = (\<lambda>(s, slept).
     case async_retry (case config of None \<Rightarrow> RetryConfig | Some cfg \<Rightarrow> cfg) retryable random func s of
       (r, s', delays) \<Rightarrow> (r, s', slept @ delays))"

text \<open>The state after \<open>n\<close> calls.\<close>

fun after_calls :: "('e, 'a, 's) remote \<Rightarrow> nat \<Rightarrow> 's \<Rightarrow> 's" where
  "after_calls func 0 s = s"
| "after_calls func (Suc n) s = after_calls func n (snd (func s))"

definition fails_retryably :: "('e \<Rightarrow> bool) \<Rightarrow> ('e + 'a) \<Rightarrow> bool" where
  "fails_retryably retryable r = (case r of Inl e \<Rightarrow> retryable e | Inr x \<Rightarrow> False)"

definition retry_spec :: "retry_config \<Rightarrow> ('e \<Rightarrow> bool) \<Rightarrow> (nat \<Rightarrow> real) \<Rightarrow> ('e, 'a, 's) remote \<Rightarrow> nat \<Rightarrow> 's \<Rightarrow>
    ('e option + 'a) \<times> 's \<times> real list \<Rightarrow> bool" where
  "retry_spec cfg retryable random func attempt s out \<longleftrightarrow>
     (\<exists>n. int (attempt + n) \<le> max_retries cfg \<and>
        (\<forall>i < n. fails_retryably retryable (fst (func (after_calls func i s)))) \<and>
        fst out = map_sum Some id (fst (func (after_calls func n s))) \<and>
        (fails_retryably retryable (fst (func (after_calls func n s))) \<longrightarrow> int (attempt + n) = max_retries cfg) \<and>
        fst (snd out) = after_calls func (Suc n) s \<and>
        snd (snd out) = map (\<lambda>i. retry_delay cfg random (attempt + i)) [0..<n])"

lemma retry_loop_spec:
  "int attempt \<le> max_retries cfg \<Longrightarrow>
     retry_spec cfg retryable random func attempt s (retry_loop cfg retryable random func attempt s)"
proof (induction cfg retryable random func attempt s rule: retry_loop.induct)
  case (1 cfg retryable random func attempt s)
  obtain r s' where f: "func s = (r, s')" by (cases "func s")
  show ?case
  proof (cases "fails_retryably retryable r \<and> int attempt \<noteq> max_retries cfg")
    case False
    then have "retry_loop cfg retryable random func attempt s = (map_sum Some id r, s', [])"
      using "1.prems" by (subst retry_loop.simps) (auto simp: f fails_retryably_def split: sum.splits)
    with False "1.prems" show ?thesis
      unfolding retry_spec_def by (intro exI [of _ 0]) (auto simp: f)
  next
    case True
    then obtain e where e: "r = Inl e" "retryable e" by (cases r) (auto simp: fails_retryably_def)
    let ?rec = "retry_loop cfg retryable random func (Suc attempt) s'"
    have loop: "retry_loop cfg retryable random func attempt s =
        (fst ?rec, fst (snd ?rec), retry_delay cfg random attempt # snd (snd ?rec))"
      using True "1.prems" by (subst retry_loop.simps) (simp add: f e case_prod_beta)
    have "retry_spec cfg retryable random func (Suc attempt) s' ?rec"
      using True "1.prems" by (intro "1.IH" [OF _ f [symmetric] e(1)]) (auto simp: f e)
    then obtain n where n: "int (Suc attempt + n) \<le> max_retries cfg"
      "\<forall>i < n. fails_retryably retryable (fst (func (after_calls func i s')))"
      "fst ?rec = map_sum Some id (fst (func (after_calls func n s')))"
      "fails_retryably retryable (fst (func (after_calls func n s'))) \<longrightarrow> int (Suc attempt + n) = max_retries cfg"
      "fst (snd ?rec) = after_calls func (Suc n) s'"
      "snd (snd ?rec) = map (\<lambda>i. retry_delay cfg random (Suc attempt + i)) [0..<n]"
      unfolding retry_spec_def by blast
    have "map (\<lambda>i. retry_delay cfg random (attempt + i)) [0..<Suc n] =
        retry_delay cfg random attempt # map (\<lambda>i. retry_delay cfg random (Suc attempt + i)) [0..<n]"
      unfolding map_upt_Suc by simp
    moreover have "\<forall>i < Suc n. fails_retryably retryable (fst (func (after_calls func i s)))"
      using n(2) True by (auto simp: f less_Suc_eq_0_disj)
    ultimately show ?thesis
      unfolding retry_spec_def loop using n by (intro exI [of _ "Suc n"]) (auto simp: f)
  qed
qed

lemma scaled_delay:
  fixes d :: real
  assumes "0 \<le> d" "d \<le> m" "0 \<le> u \<and> u \<le> 1"
  shows "0 \<le> (if j then d * u else d) \<and> (if j then d * u else d) \<le> m"
  using assms mult_left_le [of u d] by (auto intro: order_trans)

text \<open>
  C20. Retrying ends and does what it says: for some \<open>n\<close> up to the configured number of retries,
  the function is called \<open>n + 1\<close> times, the first \<open>n\<close> calls raise retryable exceptions and the last
  one decides the outcome, which is retryable only when the retries are used up; in between it
  sleeps \<open>n\<close> times, never longer than the maximal delay and never a negative time.
\<close>

theorem retry_bounded:
  assumes "0 \<le> max_retries cfg" "0 \<le> base_delay cfg" "0 \<le> backoff_factor cfg" "0 \<le> max_delay cfg"
    and "\<And>i. 0 \<le> random i \<and> random i \<le> 1"
    and "async_retry cfg retryable random func s = (r, s', delays)"
  shows "\<exists>n. int n \<le> max_retries cfg \<and> length delays = n \<and> s' = after_calls func (Suc n) s \<and>
      (\<forall>i < n. fails_retryably retryable (fst (func (after_calls func i s)))) \<and>
      r = map_sum Some id (fst (func (after_calls func n s))) \<and>
      (fails_retryably retryable (fst (func (after_calls func n s))) \<longrightarrow> int n = max_retries cfg) \<and>
      (\<forall>d \<in> set delays. 0 \<le> d \<and> d \<le> max_delay cfg)"
proof -
  from retry_loop_spec [of 0 cfg retryable random func s] assms(1)
  have spec: "retry_spec cfg retryable random func 0 s (async_retry cfg retryable random func s)"
    by (simp add: async_retry_def)
  have "0 \<le> retry_delay cfg random i \<and> retry_delay cfg random i \<le> max_delay cfg" for i
  proof -
    let ?d = "min (base_delay cfg * backoff_factor cfg ^ i) (max_delay cfg)"
    have "0 \<le> ?d" "?d \<le> max_delay cfg" using assms(2-4) by auto
    from scaled_delay [OF this, of "random i"] assms(5) [of i] show ?thesis
      unfolding retry_delay_def Let_def by blast
  qed
  with spec show ?thesis
    by (auto simp: retry_spec_def assms(6))
qed

definition flaky :: "(string, nat, nat) remote" where
  "flaky n = (if n < 2 then (Inl ''timeout'', n + 1) else (Inr n, n + 1))"

lemma default_delays:
  "max_retries RetryConfig = 3" "retry_delay RetryConfig (\<lambda>i. 1) 0 = 1/2"
  "retry_delay RetryConfig (\<lambda>i. 1) (Suc 0) = 1"
  by (simp_all add: RetryConfig_def retry_delay_def)

lemma retry_bounded_witness:
  "\<exists>delays. async_retry RetryConfig (\<lambda>e. True) (\<lambda>i. 1) flaky 0 = (Inr 2, 3, delays) \<and> length delays = 2"
proof -
  note loop = trans [OF retry_loop.simps]
  have 2: "retry_loop RetryConfig (\<lambda>e. True) (\<lambda>i. 1) flaky (Suc (Suc 0)) (Suc (Suc 0)) = (Inr 2, 3, [])"
    by (rule loop) (simp add: default_delays flaky_def)
  have 1: "retry_loop RetryConfig (\<lambda>e. True) (\<lambda>i. 1) flaky (Suc 0) (Suc 0) = (Inr 2, 3, [1])"
    by (rule loop) (simp add: default_delays flaky_def 2)
  have run: "async_retry RetryConfig (\<lambda>e. True) (\<lambda>i. 1) flaky 0 = (Inr 2, 3, [1/2, 1])"
    unfolding async_retry_def by (rule loop) (simp add: default_delays flaky_def 1)
  have "0 \<le> (1 :: real) \<and> (1 :: real) \<le> 1" by simp
  from retry_bounded [OF _ _ _ _ this run] obtain n where "length [1/2, 1 :: real] = n" "3 = after_calls flaky (Suc n) 0"
    by (auto simp: RetryConfig_def)
  then show ?thesis using run by auto
qed

subsection \<open>Circuit breaker\<close>

datatype breaker_state = Closed | Open | HalfOpen

text \<open>\<open>half_open_max\<close> is part of the configuration; nothing reads it.\<close>

record breaker_config =
  failure_threshold :: int
  recovery_timeout :: int
  half_open_max :: int

record breaker =
  br_state :: breaker_state
  br_failure_count :: int
  br_last_failure_time :: int
  br_open_until :: int

definition new_breaker :: breaker where
  "new_breaker = \<lparr>br_state = Closed, br_failure_count = 0, br_last_failure_time = 0, br_open_until = 0\<rparr>"

lemma new_breaker_simps [simp]: "br_state new_breaker = Closed" "br_failure_count new_breaker = 0"
  by (simp_all add: new_breaker_def)

text \<open>\<open>{d:.1f}\<close> of a time in microseconds: seconds to the nearest tenth.\<close>

definition tenths :: "int \<Rightarrow> string" where
  "tenths d = (let n = (d + 50000) div 100000 in str_int (n div 10) @ ''.'' @ str_int (n mod 10))"

text \<open>
  The three critical sections of \<open>call\<close>, each under the lock. \<open>enter\<close> decides whether the
  function may run: None that it may. The message is built from a second reading of the clock, \<open>now'\<close>.
\<close>

definition enter :: "string \<Rightarrow> int \<Rightarrow> int \<Rightarrow> breaker \<Rightarrow> exn option \<times> breaker" where
  "enter name now now' b =
     (if br_state b = Open then
        (if now \<ge> br_open_until b then (None, b\<lparr>br_state := HalfOpen\<rparr>)
         else (Some (CircuitOpenError (''Circuit '' @ [CHR 39] @ name @ [CHR 39] @ '' is OPEN. Retry in '' @
                 tenths (br_open_until b - now') @ ''s'')), b))
      else (None, b))"

definition record_failure :: "breaker_config \<Rightarrow> int \<Rightarrow> breaker \<Rightarrow> breaker" where
  "record_failure cfg now b =
     (let b1 = b\<lparr>br_failure_count := br_failure_count b + 1, br_last_failure_time := now\<rparr> in
      if br_state b = HalfOpen \<or> br_state b = Closed \<and> br_failure_count b1 \<ge> failure_threshold cfg
      then b1\<lparr>br_state := Open, br_open_until := now + recovery_timeout cfg\<rparr> else b1)"

definition record_success :: "breaker \<Rightarrow> breaker" where
  "record_success b = b\<lparr>br_state := Closed, br_failure_count := 0\<rparr>"

text \<open>A call that nothing overtakes: it enters at \<open>now\<close> and the function is done at \<open>later\<close>.\<close>

definition call :: "string \<Rightarrow> breaker_config \<Rightarrow> int \<Rightarrow> int \<Rightarrow> (exn, 'a, 's) remote \<Rightarrow> breaker \<Rightarrow> 's \<Rightarrow>
    (exn + 'a) \<times> breaker \<times> 's" where
  "call name cfg now later func b s =
     (case enter name now now b of
        (Some e, b1) \<Rightarrow> (Inl e, b1, s)
      | (None, b1) \<Rightarrow> (case func s of
          (Inl e, s') \<Rightarrow> (Inl e, record_failure cfg later b1, s')
        | (Inr x, s') \<Rightarrow> (Inr x, record_success b1, s')))"

fun calls :: "string \<Rightarrow> breaker_config \<Rightarrow> (int \<times> int \<times> (exn, 'a, 's) remote) list \<Rightarrow> breaker \<Rightarrow> 's \<Rightarrow> breaker \<times> 's" where
  "calls name cfg [] b s = (b, s)"
| "calls name cfg ((now, later, func) # cs) b s =
     (case call name cfg now later func b s of (r, b', s') \<Rightarrow> calls name cfg cs b' s')"

definition failing :: "(exn, 'a, 's) remote \<Rightarrow> bool" where
  "failing func \<longleftrightarrow> (\<forall>s. isl (fst (func s)))"

lemma call_open:
  "br_state b = Open \<Longrightarrow> now < br_open_until b \<Longrightarrow> \<exists>m. call name cfg now later func b s = (Inl (CircuitOpenError m), b, s)"
  by (simp add: call_def enter_def)

lemma call_closed_failing:
  assumes "br_state b = Closed" "failing func"
  shows "\<exists>e. call name cfg now later func b s = (Inl e, record_failure cfg later b, snd (func s))"
proof -
  from assms(2) have "isl (fst (func s))" by (simp add: failing_def)
  then obtain e where "fst (func s) = Inl e" by (cases "fst (func s)") auto
  then obtain s' where "func s = (Inl e, s')" by (cases "func s") auto
  with assms(1) show ?thesis by (simp add: call_def enter_def)
qed

text \<open>
  Calls that fail one after another leave the breaker closed until the threshold is reached; the
  last of them opens it. \<open>k\<close> counts the failures before.
\<close>

lemma failing_calls:
  assumes "list_all (\<lambda>(now, later, func). failing func) cs" "br_state b = Closed"
    "br_failure_count b + int (length cs) < failure_threshold cfg"
  shows "br_state (fst (calls name cfg cs b s)) = Closed \<and>
    br_failure_count (fst (calls name cfg cs b s)) = br_failure_count b + int (length cs)"
  using assms
proof (induction name cfg cs b s rule: calls.induct)
  case (2 name cfg now later func cs b s)
  from "2.prems" obtain e where c: "call name cfg now later func b s = (Inl e, record_failure cfg later b, snd (func s))"
    using call_closed_failing by fastforce
  have "br_state (record_failure cfg later b) = Closed" "br_failure_count (record_failure cfg later b) = br_failure_count b + 1"
    using "2.prems" by (auto simp: record_failure_def Let_def)
  with "2.IH" [OF c [symmetric] refl] "2.prems" c show ?case by simp
qed simp

lemma calls_append: "calls name cfg (cs @ ds) b s = (case calls name cfg cs b s of (b', s') \<Rightarrow> calls name cfg ds b' s')"
  by (induction name cfg cs b s rule: calls.induct) (auto split: prod.split)


definition always_down :: "(exn, unit, nat) remote" where
  "always_down n = (Inl (RuntimeError ''down''), n + 1)"

definition two_strikes :: breaker_config where
  "two_strikes = \<lparr>failure_threshold = 2, recovery_timeout = 30000000, half_open_max = 1\<rparr>"


text \<open>
  Calls overlap: the function of one runs while others enter and finish. The state is the
  breaker with the number of functions running.
\<close>

inductive overlap :: "breaker_config \<Rightarrow> breaker \<times> nat \<Rightarrow> breaker \<times> nat \<Rightarrow> bool" for cfg where
  enter: "enter name now now' b = (None, b') \<Longrightarrow> overlap cfg (b, n) (b', Suc n)"
| refuse: "enter name now now' b = (Some e, b') \<Longrightarrow> overlap cfg (b, n) (b', n)"
| failure: "overlap cfg (b, Suc n) (record_failure cfg now b, n)"
| success: "overlap cfg (b, Suc n) (record_success b, n)"

text \<open>
  In every interleaving a closed breaker is below its threshold; but a call that entered
  before the breaker tripped and succeeds afterwards closes it again, however long it was to stay
  open.
\<close>

lemma overlap_closed_below:
  assumes "(overlap cfg)\<^sup>*\<^sup>* (new_breaker, 0) (b, n)" "0 < failure_threshold cfg" "br_state b = Closed"
  shows "br_failure_count b < failure_threshold cfg"
proof -
  have "br_state (fst x) = Closed \<longrightarrow> br_failure_count (fst x) < failure_threshold cfg"
    if "(overlap cfg)\<^sup>*\<^sup>* (new_breaker, 0) x" for x
    using that
  proof (induction rule: rtranclp_induct)
    case base
    then show ?case using assms(2) by (simp add: new_breaker_def)
  next
    case (step x y)
    from step.hyps(2) step.IH show ?case
      using assms(2)
      by cases (auto simp: enter_def record_failure_def record_success_def Let_def split: if_splits)
  qed
  with assms show ?thesis by force
qed

lemma late_success_closes_open_circuit:
  assumes "br_state b = Open" "now < br_open_until b"
  shows "overlap cfg (b, Suc n) (record_success b, n) \<and>
    fst (enter name now now (record_success b)) = None \<and> fst (enter name now now b) \<noteq> None"
  using assms overlap.success [of cfg b n] by (simp add: enter_def) (simp add: record_success_def)

end
