(* ===== verification/Overlap.thy ===== *)
theory Overlap
  imports Transitions AuthActions
begin

text \<open>
  Requests that overlap. A service loads a role or a user, awaits, and later hands the object to a
  repository, which writes values computed from the object's attributes (\<open>role.permission_mask\<close> in
  \<^verbatim>\<open>repositories/rbac/role.py\<close>, \<open>user.perm_version\<close> in \<^verbatim>\<open>repositories/auth/user.py\<close>). In between, other
  requests run. The theory says when that is as good as one request after the other, and what
  happens when it is not.
\<close>

subsection \<open>Requests and the objects they hold\<close>

text \<open>The world, and the role and the user each request has loaded; requests are numbered.\<close>

record system =
  sys_world :: world
  held_role :: "nat \<Rightarrow> role_obj option"
  held_user :: "nat \<Rightarrow> user_obj option"

datatype change =
    Add_permission permission
  | Remove_permission permission
  | Rename "string option"

datatype grant = Grant permission | Revoke permission

fun change_role :: "role_obj \<Rightarrow> change \<Rightarrow> world \<Rightarrow> world" where
  "change_role role (Add_permission p) w = snd (add_permission role p w)"
| "change_role role (Remove_permission p) w = snd (remove_permission role p w)"
| "change_role role (Rename n) w = snd (role_update role n w)"

fun change_user :: "user_obj \<Rightarrow> grant \<Rightarrow> world \<Rightarrow> world" where
  "change_user user (Grant p) w = snd (grant_permission user p w)"
| "change_user user (Revoke p) w = snd (revoke_permission user p w)"

fun known_change :: "db \<Rightarrow> change \<Rightarrow> bool" where
  "known_change d (Add_permission p) \<longleftrightarrow> p \<in> set (permissions d)"
| "known_change d (Remove_permission p) \<longleftrightarrow> p \<in> set (permissions d)"
| "known_change d (Rename n) \<longleftrightarrow> True"

text \<open>
  A request loads an object, commits a change with the object it holds, or makes a call that loads
  and commits without another request in between. A step is labelled by what it commits.
\<close>

datatype label = Silent | Role_change role_obj change | User_change user_obj grant

inductive overlap_step :: "system \<Rightarrow> label \<Rightarrow> system \<Rightarrow> bool" where
  load_role: "get_role rid (w_db (sys_world s)) = Some role \<Longrightarrow>
     overlap_step s Silent (s\<lparr>held_role := (held_role s)(i := Some role)\<rparr>)"
| load_user: "get_user_with_grants uid (w_db (sys_world s)) = Some user \<Longrightarrow>
     overlap_step s Silent (s\<lparr>held_user := (held_user s)(i := Some user)\<rparr>)"
| commit_role: "held_role s i = Some role \<Longrightarrow> known_change (w_db (sys_world s)) c \<Longrightarrow>
     overlap_step s (Role_change role c) (s\<lparr>sys_world := change_role role c (sys_world s)\<rparr>)"
| commit_user: "held_user s i = Some user \<Longrightarrow>
     overlap_step s (User_change user g) (s\<lparr>sys_world := change_user user g (sys_world s)\<rparr>)"
| call: "world_step (sys_world s) w \<Longrightarrow> overlap_step s Silent (s\<lparr>sys_world := w\<rparr>)"

inductive_cases overlap_stepE: "overlap_step s l s'"

text \<open>A run, with the database each step found.\<close>

inductive overlap_run :: "system \<Rightarrow> (db \<times> label) list \<Rightarrow> system \<Rightarrow> bool" where
  start: "overlap_run s [] s"
| step: "overlap_run s tr s1 \<Longrightarrow> overlap_step s1 l s2 \<Longrightarrow> overlap_run s (tr @ [(w_db (sys_world s1), l)]) s2"

subsection \<open>Objects that are still current\<close>

text \<open>What the change reads of the object is still what the row says.\<close>

definition current_role :: "db \<Rightarrow> role_obj \<Rightarrow> bool" where
  "current_role d role \<longleftrightarrow> (\<exists>r \<in> set (roles d). r_id r = r_id role \<and>
     r_permission_mask r = r_permission_mask role \<and> r_tenant_id r = r_tenant_id role)"

definition current_user :: "db \<Rightarrow> user_obj \<Rightarrow> bool" where
  "current_user d user \<longleftrightarrow> (\<exists>u \<in> set (users d). u_id u = u_id user \<and> u_perm_version u = u_perm_version user)"

fun timely :: "db \<times> label \<Rightarrow> bool" where
  "timely (d, Role_change role c) \<longleftrightarrow> current_role d role"
| "timely (d, User_change user g) \<longleftrightarrow> current_user d user"
| "timely (d, Silent) \<longleftrightarrow> True"

lemma loaded_role_current: "loaded_role d role \<Longrightarrow> current_role d role"
  by (auto simp: current_role_def)

lemma loaded_user_current: "loaded_user d user \<Longrightarrow> current_user d user"
  by (auto simp: current_user_def)

text \<open>A change with a current object does what it does with the object loaded afresh, or nothing.\<close>

lemma write_role_mask_reads:
  "r_id role = r_id role' \<Longrightarrow> r_permission_mask role = r_permission_mask role' \<Longrightarrow>
     write_role_mask role = write_role_mask role'"
  by (simp add: write_role_mask_def fun_eq_iff)

lemma add_permission_reads:
  "r_id role = r_id role' \<Longrightarrow> r_permission_mask role = r_permission_mask role' \<Longrightarrow>
     snd (add_permission role p w) = snd (add_permission role' p w)"
  using write_role_mask_reads [of role role']
  by (auto simp: add_permission_def Let_def case_prod_beta split: sum.splits option.splits)

lemma remove_permission_reads:
  "r_id role = r_id role' \<Longrightarrow> r_permission_mask role = r_permission_mask role' \<Longrightarrow>
     p_id p \<in> p_id ` set (permissions_of role) \<Longrightarrow> p_id p \<in> p_id ` set (permissions_of role') \<Longrightarrow>
     snd (remove_permission role p w) = snd (remove_permission role' p w)"
  using write_role_mask_reads [of role role']
  by (auto simp: remove_permission_def Let_def case_prod_beta split: sum.splits option.splits)

lemma role_update_reads:
  "r_id role = r_id role' \<Longrightarrow> r_tenant_id role = r_tenant_id role' \<Longrightarrow>
     snd (role_update role n w) = snd (role_update role' n w)"
  by (auto simp: role_update_def Let_def split: option.splits)

lemma remove_permission_idle:
  "p_id p \<notin> p_id ` set (permissions_of role) \<or> (r_id role, p_id p) \<notin> set (role_permissions (w_db w)) \<Longrightarrow>
     snd (remove_permission role p w) = w"
  by (auto simp: remove_permission_def Let_def)

lemma change_role_current:
  assumes inv: "world_inv w" and cur: "current_role (w_db w) role" and c: "known_change (w_db w) c"
  shows "change_role role c w = w \<or> repo_step w (change_role role c w)"
proof -
  let ?d = "w_db w"
  from cur obtain r where r: "r \<in> set (roles ?d)" "r_id r = r_id role"
    "r_permission_mask r = r_permission_mask role" "r_tenant_id r = r_tenant_id role"
    by (auto simp: current_role_def)
  let ?fresh = "load_role ?d r"
  have fresh: "loaded_role ?d ?fresh" using r(1) by blast
  have eq: "r_id role = r_id ?fresh" "r_permission_mask role = r_permission_mask ?fresh"
    "r_tenant_id role = r_tenant_id ?fresh" using r by simp_all
  show ?thesis
  proof (cases c)
    case (Add_permission p)
    with add_permission_reads [OF eq(1,2)] repo_step.add_permission [OF fresh] c show ?thesis by simp
  next
    case (Remove_permission p)
    show ?thesis
    proof (cases "p_id p \<in> p_id ` set (permissions_of role) \<and> (r_id role, p_id p) \<in> set (role_permissions ?d)")
      case True
      then have "p_id p \<in> p_id ` set (permissions_of ?fresh)"
        using c Remove_permission r(2) by (auto simp: set_role_perm_rows)
      with True remove_permission_reads [OF eq(1,2)] repo_step.remove_permission [OF fresh] c Remove_permission
      show ?thesis by simp
    next
      case False
      then show ?thesis unfolding Remove_permission change_role.simps
        using remove_permission_idle [of p role w] by blast
    qed
  next
    case (Rename n)
    with role_update_reads [OF eq(1,3)] repo_step.role_update [OF fresh] show ?thesis by simp
  qed
qed

lemma grant_permission_reads:
  "u_id user = u_id user' \<Longrightarrow> u_perm_version user = u_perm_version user' \<Longrightarrow>
     snd (grant_permission user p w) = snd (grant_permission user' p w)"
  by (auto simp: grant_permission_def Let_def split: option.splits)

lemma revoke_permission_reads:
  "u_id user = u_id user' \<Longrightarrow> u_perm_version user = u_perm_version user' \<Longrightarrow>
     p_id p \<in> p_id ` set (direct_permissions user) \<Longrightarrow> p_id p \<in> p_id ` set (direct_permissions user') \<Longrightarrow>
     snd (revoke_permission user p w) = snd (revoke_permission user' p w)"
  by (auto simp: revoke_permission_def Let_def)

lemma revoke_permission_idle:
  "p_id p \<notin> p_id ` set (direct_permissions user) \<or> (u_id user, p_id p) \<notin> set (user_permissions (w_db w)) \<Longrightarrow>
     snd (revoke_permission user p w) = w"
  by (auto simp: revoke_permission_def Let_def)

lemma change_user_current:
  assumes inv: "world_inv w" and cur: "current_user (w_db w) user"
  shows "change_user user g w = w \<or> repo_step w (change_user user g w)"
proof -
  let ?d = "w_db w"
  from cur obtain u where u: "u \<in> set (users ?d)" "u_id u = u_id user" "u_perm_version u = u_perm_version user"
    by (auto simp: current_user_def)
  let ?fresh = "load_user ?d u"
  have fresh: "loaded_user ?d ?fresh" using u(1) by blast
  have eq: "u_id user = u_id ?fresh" "u_perm_version user = u_perm_version ?fresh" using u by simp_all
  show ?thesis
  proof (cases g)
    case (Grant p)
    with grant_permission_reads [OF eq] repo_step.grant_permission [OF fresh] show ?thesis by simp
  next
    case (Revoke p)
    show ?thesis
    proof (cases "p_id p \<in> p_id ` set (direct_permissions user) \<and> (u_id user, p_id p) \<in> set (user_permissions ?d)")
      case True
      then have "p_id p \<in> p_id ` set (direct_permissions ?fresh)"
        using u(2) refers_rows(5) [OF inv_constraints [OF inv]]
        by (auto simp: set_user_perm_rows refers_def) 
      with True revoke_permission_reads [OF eq] repo_step.revoke_permission [OF fresh] Revoke show ?thesis by simp
    next
      case False
      then show ?thesis unfolding Revoke change_user.simps
        using revoke_permission_idle [of p user w] by blast
    qed
  qed
qed

subsection \<open>Requests that do not contend\<close>

lemma overlap_step_world:
  assumes "overlap_step s l s'" "timely (w_db (sys_world s), l)" "world_inv (sys_world s)"
  shows "sys_world s' = sys_world s \<or> world_step (sys_world s) (sys_world s')"
  using assms(1)
proof cases
  case (commit_role i role c)
  with assms change_role_current [of "sys_world s" role c] show ?thesis by (auto intro: world_step.repo)
next
  case (commit_user i user g)
  with assms change_user_current [of "sys_world s" user g] show ?thesis by (auto intro: world_step.repo)
qed auto

lemma overlap_run_world:
  assumes "overlap_run s tr s'" "\<forall>x \<in> set tr. timely x" "world_inv (sys_world s)"
  shows "world_step\<^sup>*\<^sup>* (sys_world s) (sys_world s') \<and> world_inv (sys_world s')"
  using assms
proof (induction rule: overlap_run.induct)
  case (step s tr s1 l s2)
  then have IH: "world_step\<^sup>*\<^sup>* (sys_world s) (sys_world s1)" "world_inv (sys_world s1)" by simp_all
  from overlap_step_world [OF step.hyps(2) _ IH(2)] step.prems IH world_step_inv show ?case
    by (auto intro: rtranclp.rtrancl_into_rtrancl)
qed simp

text \<open>An object stays current while others are changed: two roles, or a role's mask and a user.\<close>

lemma current_role_update:
  assumes "\<And>r. r_id (f r) = r_id r" "rid \<noteq> r_id role"
  shows "current_role (d\<lparr>roles := update_where (\<lambda>r. r_id r = rid) f rs\<rparr>) role \<longleftrightarrow>
    current_role (d\<lparr>roles := rs\<rparr>) role"
  using assms by (simp add: current_role_def del: if_split) (intro bex_cong; auto)

lemma current_role_frame [simp]:
  "current_role (d\<lparr>users := us\<rparr>) role = current_role d role"
  "current_role (d\<lparr>role_permissions := rows\<rparr>) role = current_role d role"
  by (simp_all add: current_role_def)

lemma other_role_stays_current:
  assumes "current_role (w_db w) role" "r_id role' \<noteq> r_id role"
  shows "current_role (w_db (change_role role' c w)) role"
  using assms
  by (cases c) (auto simp: add_permission_def remove_permission_def role_update_def Let_def case_prod_beta
      write_role_mask_def bump_holders bump_where_db current_role_update
      split: sum.splits option.splits)

lemma current_role_user_change: "current_role (w_db w) role \<Longrightarrow> current_role (w_db (change_user user g w)) role"
  by (cases g) (auto simp: grant_permission_def revoke_permission_def Let_def write_user_def current_role_def
      split: option.splits)

text \<open>
  C11. Overlapping requests are as good as one after the other as long as they do not contend: when
  every commit finds the attributes it computes with as they were loaded, whatever else has
  happened in between and however the requests interleave, every world of the run is one that
  single calls reach in some order. The invariant of the database holds in it, the mirror can be
  parsed, and it is nowhere ahead of the version of a user.
\<close>

theorem uncontended_requests_serial:
  assumes "overlap_run s tr s'" "\<forall>x \<in> set tr. timely x" "reachable_world (sys_world s)"
  shows "world_step\<^sup>*\<^sup>* (sys_world s) (sys_world s') \<and> reachable_world (sys_world s') \<and>
    db_inv (w_db (sys_world s')) \<and> canonical (w_redis (sys_world s')) \<and> mirror_sound (sys_world s')"
proof -
  have "world_inv (sys_world s)" using assms(3) by (simp add: reachable_world_sound)
  from overlap_run_world [OF assms(1,2) this] have "world_step\<^sup>*\<^sup>* (sys_world s) (sys_world s')" by simp
  moreover from reachable_world_steps [OF this assms(3)] have "reachable_world (sys_world s')" .
  moreover from reachable_world_sound [OF this] have "world_inv (sys_world s')" "mirror_sound (sys_world s')" by auto
  ultimately show ?thesis by (simp add: world_inv_def)
qed

definition two_requests :: system where
  "two_requests = \<lparr>sys_world = sample_world, held_role = (\<lambda>_. None), held_user = (\<lambda>_. None)\<rparr>"

lemma sample_roles:
  "get_role 1 sample_db = Some (load_role sample_db admin_role)"
  "get_role 2 sample_db = Some (load_role sample_db reader_role)"
  by (simp_all add: get_role_def sample_db_def sample_rows)

lemma uncontended_requests_serial_witness:
  "\<exists>s tr. overlap_run two_requests tr s \<and> length tr = 4 \<and> db_inv (w_db (sys_world s))"
proof -
  let ?reader = "load_role sample_db reader_role" and ?admin = "load_role sample_db admin_role"
  let ?p = "\<lparr>p_id = 3, p_name = ''role:read.id'', p_bit_position = Some 2\<rparr>"
  let ?s1 = "two_requests\<lparr>held_role := (held_role two_requests)(0 := Some ?reader)\<rparr>"
  let ?s2 = "?s1\<lparr>held_role := (held_role ?s1)(1 := Some ?admin)\<rparr>"
  let ?s3 = "?s2\<lparr>sys_world := change_role ?admin (Add_permission ?p) (sys_world ?s2)\<rparr>"
  let ?s4 = "?s3\<lparr>sys_world := change_role ?reader (Rename (Some ''viewer'')) (sys_world ?s3)\<rparr>"
  have d: "w_db (sys_world two_requests) = sample_db" "w_db sample_world = sample_db"
    by (simp_all add: two_requests_def sample_world_def)
  have w: "sys_world two_requests = sample_world" by (simp add: two_requests_def)
  have p: "?p \<in> set (permissions sample_db)" by (simp add: sample_db_def catalog_rows_value)
  have run: "overlap_run two_requests ([] @ [(w_db (sys_world two_requests), Silent)] @ [(w_db (sys_world ?s1), Silent)] @
      [(w_db (sys_world ?s2), Role_change ?admin (Add_permission ?p))] @
      [(w_db (sys_world ?s3), Role_change ?reader (Rename (Some ''viewer'')))]) ?s4"
    unfolding append_assoc [symmetric]
    by (intro overlap_run.start overlap_run.step overlap_step.load_role [where rid = 2] overlap_step.load_role [where rid = 1]
        overlap_step.commit_role [where i = 1] overlap_step.commit_role [where i = 0])
      (simp_all add: d sample_roles p)
  have "current_role sample_db ?reader" "current_role sample_db ?admin"
    by (auto simp: current_role_def sample_db_def)
  moreover from this(1) have "current_role (w_db (change_role ?admin (Add_permission ?p) sample_world)) ?reader"
    by (intro other_role_stays_current) (simp_all add: d, simp add: sample_rows)
  ultimately have "\<forall>x \<in> set ([] @ [(w_db (sys_world two_requests), Silent)] @ [(w_db (sys_world ?s1), Silent)] @
      [(w_db (sys_world ?s2), Role_change ?admin (Add_permission ?p))] @
      [(w_db (sys_world ?s3), Role_change ?reader (Rename (Some ''viewer'')))]). timely x"
    by (simp add: d w)
  from uncontended_requests_serial [OF run this] reachable_sample w run show ?thesis
    by (intro exI conjI) auto
qed

subsection \<open>Requests that do\<close>

text \<open>What the two changes of a user's own permissions write.\<close>

lemma grant_writes:
  assumes "(u_id user, p_id q) \<notin> set (user_permissions (w_db w))" "u_id user \<in> user_ids (w_db w)"
    "p_id q \<in> permission_ids (w_db w)"
  shows "change_user user (Grant q) w =
    commit (write_user (u_id user) (\<lambda>u. u\<lparr>u_perm_version := u_perm_version user + 1\<rparr>)
      ((w_db w)\<lparr>user_permissions := user_permissions (w_db w) @ [(u_id user, p_id q)]\<rparr>))
      [PermVersion (uuid_str (u_id user)) (u_perm_version user + 1)] w"
  using assms by (simp add: grant_permission_def Let_def insert_link_def)

lemma revoke_writes:
  assumes "(u_id user, p_id p) \<in> set (user_permissions (w_db w))" "p_id p \<in> p_id ` set (direct_permissions user)"
  shows "change_user user (Revoke p) w =
    commit (write_user (u_id user) (\<lambda>u. u\<lparr>u_perm_version := u_perm_version user + 1\<rparr>)
      ((w_db w)\<lparr>user_permissions := delete_link (u_id user, p_id p) (user_permissions (w_db w))\<rparr>))
      [PermVersion (uuid_str (u_id user)) (u_perm_version user + 1)] w"
  using assms by (simp add: revoke_permission_def Let_def)

lemma written_user: "u \<in> set (users d) \<Longrightarrow> u_id u = uid \<Longrightarrow> f u \<in> set (users (write_user uid f d))"
  by (auto simp: write_user_def set_update_where image_iff)

text \<open>A stale object sets the version to one more than it was loaded with, whatever the row has by now.\<close>

lemma stale_grant_regresses_version:
  assumes "(u_id user, p_id q) \<notin> set (user_permissions (w_db w))" "u \<in> set (users (w_db w))" "u_id u = u_id user"
    "p_id q \<in> permission_ids (w_db w)" "u_perm_version user + 1 < u_perm_version u"
  shows "\<exists>u' \<in> set (users (w_db (change_user user (Grant q) w))). u_id u' = u_id u \<and> u_perm_version u' < u_perm_version u"
proof -
  have "u_id user \<in> user_ids (w_db w)" using assms(2,3) by (metis imageI)
  with assms show ?thesis by (subst grant_writes) (auto simp: write_user_def intro!: bexI [of _ u])
qed

text \<open>
  C12. A revocation that overlaps a grant reaches no worker. Two requests have loaded the same user;
  one grants the user a permission, and then the other takes away another one that the user holds
  in no other way. The user's version is the same before and after the revocation, since both wrote
  the version they had loaded plus one: a token minted between the two commits carries the revoked
  bit, and every worker in step with the mirror goes on accepting it.
\<close>

theorem overlapping_revocation_unnoticed:
  assumes "world_inv w" "reachable (w_redis w)" "loaded_user (w_db w) user"
    and p: "p \<in> set (direct_permissions user)" "registry_bit (p_name p) = Some k"
    and only: "\<forall>r \<in> set (roles_of user). \<not> bit (r_permission_mask r) k"
    and q: "q \<in> set (permissions (w_db w))" "q \<notin> set (direct_permissions user)"
  shows "let w1 = change_user user (Grant q) w; w2 = change_user user (Revoke p) w1 in
    \<exists>u1 \<in> set (users (w_db w1)). \<exists>u2 \<in> set (users (w_db w2)).
      u_id u1 = u_id user \<and> u_id u2 = u_id user \<and> u_perm_version u2 = u_perm_version u1 \<and>
      bit (effective_permission_mask (load_user (w_db w1) u1)) k \<and>
      \<not> bit (effective_permission_mask (load_user (w_db w2) u2)) k \<and>
      (\<forall>b. in_step b \<and> mirror b = w_redis w2 \<longrightarrow> \<not> is_stale (drained b) (u_id u1) (u_perm_version u1))"
proof -
  let ?d = "w_db w" and ?uid = "u_id user" and ?v = "u_perm_version user + 1"
  let ?w1 = "change_user user (Grant q) w" let ?w2 = "change_user user (Revoke p) ?w1"
  note c = inv_constraints [OF assms(1)]
  from assms(3) obtain x where x: "x \<in> set (users ?d)" "user = load_user ?d x" by blast
  have pd: "p \<in> set (permissions ?d)" "(?uid, p_id p) \<in> set (user_permissions ?d)"
    using p(1) x by (simp_all add: set_user_perm_rows)
  have qn: "(?uid, p_id q) \<notin> set (user_permissions ?d)" using q x by (simp add: set_user_perm_rows)
  then have w1: "?w1 = commit (write_user ?uid (\<lambda>u. u\<lparr>u_perm_version := ?v\<rparr>)
      (?d\<lparr>user_permissions := user_permissions ?d @ [(?uid, p_id q)]\<rparr>)) [PermVersion (uuid_str ?uid) ?v] w"
    using x q(1) by (intro grant_writes) auto
  have "(?uid, p_id p) \<in> set (user_permissions (w_db ?w1))" using pd(2) by (simp add: w1 write_user_def del: change_user.simps)
  then have w2: "?w2 = commit (write_user ?uid (\<lambda>u. u\<lparr>u_perm_version := ?v\<rparr>)
      ((w_db ?w1)\<lparr>user_permissions := delete_link (?uid, p_id p) (user_permissions (w_db ?w1))\<rparr>))
      [PermVersion (uuid_str ?uid) ?v] ?w1"
    using p(1) by (intro revoke_writes) auto
  let ?u = "x\<lparr>u_perm_version := ?v\<rparr>"
  have uid: "u_id x = ?uid" using x(2) by simp
  have u1: "?u \<in> set (users (w_db ?w1))"
    unfolding w1 using written_user [of x _ ?uid] x(1) uid by fastforce
  then have "?u \<in> set (users ((w_db ?w1)\<lparr>user_permissions := delete_link (?uid, p_id p) (user_permissions (w_db ?w1))\<rparr>))"
    by simp
  from written_user [OF this, of ?uid "\<lambda>u. u\<lparr>u_perm_version := ?v\<rparr>"] uid
  have "?u \<in> set (users (w_db ?w2))" unfolding w2 commit_simps by simp
  note u = u1 this
  have other: "registry_bit (p_name y) \<noteq> Some k" if "y \<in> set (permissions ?d)" "p_id y \<noteq> p_id p" for y
    using that permission_name_unique [OF c that(1) pd(1)] registry_bit_inj [OF p(2)] by metis
  have roles: "\<not> bit (r_permission_mask r) k" if "r \<in> set (roles ?d)" "(?uid, r_id r) \<in> set (user_roles ?d)" for r
    using only x that by (auto simp: set_user_role_rows)
  have "holds_bit (w_db ?w1) ?uid k"
    using pd p(2) by (auto simp: w1 holds_bit_def simp del: change_user.simps)
  moreover have "\<not> holds_bit (w_db ?w2) ?uid k"
    unfolding w2 unfolding w1 using roles other by (auto simp: holds_bit_def write_user_def)
  moreover have "perm_version (authority (w_redis ?w2)) ?uid = Some ?v"
    using assms(2) by (subst w2) (simp add: w1 perm_version_publish [where x = ?v] del: change_user.simps)
  ultimately have "u_perm_version ?u = u_perm_version ?u \<and> bit (effective_permission_mask (load_user (w_db ?w1) ?u)) k \<and>
      \<not> bit (effective_permission_mask (load_user (w_db ?w2) ?u)) k \<and>
      (\<forall>b. in_step b \<and> mirror b = w_redis ?w2 \<longrightarrow> \<not> is_stale (drained b) (u_id ?u) (u_perm_version ?u))"
    using x by (simp add: bit_loaded_mask is_stale_def in_step_def del: change_user.simps)
  with u uid show ?thesis unfolding Let_def
    by (intro bexI [of _ ?u]) (simp_all del: change_user.simps)
qed

lemma overlapping_revocation_unnoticed_witness:
  "\<exists>u1 u2. let bob = load_user sample_db bob_row;
      w1 = change_user bob (Grant \<lparr>p_id = 3, p_name = ''role:read.id'', p_bit_position = Some 2\<rparr>) sample_world;
      w2 = change_user bob (Revoke \<lparr>p_id = 8, p_name = ''permission:read'', p_bit_position = Some 7\<rparr>) w1 in
    u_perm_version u2 = u_perm_version u1 \<and> bit (effective_permission_mask (load_user (w_db w1) u1)) 7 \<and>
    \<not> bit (effective_permission_mask (load_user (w_db w2) u2)) 7"
proof -
  let ?bob = "load_user sample_db bob_row"
  have "loaded_user (w_db sample_world) ?bob" by (simp add: sample_world_def sample_db_def)
  moreover have "\<lparr>p_id = 8, p_name = ''permission:read'', p_bit_position = Some 7\<rparr> \<in> set (direct_permissions ?bob)"
    by (simp add: set_user_perm_rows sample_db_def catalog_rows_value sample_rows)
  moreover have "registry_bit ''permission:read'' = Some 7" by code_simp
  moreover have "\<forall>r \<in> set (roles_of ?bob). \<not> bit (r_permission_mask r) 7"
    by (simp add: user_role_rows_def sample_db_def sample_rows bit_iff_odd)
  moreover have "\<lparr>p_id = 3, p_name = ''role:read.id'', p_bit_position = Some 2\<rparr> \<in> set (permissions (w_db sample_world))"
    "\<lparr>p_id = 3, p_name = ''role:read.id'', p_bit_position = Some 2\<rparr> \<notin> set (direct_permissions ?bob)"
    by (simp_all add: set_user_perm_rows sample_world_def sample_db_def catalog_rows_value sample_rows)
  moreover have "reachable (w_redis sample_world)" by (simp add: sample_world_def empty_redis_def)
  ultimately show ?thesis
    using overlapping_revocation_unnoticed [OF world_inv_sample, of ?bob
        "\<lparr>p_id = 8, p_name = ''permission:read'', p_bit_position = Some 7\<rparr>" 7
        "\<lparr>p_id = 3, p_name = ''role:read.id'', p_bit_position = Some 2\<rparr>"]
    unfolding Let_def by (auto simp del: change_user.simps)
qed

text \<open>
  Two changes of one role: the request that adds a permission writes the mask it has loaded with the
  new bit in it, and so brings back the bit the other request has removed. The row is gone, the
  bit is not: every holder of the role is minted tokens with the removed permission.
\<close>

lemma overlapping_add_restores_removed_bit:
  assumes inv: "world_inv w" and role: "loaded_role (w_db w) role"
    and p: "p \<in> set (permissions_of role)" "p_bit_position p = Some k"
    and q: "q \<in> set (permissions (w_db w))" "q \<notin> set (permissions_of role)" "p_bit_position q = Some l"
  defines "w2 \<equiv> change_role role (Add_permission q) (change_role role (Remove_permission p) w)"
  shows "(r_id role, p_id p) \<notin> set (role_permissions (w_db w2))" "\<not> masks_cached (w_db w2)"
    and "u \<in> set (users (w_db w2)) \<Longrightarrow> (u_id u, r_id role) \<in> set (user_roles (w_db w2)) \<Longrightarrow>
      bit (effective_permission_mask (load_user (w_db w2) u)) k"
proof -
  let ?d = "w_db w" and ?rid = "r_id role"
  let ?rows = "delete_link (?rid, p_id p) (role_permissions ?d)"
  let ?m = "r_permission_mask role OR bit1 l"
  note c = inv_constraints [OF inv] and db = world_inv_db [OF inv]
  from role obtain r where r: "r \<in> set (roles ?d)" "role = load_role ?d r" by blast
  have pd: "p \<in> set (permissions ?d)" "(?rid, p_id p) \<in> set (role_permissions ?d)"
    and qn: "(?rid, p_id q) \<notin> set (role_permissions ?d)"
    using p(1) q(1,2) r(2) by (simp_all add: set_role_perm_rows)
  have k: "bit (r_permission_mask role) k"
    using pd p(2) loaded_role_mask [OF db role] by (auto simp: bit_row_mask)
  have l: "\<not> bit (r_permission_mask role) l"
    using qn bit_unique [OF c _ q(1) _ q(3)] loaded_role_mask [OF db role] by (auto simp: bit_row_mask)
  then have changed: "?m \<noteq> r_permission_mask role" by (metis bit_or_iff bit_bit1)
  let ?w1 = "change_role role (Remove_permission p) w"
  have w1: "w_db ?w1 = fst (bump_perm_version_for_role_holders ?rid (set_role_rows ?rid
      (r_permission_mask role AND NOT (bit1 k)) ?rows (grantable_permissions ?d) ?d))"
    using pd(2) p(2) by (simp add: remove_permission_eq [OF inv role pd(1)] Let_def)
  have ids: "map r_id (roles (w_db ?w1)) = map r_id (roles ?d)" "permissions (w_db ?w1) = permissions ?d"
    "role_permissions (w_db ?w1) = ?rows"
    by (simp_all add: w1 bump_holders bump_where_db set_role_rows_def map_update_where del: change_role.simps)
  have "valid_mask ?m"
    using valid_of_rows [OF db_inv_synced [OF db] bit_mask_add [OF db q(1) role]] q(3) by simp
  then have "store_mask ?m = Inr ?m" by (rule store_mask_valid)
  moreover have "insert_link (?rid, p_id q) (map r_id (roles (w_db ?w1))) (map p_id (permissions (w_db ?w1)))
      (role_permissions (w_db ?w1)) = Some (?rows @ [(?rid, p_id q)])"
    using r q(1) qn unfolding ids by (auto simp: insert_link_def)
  ultimately have w2: "w_db w2 = fst (bump_perm_version_for_role_holders ?rid
      ((w_db ?w1)\<lparr>role_permissions := ?rows @ [(?rid, p_id q)],
        roles := update_where (\<lambda>x. r_id x = ?rid) (\<lambda>x. x\<lparr>r_permission_mask := ?m\<rparr>) (roles (w_db ?w1))\<rparr>))"
    using changed q(3) unfolding w2_def change_role.simps(1)
    by (simp add: add_permission_def Let_def case_prod_beta write_role_mask_def)
  have "p_id p \<noteq> p_id q" using pd(2) qn by auto
  then show gone: "(?rid, p_id p) \<notin> set (role_permissions (w_db w2))"
    unfolding w2 by (simp add: bump_holders bump_where_db)
  obtain r' where r': "r' \<in> set (roles (w_db w2))" "r_id r' = ?rid" "r_permission_mask r' = ?m"
  proof -
    have "?rid \<in> set (map r_id (roles (w_db ?w1)))" unfolding ids(1) using r by simp
    then obtain x where "x \<in> set (roles (w_db ?w1))" "r_id x = ?rid"
      by (auto simp del: change_role.simps)
    then show ?thesis
      by (intro that [of "x\<lparr>r_permission_mask := ?m\<rparr>"]) (auto simp: w2 bump_holders bump_where_db set_update_where)
  qed
  then have bit: "bit (r_permission_mask r') k" using k by (simp add: bit_or_iff)
  have "permissions (w_db w2) = permissions ?d" unfolding w2 by (simp add: bump_holders bump_where_db ids del: change_role.simps)
  then have "\<not> bit (row_mask (w_db w2) ?rid) k"
    using gone bit_unique [OF c _ pd(1) _ p(2)] by (auto simp: bit_row_mask)
  with bit r'(1,2) show "\<not> masks_cached (w_db w2)" unfolding masks_cached_def by metis
  assume "u \<in> set (users (w_db w2))" "(u_id u, ?rid) \<in> set (user_roles (w_db w2))"
  with bit r'(1,2) show "bit (effective_permission_mask (load_user (w_db w2) u)) k"
    unfolding bit_loaded_mask holds_bit_def by metis
qed

subsection \<open>Two refreshes with one token\<close>

text \<open>\<open>Refresh.refresh\<close> from the row it has looked up on.\<close>

definition refresh_from :: "jwt_lib \<Rightarrow> config \<Rightarrow> int \<Rightarrow> uuid \<Rightarrow> refresh_token \<Rightarrow> token_response action" where
  "refresh_from J C now jti db_token =
     (if k_is_revoked db_token then
        and_then (delete_all_for_user (k_user_id db_token))
          (\<lambda>_. lift (Inl (HTTPException 403
             ''Security breach detected. All sessions invalidated. Please login again.'')))
      else if k_expires_at db_token < now then
        and_then (token_delete_instance db_token)
          (\<lambda>_. lift (Inl (HTTPException 401 ''Refresh token expired'')))
      else
        and_then (token_revoke db_token) (\<lambda>_ w.
          let user_id = k_user_id db_token in
          case get_user_with_grants user_id (w_db w) of
            None \<Rightarrow> (Inl (UserNotFound (IdUuid user_id)), w)
          | Some user \<Rightarrow>
            and_then (lift (mint_access_token J C now ''password'' user (w_db w))) (\<lambda>access.
            let new_token = create_refresh_token J C now user_id jti (days 7) in
            and_then (token_create new_token user_id (now + days (REFRESH_TOKEN_EXPIRE C))) (\<lambda>_.
              lift (Inr \<lparr>access_token = access, refresh_token = new_token, token_type = ''bearer''\<rparr>))) w))"

lemma refresh_in_two_steps:
  "refresh J C now jti token w = (case get_by_token token (w_db w) of
     None \<Rightarrow> (Inl (HTTPException 401 ''Invalid refresh token''), w)
   | Some db_token \<Rightarrow> refresh_from J C now jti db_token w)"
  by (simp add: refresh_def refresh_from_def split: option.split)

lemma refresh_from_Inr:
  assumes "refresh_from J C now jti k w = (Inr r, w')"
  shows "\<not> k_is_revoked k \<and> (\<exists>w1 row. token_revoke k w = (Inr (), w1) \<and>
    token_create (refresh_token r) (k_user_id k) (now + days (REFRESH_TOKEN_EXPIRE C)) w1 = (Inr row, w'))"
  using assms by (auto simp: refresh_from_def Let_def and_then_Inr split: option.splits if_splits)

text \<open>
  Two requests look the same token up before either has revoked it: both succeed, and the user has
  two sessions that go on, although the token was presented twice.
\<close>

lemma overlapping_refreshes_both_succeed:
  assumes k: "get_by_token token (w_db w) = Some k"
    and one: "refresh_from J C now jti k w = (Inr r, w1)" and two: "refresh_from J C now' jti' k w1 = (Inr r', w2)"
  shows "refresh_token r \<noteq> refresh_token r' \<and>
    (\<forall>t \<in> {refresh_token r, refresh_token r'}. \<exists>row. get_by_token t (w_db w2) = Some row \<and>
      \<not> k_is_revoked row \<and> k_user_id row = k_user_id k)"
proof -
  note token = sessions.lookup_token [OF k]
  from refresh_from_Inr [OF one] obtain v1 row where v1: "token_revoke k w = (Inr (), v1)"
    "token_create (refresh_token r) (k_user_id k) (now + days (REFRESH_TOKEN_EXPIRE C)) v1 = (Inr row, w1)" by blast
  from refresh_from_Inr [OF two] obtain v2 row' where v2: "token_revoke k w1 = (Inr (), v2)"
    "token_create (refresh_token r') (k_user_id k) (now' + days (REFRESH_TOKEN_EXPIRE C)) v2 = (Inr row', w2)" by blast
  from token_create_Inr [OF v1(2)] v1(1) have w1: "w_db w1 = store_token row (revoke_token token (w_db w))"
    and row: "k_token row = refresh_token r" "\<not> k_is_revoked row" "k_user_id row = k_user_id k"
    and fresh: "get_by_token (refresh_token r) (revoke_token token (w_db w)) = None"
    by (auto simp: token_calls token fresh_token)
  from token_create_Inr [OF v2(2)] v2(1) have w2: "w_db w2 = store_token row' (revoke_token token (w_db w1))"
    and row': "k_token row' = refresh_token r'" "\<not> k_is_revoked row'" "k_user_id row' = k_user_id k"
    and fresh': "get_by_token (refresh_token r') (revoke_token token (w_db w1)) = None"
    by (auto simp: token_calls token fresh_token)
  have other: "refresh_token r \<noteq> token" using fresh k by (auto simp: sessions.lookup_revoke)
  have r: "get_by_token (refresh_token r) (w_db w1) = Some row"
    using fresh row by (simp add: w1 sessions.lookup_store)
  then have "get_by_token (refresh_token r) (w_db w2) = Some row"
    using other row by (simp add: w2 sessions.lookup_store sessions.lookup_revoke)
  moreover have "refresh_token r \<noteq> refresh_token r'"
    using r fresh' by (auto simp: sessions.lookup_revoke)
  moreover have "get_by_token (refresh_token r') (w_db w2) = Some row'"
    using fresh' row' by (simp add: w2 sessions.lookup_store)
  ultimately show ?thesis using row row' by simp
qed

end
