(* ===== verification/Ddl.thy ===== *)
theory Ddl
  imports PyValues
begin

text \<open>
  The statements a migration script is made of, and databases as such a script sees them: tables
  with their columns, constraints, indexes and rows. What a statement does is the business of
  alembic and PostgreSQL: \<open>effect\<close> is what their documentation says of the statements used,
  and \<open>conforms\<close> is all that is assumed of the engine that runs them.
\<close>

subsection \<open>Tables\<close>

datatype sql_type = SQL_Integer | SQL_String | SQL_UUID | SQL_Boolean | SQL_DateTime | SQL_Binary nat

datatype sql_value = Null | Int_value int | Str_value string | Uuid_value uuid | Bool_value bool
  | Time_value int | Bytes_value "byte list"

record column =
  c_name :: string
  c_type :: sql_type
  c_nullable :: bool
  c_default :: "sql_value option"

datatype on_delete = No_action | On_cascade | On_set_null | On_restrict

record foreign_key =
  f_name :: "string option"
  f_columns :: "string list"
  f_table :: string
  f_targets :: "string list"
  f_on_delete :: on_delete

text \<open>A partial index covers the rows in which one column is NULL.\<close>

record index =
  i_name :: string
  i_columns :: "string list"
  i_unique :: bool
  i_where_null :: "string option"

type_synonym row = "(string \<times> sql_value) list"

record table =
  tb_columns :: "column list"
  tb_key :: "string list"
  tb_foreign :: "foreign_key list"
  tb_unique :: "(string \<times> string list) list"
  tb_indexes :: "index list"
  tb_rows :: "row list"

type_synonym tables = "(string \<times> table) list"

fun of_type :: "sql_type \<Rightarrow> sql_value \<Rightarrow> bool" where
  "of_type SQL_Integer (Int_value i) = True"
| "of_type SQL_String (Str_value s) = True"
| "of_type SQL_UUID (Uuid_value u) = True"
| "of_type SQL_Boolean (Bool_value b) = True"
| "of_type SQL_DateTime (Time_value t) = True"
| "of_type (SQL_Binary n) (Bytes_value bs) = True"
| "of_type ty v = False"

definition fits_column :: "column \<Rightarrow> sql_value \<Rightarrow> bool" where
  "fits_column c v \<longleftrightarrow> (if v = Null then c_nullable c else of_type (c_type c) v)"

definition cell :: "row \<Rightarrow> string \<Rightarrow> sql_value" where
  "cell r c = (case map_of r c of Some v \<Rightarrow> v | None \<Rightarrow> Null)"

definition column_names :: "table \<Rightarrow> string list" where
  "column_names T = map c_name (tb_columns T)"

text \<open>What is unique: rows with a NULL among the columns are all different from one another.\<close>

definition unique_on :: "string list \<Rightarrow> row list \<Rightarrow> bool" where
  "unique_on cs rows \<longleftrightarrow> distinct (filter (\<lambda>vs. Null \<notin> set vs) (map (\<lambda>r. map (cell r) cs) rows))"

definition indexed_rows :: "index \<Rightarrow> row list \<Rightarrow> row list" where
  "indexed_rows i rows = (case i_where_null i of None \<Rightarrow> rows | Some c \<Rightarrow> filter (\<lambda>r. cell r c = Null) rows)"

subsection \<open>Statements\<close>

datatype constraint_kind = Unique_kind | Foreign_key_kind

datatype ddl =
    Create_table string "column list" "string list" "foreign_key list"
  | Drop_table string
  | Add_column string column
  | Drop_column string string
  | Create_index string index
  | Drop_index string string
  | Create_unique_constraint string string "string list"
  | Create_foreign_key string foreign_key
  | Drop_constraint string string constraint_kind

definition tbl :: "tables \<Rightarrow> string \<Rightarrow> table option" where
  "tbl s t = map_of s t"

definition upd :: "string \<Rightarrow> (table \<Rightarrow> table) \<Rightarrow> tables \<Rightarrow> tables" where
  "upd t f s = map (\<lambda>(n, T). if n = t then (n, f T) else (n, T)) s"

definition rows_of :: "tables \<Rightarrow> string \<Rightarrow> row list" where
  "rows_of s t = (case tbl s t of None \<Rightarrow> [] | Some T \<Rightarrow> tb_rows T)"

text \<open>What a constraint or an index of a table is about.\<close>

definition index_columns :: "index \<Rightarrow> string list" where
  "index_columns i = i_columns i @ (case i_where_null i of None \<Rightarrow> [] | Some c \<Rightarrow> [c])"

definition constrained :: "table \<Rightarrow> string list" where
  "constrained T = tb_key T @ concat (map f_columns (tb_foreign T)) @ concat (map snd (tb_unique T)) @
     concat (map index_columns (tb_indexes T))"

definition refers_to :: "tables \<Rightarrow> foreign_key \<Rightarrow> bool" where
  "refers_to s f \<longleftrightarrow> (case tbl s (f_table f) of None \<Rightarrow> False
     | Some T \<Rightarrow> set (f_targets f) \<subseteq> set (column_names T))"

text \<open>The conditions of a statement on the schema, on the rows, and what it changes.\<close>

fun applicable :: "ddl \<Rightarrow> tables \<Rightarrow> bool" where
  "applicable (Create_table t cs key fs) s \<longleftrightarrow> tbl s t = None \<and> distinct (map c_name cs) \<and>
     set key \<subseteq> set (map c_name cs) \<and>
     list_all (\<lambda>f. refers_to s f \<and> set (f_columns f) \<subseteq> set (map c_name cs)) fs"
| "applicable (Drop_table t) s \<longleftrightarrow> tbl s t \<noteq> None \<and>
     list_all (\<lambda>(n, T). n = t \<or> list_all (\<lambda>f. f_table f \<noteq> t) (tb_foreign T)) s"
| "applicable (Add_column t c) s \<longleftrightarrow> (case tbl s t of None \<Rightarrow> False | Some T \<Rightarrow> c_name c \<notin> set (column_names T) \<and>
     (case c_default c of None \<Rightarrow> True | Some v \<Rightarrow> of_type (c_type c) v))"
| "applicable (Drop_column t c) s \<longleftrightarrow> (case tbl s t of None \<Rightarrow> False | Some T \<Rightarrow>
     c \<in> set (column_names T) \<and> c \<notin> set (constrained T)) \<and>
     list_all (\<lambda>(n, T). list_all (\<lambda>f. f_table f = t \<longrightarrow> c \<notin> set (f_targets f)) (tb_foreign T)) s"
| "applicable (Create_index t i) s \<longleftrightarrow> (case tbl s t of None \<Rightarrow> False | Some T \<Rightarrow>
     i_name i \<notin> i_name ` set (tb_indexes T) \<and> set (index_columns i) \<subseteq> set (column_names T))"
| "applicable (Drop_index t n) s \<longleftrightarrow> (case tbl s t of None \<Rightarrow> False | Some T \<Rightarrow> n \<in> i_name ` set (tb_indexes T))"
| "applicable (Create_unique_constraint t n cs) s \<longleftrightarrow> (case tbl s t of None \<Rightarrow> False | Some T \<Rightarrow>
     n \<notin> fst ` set (tb_unique T) \<and> set cs \<subseteq> set (column_names T))"
| "applicable (Create_foreign_key t f) s \<longleftrightarrow> (case tbl s t of None \<Rightarrow> False | Some T \<Rightarrow>
     f_name f \<notin> f_name ` set (tb_foreign T) \<and> set (f_columns f) \<subseteq> set (column_names T)) \<and> refers_to s f"
| "applicable (Drop_constraint t n k) s \<longleftrightarrow> (case tbl s t of None \<Rightarrow> False | Some T \<Rightarrow>
     (case k of Unique_kind \<Rightarrow> n \<in> fst ` set (tb_unique T)
      | Foreign_key_kind \<Rightarrow> Some n \<in> f_name ` set (tb_foreign T)))"

fun rows_ok :: "ddl \<Rightarrow> tables \<Rightarrow> bool" where
  "rows_ok (Add_column t c) s \<longleftrightarrow> c_nullable c \<or> c_default c \<noteq> None \<or> rows_of s t = []"
| "rows_ok (Create_index t i) s \<longleftrightarrow> (i_unique i \<longrightarrow> unique_on (i_columns i) (indexed_rows i (rows_of s t)))"
| "rows_ok (Create_unique_constraint t n cs) s \<longleftrightarrow> unique_on cs (rows_of s t)"
| "rows_ok (Create_foreign_key t f) s \<longleftrightarrow> list_all (\<lambda>r. Null \<in> set (map (cell r) (f_columns f)) \<or>
     map (cell r) (f_columns f) \<in> set (map (\<lambda>r'. map (cell r') (f_targets f)) (rows_of s (f_table f)))) (rows_of s t)"
| "rows_ok _ s \<longleftrightarrow> True"

definition added_value :: "column \<Rightarrow> sql_value" where
  "added_value c = (case c_default c of None \<Rightarrow> Null | Some v \<Rightarrow> v)"

fun change :: "ddl \<Rightarrow> tables \<Rightarrow> tables" where
  "change (Create_table t cs key fs) s =
     s @ [(t, \<lparr>tb_columns = cs, tb_key = key, tb_foreign = fs, tb_unique = [], tb_indexes = [], tb_rows = []\<rparr>)]"
| "change (Drop_table t) s = filter (\<lambda>(n, T). n \<noteq> t) s"
| "change (Add_column t c) s = upd t (\<lambda>T. T\<lparr>tb_columns := tb_columns T @ [c],
     tb_rows := map (\<lambda>r. r @ [(c_name c, added_value c)]) (tb_rows T)\<rparr>) s"
| "change (Drop_column t c) s = upd t (\<lambda>T. T\<lparr>tb_columns := filter (\<lambda>k. c_name k \<noteq> c) (tb_columns T),
     tb_rows := map (filter (\<lambda>kv. fst kv \<noteq> c)) (tb_rows T)\<rparr>) s"
| "change (Create_index t i) s = upd t (\<lambda>T. T\<lparr>tb_indexes := tb_indexes T @ [i]\<rparr>) s"
| "change (Drop_index t n) s = upd t (\<lambda>T. T\<lparr>tb_indexes := filter (\<lambda>i. i_name i \<noteq> n) (tb_indexes T)\<rparr>) s"
| "change (Create_unique_constraint t n cs) s = upd t (\<lambda>T. T\<lparr>tb_unique := tb_unique T @ [(n, cs)]\<rparr>) s"
| "change (Create_foreign_key t f) s = upd t (\<lambda>T. T\<lparr>tb_foreign := tb_foreign T @ [f]\<rparr>) s"
| "change (Drop_constraint t n k) s = upd t (\<lambda>T. case k of
     Unique_kind \<Rightarrow> T\<lparr>tb_unique := filter (\<lambda>u. fst u \<noteq> n) (tb_unique T)\<rparr>
   | Foreign_key_kind \<Rightarrow> T\<lparr>tb_foreign := filter (\<lambda>f. f_name f \<noteq> Some n) (tb_foreign T)\<rparr>) s"

definition effect :: "ddl \<Rightarrow> tables \<Rightarrow> tables option" where
  "effect st s = (if applicable st s \<and> rows_ok st s then Some (change st s) else None)"

fun run_script :: "(ddl \<Rightarrow> tables \<Rightarrow> tables option) \<Rightarrow> ddl list \<Rightarrow> tables \<Rightarrow> tables option" where
  "run_script engine [] s = Some s"
| "run_script engine (st # sts) s = Option.bind (engine st s) (run_script engine sts)"

text \<open>
  An engine conforms when a statement whose conditions hold does what it is documented to do, and
  when a unique index over rows that are not unique is refused.
\<close>

definition conforms :: "(ddl \<Rightarrow> tables \<Rightarrow> tables option) \<Rightarrow> bool" where
  "conforms engine \<longleftrightarrow> (\<forall>st s. (\<forall>s'. effect st s = Some s' \<longrightarrow> engine st s = Some s') \<and>
     (\<forall>t i. st = Create_index t i \<and> \<not> rows_ok st s \<longrightarrow> engine st s = None))"

lemma conforms_run: "conforms engine \<Longrightarrow> run_script effect sts s = Some s' \<Longrightarrow> run_script engine sts s = Some s'"
  by (induction sts arbitrary: s) (auto simp: conforms_def bind_eq_Some_conv)

lemma conforms_effect: "conforms effect"
  by (auto simp: conforms_def effect_def)

lemma run_script_append: "run_script engine (xs @ ys) s = Option.bind (run_script engine xs s) (run_script engine ys)"
  by (induction xs arbitrary: s) (auto split: bind_splits)

subsection \<open>Schemas\<close>

text \<open>A schema is a database without its rows.\<close>

definition shape :: "tables \<Rightarrow> tables" where
  "shape s = map (\<lambda>(n, T). (n, T\<lparr>tb_rows := []\<rparr>)) s"

lemma tbl_upd [simp]: "tbl (upd t f s) t' = (if t' = t then map_option f (tbl s t') else tbl s t')"
  by (induction s) (auto simp: upd_def tbl_def)

lemma tbl_shape [simp]: "tbl (shape s) t = map_option (\<lambda>T. T\<lparr>tb_rows := []\<rparr>) (tbl s t)"
  by (induction s) (auto simp: shape_def tbl_def)

lemma constrained_rows [simp]: "constrained (T\<lparr>tb_rows := rs\<rparr>) = constrained T"
  "column_names (T\<lparr>tb_rows := rs\<rparr>) = column_names T"
  by (simp_all add: constrained_def column_names_def)

lemma refers_to_shape [simp]: "refers_to (shape s) = refers_to s"
  by (rule ext) (simp add: refers_to_def split: option.split)

lemma list_all_shape [simp]: "list_all P (shape s) = list_all (\<lambda>(n, T). P (n, T\<lparr>tb_rows := []\<rparr>)) s"
  by (auto simp: shape_def list_all_iff)

lemma fits_shape [simp]: "applicable st (shape s) = applicable st s"
  by (cases st) (auto split: option.splits constraint_kind.splits)

lemma shape_shape [simp]: "shape (shape s) = shape s"
  by (induction s) (auto simp: shape_def)

lemma shape_upd: "shape (upd t f s) = upd t g (shape s) \<longleftrightarrow>
    list_all (\<lambda>(n, T). n = t \<longrightarrow> (f T)\<lparr>tb_rows := []\<rparr> = g (T\<lparr>tb_rows := []\<rparr>)) s"
  by (induction s) (auto simp: shape_def upd_def)

lemma change_shape: "shape (change st s) = change st (shape s)"
proof (cases st)
  case (Drop_table t)
  then show ?thesis by (induction s) (auto simp: shape_def)
next
  case (Create_table t cs key fs)
  then show ?thesis by (simp add: shape_def)
qed (simp_all only: change.simps shape_upd, auto simp: list_all_iff split: constraint_kind.split)

lemma rows_of_Nil_ok: "(\<And>t. rows_of s t = []) \<Longrightarrow> rows_ok st s"
  by (cases st) (auto simp: unique_on_def indexed_rows_def split: option.split)

lemma rows_of_shape [simp]: "rows_of (shape s) t = []"
  by (simp add: rows_of_def split: option.split)

lemma effect_shape: "effect st (shape s) = (if applicable st s then Some (shape (change st s)) else None)"
  by (simp add: effect_def rows_of_Nil_ok change_shape)

text \<open>A script runs when it runs on the schema and the rows meet the conditions on the way.\<close>

fun allows :: "ddl list \<Rightarrow> tables \<Rightarrow> bool" where
  "allows [] s \<longleftrightarrow> True"
| "allows (st # sts) s \<longleftrightarrow> rows_ok st s \<and> allows sts (change st s)"

lemma run_from_shape:
  "run_script effect sts (shape s) = Some sh \<Longrightarrow> allows sts s \<Longrightarrow>
     run_script effect sts s = Some (fold change sts s) \<and> shape (fold change sts s) = sh"
proof (induction sts arbitrary: s)
  case (Cons st sts)
  from Cons.prems have "applicable st s" by (auto simp: effect_shape split: if_splits)
  with Cons have "effect st s = Some (change st s)" by (simp add: effect_def)
  with \<open>applicable st s\<close> Cons show ?case by (simp add: effect_shape)
qed simp

lemma effect_Some: "effect st s = Some s' \<longleftrightarrow> applicable st s \<and> rows_ok st s \<and> s' = change st s"
  by (auto simp: effect_def)

lemma run_shape: "run_script effect sts s = Some s' \<Longrightarrow> run_script effect sts (shape s) = Some (shape s')"
  by (induction sts arbitrary: s) (auto simp: effect_shape effect_Some bind_eq_Some_conv)

text \<open>The rows on the way.\<close>

lemma rows_of_upd: "rows_of (upd t f s) t' =
    (if t' = t then (case tbl s t of None \<Rightarrow> [] | Some T \<Rightarrow> tb_rows (f T)) else rows_of s t')"
  by (simp add: rows_of_def split: option.split)

lemma tbl_append: "tbl (s @ s') t = (case tbl s t of None \<Rightarrow> tbl s' t | Some T \<Rightarrow> Some T)"
  by (auto simp: tbl_def map_add_def split: option.split)

lemma rows_of_change [simp]:
  "rows_of (change (Create_table t cs key fs) s) t' = rows_of s t'"
  "rows_of (change (Add_column t c) s) t' =
     (if t' = t then map (\<lambda>r. r @ [(c_name c, added_value c)]) (rows_of s t') else rows_of s t')"
  "rows_of (change (Drop_column t n) s) t' =
     (if t' = t then map (filter (\<lambda>kv. fst kv \<noteq> n)) (rows_of s t') else rows_of s t')"
  "rows_of (change (Create_index t i) s) t' = rows_of s t'"
  "rows_of (change (Drop_index t n) s) t' = rows_of s t'"
  "rows_of (change (Create_unique_constraint t n ns) s) t' = rows_of s t'"
  "rows_of (change (Create_foreign_key t f) s) t' = rows_of s t'"
  "rows_of (change (Drop_constraint t n k) s) t' = rows_of s t'"
  by (auto simp: rows_of_upd rows_of_def tbl_append split: option.split constraint_kind.split)
    (auto simp: tbl_def split: if_splits)

subsection \<open>Consistent databases\<close>

text \<open>
  The schema names each table and column once and its constraints speak of existing columns. The
  rows have the columns of their table, with values of their types and NULL only where it may be,
  and no key, unique constraint or unique index is violated.
\<close>

definition schema_ok :: "tables \<Rightarrow> bool" where
  "schema_ok s \<longleftrightarrow> distinct (map fst s) \<and> list_all (\<lambda>(n, T). distinct (column_names T) \<and>
     set (constrained T) \<subseteq> set (column_names T) \<and> list_all (refers_to s) (tb_foreign T)) s"

definition typed_row :: "column list \<Rightarrow> row \<Rightarrow> bool" where
  "typed_row cs r \<longleftrightarrow> list_all2 (\<lambda>c kv. fst kv = c_name c \<and> fits_column c (snd kv)) cs r"

definition unique_sets :: "table \<Rightarrow> (string list \<times> string option) list" where
  "unique_sets T = (tb_key T, None) # map (\<lambda>u. (snd u, None)) (tb_unique T) @
     map (\<lambda>i. (i_columns i, i_where_null i)) (filter i_unique (tb_indexes T))"

definition selected :: "string option \<Rightarrow> row list \<Rightarrow> row list" where
  "selected w rows = (case w of None \<Rightarrow> rows | Some c \<Rightarrow> filter (\<lambda>r. cell r c = Null) rows)"

definition consistent_table :: "table \<Rightarrow> bool" where
  "consistent_table T \<longleftrightarrow> list_all (typed_row (tb_columns T)) (tb_rows T) \<and>
     list_all (\<lambda>(cs, w). unique_on cs (selected w (tb_rows T))) (unique_sets T)"

definition consistent :: "tables \<Rightarrow> bool" where
  "consistent s \<longleftrightarrow> list_all (\<lambda>(n, T). consistent_table T) s"

lemma indexed_rows_selected: "indexed_rows i rows = selected (i_where_null i) rows"
  by (simp add: indexed_rows_def selected_def split: option.split)

lemma schema_ok_shape [simp]: "schema_ok (shape s) = schema_ok s"
proof -
  have "map fst (shape s) = map fst s" by (simp add: shape_def comp_def case_prod_beta)
  then show ?thesis by (simp add: schema_ok_def)
qed

lemma unique_on_map:
  assumes "\<And>r c. c \<in> set cs \<Longrightarrow> cell (g r) c = cell r c"
  shows "unique_on cs (map g rows) = unique_on cs rows"
proof -
  have "map (cell (g r)) cs = map (cell r) cs" for r using assms by simp
  then show ?thesis unfolding unique_on_def map_map comp_def by (simp only:)
qed

lemma selected_map:
  "(\<And>r c. w = Some c \<Longrightarrow> cell (g r) c = cell r c) \<Longrightarrow> selected w (map g rows) = map g (selected w rows)"
  by (cases w) (simp_all add: selected_def filter_map comp_def)

lemma cell_append: "c \<noteq> k \<Longrightarrow> cell (r @ [(k, v)]) c = cell r c"
  by (simp add: cell_def map_add_def split: option.split)

lemma cell_new: "k \<notin> fst ` set r \<Longrightarrow> cell (r @ [(k, v)]) k = v"
  by (simp add: cell_def map_add_def map_of_eq_None_iff [THEN iffD2])

lemma cell_filter: "c \<noteq> k \<Longrightarrow> cell (filter (\<lambda>kv. fst kv \<noteq> k) r) c = cell r c"
  unfolding cell_def by (induction r) auto

lemma unique_sets_columns:
  "(cs, w) \<in> set (unique_sets T) \<Longrightarrow> set cs \<union> set_option w \<subseteq> set (constrained T)"
  by (auto simp: unique_sets_def constrained_def index_columns_def split: option.splits)

lemma tbl_member: "distinct (map fst s) \<Longrightarrow> (t, T) \<in> set s \<Longrightarrow> tbl s t = Some T"
  by (simp add: tbl_def)

lemma member_tbl: "tbl s t = Some T \<Longrightarrow> (t, T) \<in> set s"
  by (simp add: tbl_def map_of_SomeD)

lemma consistent_tbl: "consistent s \<Longrightarrow> tbl s t = Some T \<Longrightarrow> consistent_table T"
  by (auto simp: consistent_def list_all_iff dest!: member_tbl)

lemma consistent_upd:
  assumes "consistent s" "schema_ok s" "\<And>T. tbl s t = Some T \<Longrightarrow> consistent_table (f T)"
  shows "consistent (upd t f s)"
proof -
  have "consistent_table (if n = t then f T else T)" if "(n, T) \<in> set s" for n T
    using that assms tbl_member [of s n T] by (auto simp: schema_ok_def consistent_def list_all_iff)
  then show ?thesis unfolding consistent_def upd_def list_all_iff by (force split: if_splits)
qed

lemma schema_tbl:
  "schema_ok s \<Longrightarrow> tbl s t = Some T \<Longrightarrow> distinct (column_names T) \<and> set (constrained T) \<subseteq> set (column_names T) \<and>
     list_all (refers_to s) (tb_foreign T)"
  by (auto simp: schema_ok_def list_all_iff dest!: member_tbl)

lemma typed_row_names: "typed_row cs r \<Longrightarrow> map fst r = map c_name cs"
  unfolding typed_row_def by (induction rule: list_all2_induct) auto

lemma typed_row_filter:
  "typed_row cs r \<Longrightarrow> typed_row (filter (\<lambda>k. c_name k \<noteq> c) cs) (filter (\<lambda>kv. fst kv \<noteq> c) r)"
  unfolding typed_row_def by (induction rule: list_all2_induct) auto

lemma typed_row_append: "typed_row cs r \<Longrightarrow> fits_column c v \<Longrightarrow> typed_row (cs @ [c]) (r @ [(c_name c, v)])"
  by (simp add: typed_row_def list_all2_appendI)

lemma consistent_add_column:
  assumes "consistent_table T" "set (constrained T) \<subseteq> set (column_names T)" "c_name c \<notin> set (column_names T)"
    and "tb_rows T = [] \<or> fits_column c v"
  shows "consistent_table (T\<lparr>tb_columns := tb_columns T @ [c], tb_rows := map (\<lambda>r. r @ [(c_name c, v)]) (tb_rows T)\<rparr>)"
proof -
  let ?g = "\<lambda>r. r @ [(c_name c, v)]"
  have "unique_on cs (selected w (map ?g (tb_rows T)))" if "(cs, w) \<in> set (unique_sets T)" for cs w
  proof -
    have "k \<noteq> c_name c" if "k \<in> set cs \<or> w = Some k" for k
      using that unique_sets_columns [OF \<open>(cs, w) \<in> _\<close>] assms(2,3) by auto
    then show ?thesis using that assms(1)
      by (subst selected_map) (auto simp: unique_on_map cell_append consistent_table_def list_all_iff)
  qed
  with assms(1,4) show ?thesis
    by (auto simp: consistent_table_def list_all_iff unique_sets_def intro: typed_row_append)
qed

lemma consistent_drop_column:
  assumes "consistent_table T" "c \<notin> set (constrained T)"
  shows "consistent_table (T\<lparr>tb_columns := filter (\<lambda>k. c_name k \<noteq> c) (tb_columns T),
     tb_rows := map (filter (\<lambda>kv. fst kv \<noteq> c)) (tb_rows T)\<rparr>)"
proof -
  have "unique_on cs (selected w (map (filter (\<lambda>kv. fst kv \<noteq> c)) (tb_rows T)))"
    if "(cs, w) \<in> set (unique_sets T)" for cs w
  proof -
    have "k \<noteq> c" if "k \<in> set cs \<or> w = Some k" for k
      using that unique_sets_columns [OF \<open>(cs, w) \<in> _\<close>] assms(2) by auto
    then show ?thesis using that assms(1)
      by (subst selected_map) (auto simp: unique_on_map cell_filter consistent_table_def list_all_iff)
  qed
  with assms(1) show ?thesis
    by (auto simp: consistent_table_def list_all_iff unique_sets_def intro: typed_row_filter)
qed

lemma consistent_Nil_rows: "tb_rows T = [] \<Longrightarrow> consistent_table T"
  by (auto simp: consistent_table_def unique_on_def selected_def list_all_iff split: option.split)

lemma consistent_table_sub:
  "consistent_table T \<Longrightarrow> tb_columns T' = tb_columns T \<Longrightarrow> tb_rows T' = tb_rows T \<Longrightarrow>
     (\<And>cs w. (cs, w) \<in> set (unique_sets T') \<Longrightarrow> (cs, w) \<in> set (unique_sets T) \<or> unique_on cs (selected w (tb_rows T)))
     \<Longrightarrow> consistent_table T'"
  by (fastforce simp: consistent_table_def list_all_iff)

lemma fits_added_value:
  "c_nullable c \<or> c_default c \<noteq> None \<Longrightarrow> (case c_default c of None \<Rightarrow> True | Some v \<Rightarrow> of_type (c_type c) v) \<Longrightarrow>
     fits_column c (added_value c)"
  by (cases "c_type c") (auto simp: added_value_def fits_column_def split: option.splits)

text \<open>A statement whose conditions hold keeps a database consistent.\<close>

lemma consistent_change:
  assumes ok: "schema_ok s" "consistent s" and st: "applicable st s" "rows_ok st s"
  shows "consistent (change st s)"
proof (cases st)
  case (Create_table t cs key fs)
  with ok show ?thesis by (simp add: consistent_def consistent_Nil_rows)
next
  case (Drop_table t)
  with ok show ?thesis by (auto simp: consistent_def list_all_iff)
next
  case (Add_column t c)
  with st ok show ?thesis
    by (auto simp: rows_of_def split: option.splits intro!: consistent_upd consistent_add_column fits_added_value
        dest: consistent_tbl schema_tbl)
next
  case (Drop_column t c)
  with st ok show ?thesis
    by (auto split: option.splits intro!: consistent_upd consistent_drop_column dest: consistent_tbl)
next
  case (Create_index t i)
  with st ok show ?thesis
    by (cases "i_unique i") (auto simp: rows_of_def indexed_rows_selected unique_sets_def split: option.splits
        intro!: consistent_upd elim!: consistent_table_sub [OF consistent_tbl])
next
  case (Drop_index t n)
  with st ok show ?thesis
    by (auto simp: unique_sets_def split: option.splits intro!: consistent_upd
        elim!: consistent_table_sub [OF consistent_tbl])
next
  case (Create_unique_constraint t n cs)
  with st ok show ?thesis
    by (auto simp: rows_of_def unique_sets_def selected_def split: option.splits
        intro!: consistent_upd elim!: consistent_table_sub [OF consistent_tbl])
next
  case (Create_foreign_key t f)
  with st ok show ?thesis
    by (auto simp: unique_sets_def split: option.splits intro!: consistent_upd
        elim!: consistent_table_sub [OF consistent_tbl])
next
  case (Drop_constraint t n k)
  with st ok show ?thesis
    by (auto simp: unique_sets_def split: option.splits constraint_kind.splits intro!: consistent_upd
        elim!: consistent_table_sub [OF consistent_tbl])
qed

subsection \<open>Undoing a script\<close>

text \<open>The statement that undoes another one, which for a dropped index depends on what the index was.\<close>

fun undoes :: "ddl \<Rightarrow> ddl \<Rightarrow> tables \<Rightarrow> bool" where
  "undoes (Create_table t cs key fs) st s \<longleftrightarrow> st = Drop_table t"
| "undoes (Add_column t c) st s \<longleftrightarrow> st = Drop_column t (c_name c)"
| "undoes (Create_index t i) st s \<longleftrightarrow> st = Drop_index t (i_name i)"
| "undoes (Create_unique_constraint t n cs) st s \<longleftrightarrow> st = Drop_constraint t n Unique_kind"
| "undoes (Create_foreign_key t f) st s \<longleftrightarrow>
     (case f_name f of None \<Rightarrow> False | Some n \<Rightarrow> st = Drop_constraint t n Foreign_key_kind)"
| "undoes (Drop_index t n) st s \<longleftrightarrow> (case tbl s t of None \<Rightarrow> False | Some T \<Rightarrow>
     (case rev (tb_indexes T) of [] \<Rightarrow> False
      | i # is \<Rightarrow> i_name i = n \<and> n \<notin> i_name ` set is \<and> st = Create_index t i))"
| "undoes _ st s \<longleftrightarrow> False"

lemma undoes_shape [simp]: "undoes st st' (shape s) = undoes st st' s"
  by (cases st) (auto split: option.splits list.splits)

lemma upd_upd [simp]: "upd t g (upd t f s) = upd t (g \<circ> f) s"
  by (auto simp: upd_def)

lemma upd_same: "distinct (map fst s) \<Longrightarrow> (\<And>T. tbl s t = Some T \<Longrightarrow> f T = T) \<Longrightarrow> upd t f s = s"
  unfolding upd_def by (rule map_idI) (force dest: tbl_member)

lemma filter_absent: "x \<notin> f ` set xs \<Longrightarrow> filter (\<lambda>y. f y \<noteq> x) xs = xs"
  by (rule filter_True) auto

lemma filter_absent_fst: "x \<notin> fst ` set xs \<Longrightarrow> filter (\<lambda>y. fst y \<noteq> x) xs = xs"
  by (rule filter_absent)

lemma typed_row_absent: "typed_row cs r \<Longrightarrow> c \<notin> set (map c_name cs) \<Longrightarrow> filter (\<lambda>kv. fst kv \<noteq> c) r = r"
  by (metis filter_absent typed_row_names set_map)

lemma foreign_keys_found:
  assumes "schema_ok s" "(n, T) \<in> set s" "f \<in> set (tb_foreign T)"
  shows "\<exists>T'. tbl s (f_table f) = Some T' \<and> set (f_targets f) \<subseteq> set (column_names T')"
  using assms by (auto simp: schema_ok_def list_all_iff refers_to_def split: option.splits dest!: bspec)

lemma change_undone:
  assumes ok: "schema_ok s" "consistent s" and st: "applicable st s" and un: "undoes st st' s"
  shows "effect st' (change st s) = Some s"
proof -
  have names: "distinct (map fst s)" using ok by (simp add: schema_ok_def)
  show ?thesis
  proof (cases st)
    case (Create_table t cs key fs)
    have "f_table f \<noteq> t" if "f \<in> set fs" for f
      using that st Create_table by (auto simp: list_all_iff refers_to_def split: option.splits)
    moreover have "f_table f \<noteq> t" if "(n, T) \<in> set s" "f \<in> set (tb_foreign T)" for n T f
      using foreign_keys_found [OF ok(1) that] st Create_table by auto
    moreover have "t \<notin> fst ` set s" using st Create_table by (simp add: tbl_def map_of_eq_None_iff)
    moreover from this have "filter (\<lambda>(n, T). n \<noteq> t) s = s" by (intro filter_True) force
    moreover have "tbl (change st s) t \<noteq> None"
      using Create_table by (simp add: tbl_append split: option.split) (simp add: tbl_def)
    ultimately show ?thesis using un Create_table by (auto simp: effect_Some list_all_iff)
  next
    case (Add_column t c)
    then obtain T where T: "tbl s t = Some T" "c_name c \<notin> set (column_names T)"
      using st by (auto split: option.splits)
    have "c_name c \<notin> set (f_targets f)" if "(n, T') \<in> set s" "f \<in> set (tb_foreign T')" "f_table f = t" for n T' f
      using foreign_keys_found [OF ok(1) that(1,2)] T that(3) by auto
    then have "list_all (\<lambda>(n, T). list_all (\<lambda>f. f_table f = t \<longrightarrow> c_name c \<notin> set (f_targets f)) (tb_foreign T))
        (change st s)"
      using Add_column by (fastforce simp: list_all_iff upd_def split: if_splits)
    moreover have "c_name c \<notin> set (constrained T)" using schema_tbl [OF ok(1) T(1)] T(2) by auto
    moreover have "constrained (T\<lparr>tb_columns := cs, tb_rows := rs\<rparr>) = constrained T" for cs rs
      by (simp add: constrained_def)
    moreover have "upd t ((\<lambda>T. T\<lparr>tb_columns := filter (\<lambda>k. c_name k \<noteq> c_name c) (tb_columns T),
        tb_rows := map (filter (\<lambda>kv. fst kv \<noteq> c_name c)) (tb_rows T)\<rparr>) \<circ>
      (\<lambda>T. T\<lparr>tb_columns := tb_columns T @ [c], tb_rows := map (\<lambda>r. r @ [(c_name c, added_value c)]) (tb_rows T)\<rparr>)) s = s"
      using names
    proof (rule upd_same)
      fix T' assume "tbl s t = Some T'"
      with T consistent_tbl [OF ok(2) T(1)] have "T' = T" "\<forall>r \<in> set (tb_rows T). typed_row (tb_columns T) r"
        by (auto simp: consistent_table_def list_all_iff)
      moreover from this(2) T(2) have "map (filter (\<lambda>kv. fst kv \<noteq> c_name c)) (tb_rows T) = tb_rows T"
        by (intro map_idI) (auto intro: typed_row_absent simp: column_names_def)
      moreover have "filter (\<lambda>k. c_name k \<noteq> c_name c) (tb_columns T) = tb_columns T"
        using T(2) by (intro filter_absent) (simp add: column_names_def)
      ultimately show "((\<lambda>T. T\<lparr>tb_columns := filter (\<lambda>k. c_name k \<noteq> c_name c) (tb_columns T),
        tb_rows := map (filter (\<lambda>kv. fst kv \<noteq> c_name c)) (tb_rows T)\<rparr>) \<circ>
      (\<lambda>T. T\<lparr>tb_columns := tb_columns T @ [c], tb_rows := map (\<lambda>r. r @ [(c_name c, added_value c)]) (tb_rows T)\<rparr>)) T' = T'"
        by (simp add: comp_def)
    qed
    ultimately show ?thesis using un Add_column T
      by (simp add: effect_Some) (simp add: column_names_def)
  next
    case (Create_index t i)
    with st un names show ?thesis
      by (auto simp: effect_Some filter_absent split: option.splits intro!: upd_same [symmetric])
  next
    case (Drop_index t n)
    then obtain T i "is" where T: "tbl s t = Some T" and i: "rev (tb_indexes T) = i # is" "i_name i = n"
      "n \<notin> i_name ` set is" "st' = Create_index t i"
      using un by (auto split: option.splits list.splits)
    then have is': "tb_indexes T = rev is @ [i]" by (metis rev.simps(2) rev_rev_ident)
    have "consistent_table T" using consistent_tbl [OF ok(2) T] .
    then have "i_unique i \<longrightarrow> unique_on (i_columns i) (selected (i_where_null i) (tb_rows T))"
      by (auto simp: consistent_table_def unique_sets_def list_all_iff is')
    moreover have "set (index_columns i) \<subseteq> set (column_names T)"
      using schema_tbl [OF ok(1) T] by (auto simp: constrained_def is')
    ultimately show ?thesis using T i(2-4) Drop_index names
      by (auto simp: effect_Some is' rows_of_def indexed_rows_selected column_names_def filter_absent
          intro!: upd_same [symmetric])
  next
    case (Create_unique_constraint t n cs)
    with st un names show ?thesis
      by (auto simp: effect_Some filter_absent split: option.splits intro!: upd_same [symmetric])
  next
    case (Create_foreign_key t f)
    with st un names show ?thesis
      by (auto simp: effect_Some filter_absent split: option.splits intro!: upd_same [symmetric])
  qed (use un in auto)
qed

text \<open>A script and the one that undoes it, the latter listed backwards; schemas are checked on the way.\<close>

fun reverses :: "ddl list \<Rightarrow> ddl list \<Rightarrow> tables \<Rightarrow> bool" where
  "reverses [] [] s \<longleftrightarrow> True"
| "reverses (st # sts) (d # ds) s \<longleftrightarrow> schema_ok s \<and> undoes st d s \<and> reverses sts ds (change st s)"
| "reverses _ _ s \<longleftrightarrow> False"

lemma reverses_shape: "reverses sts ds (shape s) = reverses sts ds s"
  by (induction sts ds s rule: reverses.induct) (simp_all flip: change_shape)

lemma script_undone:
  "run_script effect sts s = Some s' \<Longrightarrow> consistent s \<Longrightarrow> reverses sts ds s \<Longrightarrow>
     consistent s' \<and> run_script effect (rev ds) s' = Some s"
proof (induction sts ds s rule: reverses.induct)
  case (2 st sts d ds s)
  then have st: "applicable st s" "rows_ok st s" "run_script effect sts (change st s) = Some s'"
    by (auto simp: bind_eq_Some_conv effect_Some)
  with 2 have "consistent s'" "run_script effect (rev ds) s' = Some (change st s)"
    by (auto intro: consistent_change)
  moreover have "effect d (change st s) = Some s" using 2 st by (intro change_undone) auto
  ultimately show ?case by (simp add: run_script_append)
qed auto

text \<open>Scripts are executed on the rows by the laws of \<open>rows_of\<close>, not by unfolding what they change.\<close>

declare change.simps [simp del]

end
