(* ===== verification/Migrations.thy ===== *)
theory Migrations
  imports Ddl MaskCodec
begin

text \<open>
  \<^verbatim>\<open>migrations/versions/\<close>: the five revisions, each with the statements of its \<open>upgrade\<close> and
  \<open>downgrade\<close> in the order of the file, and the metadata the models of \<^verbatim>\<open>app/models/\<close> declare, which
  the migrations are to build. A server default is the value its SQL text denotes.
\<close>

record revision =
  rev_id :: string
  rev_down :: "string option"
  rev_upgrade :: "ddl list"
  rev_downgrade :: "ddl list"

abbreviation column_def :: "string \<Rightarrow> sql_type \<Rightarrow> bool \<Rightarrow> sql_value option \<Rightarrow> column" where
  "column_def name ty nullable server_default \<equiv>
     \<lparr>c_name = name, c_type = ty, c_nullable = nullable, c_default = server_default\<rparr>"

abbreviation foreign :: "string option \<Rightarrow> string \<Rightarrow> string \<Rightarrow> string \<Rightarrow> on_delete \<Rightarrow> foreign_key" where
  "foreign name col t target rule \<equiv>
     \<lparr>f_name = name, f_columns = [col], f_table = t, f_targets = [target], f_on_delete = rule\<rparr>"

abbreviation plain_index :: "string \<Rightarrow> string \<Rightarrow> bool \<Rightarrow> index" where
  "plain_index name col unique \<equiv>
     \<lparr>i_name = name, i_columns = [col], i_unique = unique, i_where_null = None\<rparr>"

subsection \<open>The revisions\<close>

definition create_initial_tables :: revision where
  "create_initial_tables = \<lparr>rev_id = ''10328bfc2473'', rev_down = None,
     rev_upgrade =
      [Create_table ''permissions''
         [column_def ''id'' SQL_Integer False None, column_def ''name'' SQL_String True None] [''id''] [],
       Create_index ''permissions'' (plain_index ''ix_permissions_id'' ''id'' False),
       Create_index ''permissions'' (plain_index ''ix_permissions_name'' ''name'' True),
       Create_table ''roles''
         [column_def ''id'' SQL_Integer False None, column_def ''name'' SQL_String True None] [''id''] [],
       Create_index ''roles'' (plain_index ''ix_roles_id'' ''id'' False),
       Create_index ''roles'' (plain_index ''ix_roles_name'' ''name'' True),
       Create_table ''users''
         [column_def ''id'' SQL_UUID False None, column_def ''username'' SQL_String False None,
          column_def ''email'' SQL_String False None, column_def ''password'' SQL_String True None,
          column_def ''is_verified'' SQL_Boolean False (Some (Bool_value False))] [''id''] [],
       Create_index ''users'' (plain_index ''ix_users_username'' ''username'' True),
       Create_index ''users'' (plain_index ''ix_users_email'' ''email'' True),
       Create_table ''role_permissions''
         [column_def ''role_id'' SQL_Integer False None, column_def ''permission_id'' SQL_Integer False None]
         [''role_id'', ''permission_id'']
         [foreign None ''role_id'' ''roles'' ''id'' No_action,
          foreign None ''permission_id'' ''permissions'' ''id'' No_action],
       Create_table ''user_roles''
         [column_def ''user_id'' SQL_UUID False None, column_def ''role_id'' SQL_Integer False None]
         [''user_id'', ''role_id'']
         [foreign None ''user_id'' ''users'' ''id'' No_action, foreign None ''role_id'' ''roles'' ''id'' No_action],
       Create_table ''refreshtoken''
         [column_def ''token'' SQL_String False None, column_def ''user_id'' SQL_UUID False None,
          column_def ''expires_at'' SQL_DateTime False None,
          column_def ''is_revoked'' SQL_Boolean False (Some (Bool_value False))]
         [''token''] [foreign None ''user_id'' ''users'' ''id'' On_cascade],
       Create_index ''refreshtoken'' (plain_index ''ix_refreshtoken_token'' ''token'' False)],
     rev_downgrade =
      [Drop_index ''refreshtoken'' ''ix_refreshtoken_token'', Drop_table ''refreshtoken'',
       Drop_table ''user_roles'', Drop_table ''role_permissions'',
       Drop_index ''users'' ''ix_users_email'', Drop_index ''users'' ''ix_users_username'', Drop_table ''users'',
       Drop_index ''roles'' ''ix_roles_name'', Drop_index ''roles'' ''ix_roles_id'', Drop_table ''roles'',
       Drop_index ''permissions'' ''ix_permissions_name'', Drop_index ''permissions'' ''ix_permissions_id'',
       Drop_table ''permissions'']\<rparr>"

definition hierarchical_rbac :: revision where
  "hierarchical_rbac = \<lparr>rev_id = ''2d86ed6bd641'', rev_down = Some ''10328bfc2473'',
     rev_upgrade =
      [Add_column ''users'' (column_def ''is_superuser'' SQL_Boolean False (Some (Bool_value False))),
       Add_column ''users'' (column_def ''created_by_id'' SQL_UUID True None),
       Create_foreign_key ''users''
         (foreign (Some ''fk_users_created_by_id_users'') ''created_by_id'' ''users'' ''id'' On_set_null),
       Create_table ''user_permissions''
         [column_def ''user_id'' SQL_UUID False None, column_def ''permission_id'' SQL_Integer False None]
         [''user_id'', ''permission_id'']
         [foreign None ''user_id'' ''users'' ''id'' No_action,
          foreign None ''permission_id'' ''permissions'' ''id'' No_action],
       Create_table ''role_grantable_roles''
         [column_def ''role_id'' SQL_Integer False None, column_def ''grantable_role_id'' SQL_Integer False None]
         [''role_id'', ''grantable_role_id'']
         [foreign None ''role_id'' ''roles'' ''id'' No_action,
          foreign None ''grantable_role_id'' ''roles'' ''id'' No_action],
       Create_table ''role_grantable_permissions''
         [column_def ''role_id'' SQL_Integer False None, column_def ''permission_id'' SQL_Integer False None]
         [''role_id'', ''permission_id'']
         [foreign None ''role_id'' ''roles'' ''id'' No_action,
          foreign None ''permission_id'' ''permissions'' ''id'' No_action]],
     rev_downgrade =
      [Drop_table ''role_grantable_permissions'', Drop_table ''role_grantable_roles'',
       Drop_table ''user_permissions'',
       Drop_constraint ''users'' ''fk_users_created_by_id_users'' Foreign_key_kind,
       Drop_column ''users'' ''created_by_id'', Drop_column ''users'' ''is_superuser'']\<rparr>"

definition permission_bit_position :: revision where
  "permission_bit_position = \<lparr>rev_id = ''4ad43bc4d43b'', rev_down = Some ''2d86ed6bd641'',
     rev_upgrade =
      [Add_column ''permissions'' (column_def ''bit_position'' SQL_Integer True None),
       Create_unique_constraint ''permissions'' ''uq_permissions_bit_position'' [''bit_position'']],
     rev_downgrade =
      [Drop_constraint ''permissions'' ''uq_permissions_bit_position'' Unique_kind,
       Drop_column ''permissions'' ''bit_position'']\<rparr>"

definition tenants_revision :: revision where
  "tenants_revision = \<lparr>rev_id = ''4a36f94508d1'', rev_down = Some ''4ad43bc4d43b'',
     rev_upgrade =
      [Create_table ''tenants''
         [column_def ''id'' SQL_UUID False None, column_def ''name'' SQL_String False None,
          column_def ''is_active'' SQL_Boolean False (Some (Bool_value True))] [''id''] [],
       Create_index ''tenants'' (plain_index ''ix_tenants_name'' ''name'' True),
       Add_column ''users'' (column_def ''is_active'' SQL_Boolean False (Some (Bool_value True))),
       Add_column ''users'' (column_def ''tenant_id'' SQL_UUID True None),
       Add_column ''users'' (column_def ''perm_version'' SQL_Integer False (Some (Int_value 1))),
       Create_foreign_key ''users''
         (foreign (Some ''fk_users_tenant_id_tenants'') ''tenant_id'' ''tenants'' ''id'' On_restrict),
       Drop_index ''roles'' ''ix_roles_name'',
       Add_column ''roles'' (column_def ''tenant_id'' SQL_UUID True None),
       Add_column ''roles'' (column_def ''permission_mask'' (SQL_Binary 32) False
         (Some (Bytes_value (replicate 32 0)))),
       Create_index ''roles'' (plain_index ''ix_roles_name'' ''name'' False),
       Create_foreign_key ''roles''
         (foreign (Some ''fk_roles_tenant_id_tenants'') ''tenant_id'' ''tenants'' ''id'' On_cascade),
       Create_unique_constraint ''roles'' ''uq_roles_tenant_id_name'' [''tenant_id'', ''name''],
       Create_index ''roles'' \<lparr>i_name = ''uq_roles_global_name'', i_columns = [''name''], i_unique = True,
         i_where_null = Some ''tenant_id''\<rparr>],
     rev_downgrade =
      [Drop_index ''roles'' ''uq_roles_global_name'',
       Drop_constraint ''roles'' ''uq_roles_tenant_id_name'' Unique_kind,
       Drop_constraint ''roles'' ''fk_roles_tenant_id_tenants'' Foreign_key_kind,
       Drop_index ''roles'' ''ix_roles_name'',
       Drop_column ''roles'' ''permission_mask'', Drop_column ''roles'' ''tenant_id'',
       Create_index ''roles'' (plain_index ''ix_roles_name'' ''name'' True),
       Drop_constraint ''users'' ''fk_users_tenant_id_tenants'' Foreign_key_kind,
       Drop_column ''users'' ''perm_version'', Drop_column ''users'' ''tenant_id'', Drop_column ''users'' ''is_active'',
       Drop_index ''tenants'' ''ix_tenants_name'', Drop_table ''tenants'']\<rparr>"

text \<open>The text \<open>'\x...'::bytea\<close> denotes the bytes its hexadecimal digits spell.\<close>

definition bytea :: "string \<Rightarrow> sql_value" where
  "bytea h = (case bytes_fromhex h of None \<Rightarrow> Null | Some bs \<Rightarrow> Bytes_value bs)"

definition tenant_permission_ceiling :: revision where
  "tenant_permission_ceiling = \<lparr>rev_id = ''7f2a19c3d5e8'', rev_down = Some ''4a36f94508d1'',
     rev_upgrade = [Add_column ''tenants'' (column_def ''allowed_permission_mask'' (SQL_Binary 32) False
       (Some (bytea TENANT_ROLE_MASK_HEX)))],
     rev_downgrade = [Drop_column ''tenants'' ''allowed_permission_mask'']\<rparr>"

definition versions :: "revision list" where
  "versions = [create_initial_tables, hierarchical_rbac, tenants_revision, permission_bit_position,
     tenant_permission_ceiling]"

subsection \<open>The order of the revisions\<close>

text \<open>
  The ancestors of a revision, the base first: \<open>alembic upgrade\<close> applies them in this order. The
  recursion is bounded by the number of revisions, which no chain without a cycle exceeds.
\<close>

fun ancestors :: "nat \<Rightarrow> revision list \<Rightarrow> string option \<Rightarrow> revision list" where
  "ancestors 0 vs i = []"
| "ancestors (Suc k) vs None = []"
| "ancestors (Suc k) vs (Some i) = (case find (\<lambda>r. rev_id r = i) vs of None \<Rightarrow> []
     | Some r \<Rightarrow> ancestors k vs (rev_down r) @ [r])"

definition lineage :: "string option \<Rightarrow> revision list" where
  "lineage i = ancestors (length versions) versions i"

definition heads :: "revision list \<Rightarrow> revision list" where
  "heads vs = filter (\<lambda>r. list_all (\<lambda>r'. rev_down r' \<noteq> Some (rev_id r)) vs) vs"

definition upgrade_to :: "string option \<Rightarrow> ddl list" where
  "upgrade_to i = concat (map rev_upgrade (lineage i))"

abbreviation head_revision :: "string option" where
  "head_revision \<equiv> Some ''7f2a19c3d5e8''"

definition schema_at :: "string option \<Rightarrow> tables" where
  "schema_at i = fold change (upgrade_to i) []"

subsection \<open>The metadata of the models\<close>

text \<open>
  \<open>Base.metadata\<close>: the columns, keys and indexes the model classes declare. A column with
  \<open>unique=True\<close> has a unique constraint, with \<open>index=True\<close> too a unique index, with \<open>index=True\<close>
  alone an index; \<open>Mapped[T]\<close> is NOT NULL unless it says otherwise. Defaults that Python fills in
  are not part of the schema.
\<close>

definition association_table :: "string \<Rightarrow> sql_type \<Rightarrow> string \<Rightarrow> string \<Rightarrow> string \<Rightarrow> table" where
  "association_table a ty t b t' =
     \<lparr>tb_columns = [column_def a ty False None, column_def b SQL_Integer False None], tb_key = [a, b],
      tb_foreign = [foreign None a t ''id'' No_action, foreign None b t' ''id'' No_action],
      tb_unique = [], tb_indexes = [], tb_rows = []\<rparr>"

definition RefreshToken_table :: table where
  "RefreshToken_table =
     \<lparr>tb_columns = [column_def ''token'' SQL_String False None, column_def ''user_id'' SQL_UUID False None,
        column_def ''expires_at'' SQL_DateTime False None, column_def ''is_revoked'' SQL_Boolean False None],
      tb_key = [''token''], tb_foreign = [foreign None ''user_id'' ''users'' ''id'' On_cascade],
      tb_unique = [], tb_indexes = [plain_index ''ix_refreshtoken_token'' ''token'' False], tb_rows = []\<rparr>"

definition User_table :: table where
  "User_table =
     \<lparr>tb_columns = [column_def ''id'' SQL_UUID False None, column_def ''username'' SQL_String False None,
        column_def ''email'' SQL_String False None, column_def ''password'' SQL_String True None,
        column_def ''is_verified'' SQL_Boolean False None, column_def ''is_superuser'' SQL_Boolean False None,
        column_def ''is_active'' SQL_Boolean False None, column_def ''created_by_id'' SQL_UUID True None,
        column_def ''tenant_id'' SQL_UUID True None,
        column_def ''perm_version'' SQL_Integer False (Some (Int_value 1))],
      tb_key = [''id''],
      tb_foreign = [foreign None ''created_by_id'' ''users'' ''id'' On_set_null,
        foreign None ''tenant_id'' ''tenants'' ''id'' On_restrict],
      tb_unique = [('''', [''username'']), ('''', [''email''])], tb_indexes = [], tb_rows = []\<rparr>"

definition Role_table :: table where
  "Role_table =
     \<lparr>tb_columns = [column_def ''id'' SQL_Integer False None, column_def ''name'' SQL_String True None,
        column_def ''tenant_id'' SQL_UUID True None,
        column_def ''permission_mask'' (SQL_Binary MASK_BYTES) False None],
      tb_key = [''id''], tb_foreign = [foreign None ''tenant_id'' ''tenants'' ''id'' On_cascade],
      tb_unique = [(''uq_roles_tenant_id_name'', [''tenant_id'', ''name''])],
      tb_indexes = [\<lparr>i_name = ''uq_roles_global_name'', i_columns = [''name''], i_unique = True,
          i_where_null = Some ''tenant_id''\<rparr>,
        plain_index ''ix_roles_id'' ''id'' False, plain_index ''ix_roles_name'' ''name'' False],
      tb_rows = []\<rparr>"

definition Permission_table :: table where
  "Permission_table =
     \<lparr>tb_columns = [column_def ''id'' SQL_Integer False None, column_def ''name'' SQL_String True None,
        column_def ''bit_position'' SQL_Integer True None],
      tb_key = [''id''], tb_foreign = [], tb_unique = [('''', [''bit_position''])],
      tb_indexes = [plain_index ''ix_permissions_id'' ''id'' False, plain_index ''ix_permissions_name'' ''name'' True],
      tb_rows = []\<rparr>"

definition Tenant_table :: table where
  "Tenant_table =
     \<lparr>tb_columns = [column_def ''id'' SQL_UUID False None, column_def ''name'' SQL_String False None,
        column_def ''is_active'' SQL_Boolean False None,
        column_def ''allowed_permission_mask'' (SQL_Binary MASK_BYTES) False None],
      tb_key = [''id''], tb_foreign = [], tb_unique = [('''', [''name''])], tb_indexes = [], tb_rows = []\<rparr>"

definition metadata :: tables where
  "metadata =
     [(''refreshtoken'', RefreshToken_table), (''users'', User_table),
      (''user_roles'', association_table ''user_id'' SQL_UUID ''users'' ''role_id'' ''roles''),
      (''role_permissions'', association_table ''role_id'' SQL_Integer ''roles'' ''permission_id'' ''permissions''),
      (''user_permissions'', association_table ''user_id'' SQL_UUID ''users'' ''permission_id'' ''permissions''),
      (''role_grantable_roles'', association_table ''role_id'' SQL_Integer ''roles'' ''grantable_role_id'' ''roles''),
      (''role_grantable_permissions'',
         association_table ''role_id'' SQL_Integer ''roles'' ''permission_id'' ''permissions''),
      (''roles'', Role_table), (''permissions'', Permission_table), (''tenants'', Tenant_table)]"

text \<open>
  Two tables agree when they have the same columns with the same types, allow NULL in the same
  ones, and have the same primary key, references, uniqueness and plain indexes; the names of
  constraints and the order of columns do not matter, nor whether uniqueness is a constraint or an
  index.
\<close>

definition same_members :: "'a list \<Rightarrow> 'a list \<Rightarrow> bool" where
  "same_members xs ys \<longleftrightarrow> list_all (\<lambda>x. x \<in> set ys) xs \<and> list_all (\<lambda>y. y \<in> set xs) ys"

definition tables_agree :: "table \<Rightarrow> table \<Rightarrow> bool" where
  "tables_agree T M \<longleftrightarrow>
     same_members (map (\<lambda>c. (c_name c, c_type c, c_nullable c)) (tb_columns T))
       (map (\<lambda>c. (c_name c, c_type c, c_nullable c)) (tb_columns M)) \<and>
     tb_key T = tb_key M \<and>
     same_members (map (\<lambda>f. (f_columns f, f_table f, f_targets f, f_on_delete f)) (tb_foreign T))
       (map (\<lambda>f. (f_columns f, f_table f, f_targets f, f_on_delete f)) (tb_foreign M)) \<and>
     same_members (unique_sets T) (unique_sets M) \<and>
     same_members (map i_columns (filter (\<lambda>i. \<not> i_unique i) (tb_indexes T)))
       (map i_columns (filter (\<lambda>i. \<not> i_unique i) (tb_indexes M)))"

definition schemas_agree :: "tables \<Rightarrow> tables \<Rightarrow> bool" where
  "schemas_agree s m \<longleftrightarrow> same_members (map fst s) (map fst m) \<and>
     list_all (\<lambda>(n, T). case tbl m n of None \<Rightarrow> False | Some M \<Rightarrow> tables_agree T M) s"

lemma head_script_runs: "run_script effect (upgrade_to head_revision) [] = Some (schema_at head_revision)"
  by code_simp

lemma head_schema: "schemas_agree (schema_at head_revision) metadata" "schema_ok (schema_at head_revision)"
  by code_simp+

lemma revisions_linear: "map rev_id (heads versions) = [''7f2a19c3d5e8'']"
  "map rev_id (lineage head_revision) =
     [''10328bfc2473'', ''2d86ed6bd641'', ''4ad43bc4d43b'', ''4a36f94508d1'', ''7f2a19c3d5e8'']"
  by code_simp+

lemma revisions_reversed:
  "list_all (\<lambda>r. run_script effect (rev_upgrade r) (schema_at (rev_down r)) = Some (schema_at (Some (rev_id r))))
     versions"
  "list_all (\<lambda>r. reverses (rev_upgrade r) (rev (rev_downgrade r)) (schema_at (rev_down r))) versions"
  by code_simp+

subsection \<open>The rows a revision meets\<close>

lemma shape_tbl: "shape s = sh \<Longrightarrow> tbl sh t = Some T' \<Longrightarrow> \<exists>T. tbl s t = Some T \<and> T\<lparr>tb_rows := []\<rparr> = T'"
  by (auto simp flip: tbl_shape) (metis map_option_eq_Some tbl_shape)

lemma row_names:
  assumes "consistent s" "shape s = sh" "tbl sh t = Some T'" "r \<in> set (rows_of s t)"
  shows "fst ` set r = set (column_names T')"
proof -
  from shape_tbl [OF assms(2,3)] obtain T where T: "tbl s t = Some T" "T\<lparr>tb_rows := []\<rparr> = T'" by blast
  with assms(1,4) have "typed_row (tb_columns T) r"
    by (auto simp: rows_of_def consistent_table_def list_all_iff dest: consistent_tbl)
  then show ?thesis using T(2) typed_row_names by (auto simp: column_names_def simp flip: set_map)
qed

lemma unique_rows:
  assumes "consistent s" "shape s = sh" "tbl sh t = Some T'" "(cs, w) \<in> set (unique_sets T')"
  shows "unique_on cs (selected w (rows_of s t))"
proof -
  from shape_tbl [OF assms(2,3)] obtain T where T: "tbl s t = Some T" "T\<lparr>tb_rows := []\<rparr> = T'" by blast
  with assms(4) have "(cs, w) \<in> set (unique_sets T)" by (auto simp: unique_sets_def)
  with consistent_tbl [OF assms(1) T(1)] T(1) show ?thesis
    by (auto simp: consistent_table_def list_all_iff rows_of_def)
qed

text \<open>A set of columns that has a NULL in every row is unique.\<close>

lemma unique_on_null: "list_all (\<lambda>r. list_ex (\<lambda>c. cell r c = Null) cs) rows \<Longrightarrow> unique_on cs rows"
  unfolding unique_on_def by (induction rows) (auto simp: list_ex_iff image_iff intro: sym)

text \<open>The cells of a row that got new columns.\<close>

lemma cell_old: "c \<notin> fst ` set new \<Longrightarrow> cell (r @ new) c = cell r c"
  by (simp add: cell_def map_add_def map_of_eq_None_iff [THEN iffD2] split: option.split)

lemma cell_added: "c \<notin> fst ` set r \<Longrightarrow> cell (r @ new) c = cell new c"
  by (simp add: cell_def map_add_def map_of_eq_None_iff [THEN iffD2] split: option.split)

lemma cell_Cons: "cell ((k, v) # r) c = (if c = k then v else cell r c)"
  by (simp add: cell_def)

lemma users_before_hierarchy:
  "map_option column_names (tbl (schema_at (Some ''10328bfc2473'')) ''users'') =
     Some [''id'', ''username'', ''email'', ''password'', ''is_verified'']"
  by code_simp

lemma permissions_before_bits:
  "map_option column_names (tbl (schema_at (Some ''2d86ed6bd641'')) ''permissions'') = Some [''id'', ''name'']"
  by code_simp

lemma before_tenants:
  "case tbl (schema_at (Some ''4ad43bc4d43b'')) ''users'' of None \<Rightarrow> False
     | Some T \<Rightarrow> list_all (\<lambda>n. n \<noteq> ''tenant_id'') (column_names T)"
  "case tbl (schema_at (Some ''4ad43bc4d43b'')) ''roles'' of None \<Rightarrow> False
     | Some T \<Rightarrow> list_all (\<lambda>n. n \<noteq> ''tenant_id'') (column_names T) \<and>
         list_ex (\<lambda>x. x = ([''name''], None)) (unique_sets T)"
  "tbl (schema_at (Some ''4ad43bc4d43b'')) ''tenants'' = None"
  by code_simp+

lemma absent_column:
  "consistent s \<Longrightarrow> shape s = sh \<Longrightarrow> map_option column_names (tbl sh t) = Some ns \<Longrightarrow> c \<notin> set ns \<Longrightarrow>
     r \<in> set (rows_of s t) \<Longrightarrow> c \<notin> fst ` set r"
  by (cases "tbl sh t") (use row_names [of s sh t _ r] in auto)

lemma allows_initial: "shape s = schema_at None \<Longrightarrow> allows (rev_upgrade create_initial_tables) s"
proof -
  assume "shape s = schema_at None"
  moreover have "schema_at None = []" by code_simp
  ultimately have "s = []" by (simp add: shape_def)
  moreover have "allows (rev_upgrade create_initial_tables) []" by code_simp
  ultimately show ?thesis by simp
qed

lemma allows_hierarchical:
  assumes "consistent s" "shape s = schema_at (Some ''10328bfc2473'')"
  shows "allows (rev_upgrade hierarchical_rbac) s"
proof -
  have "''created_by_id'' \<notin> fst ` set r" if "r \<in> set (rows_of s ''users'')" for r
    using absent_column [OF assms users_before_hierarchy] that by auto
  then show ?thesis
    by (simp add: hierarchical_rbac_def list_all_iff added_value_def cell_added cell_Cons)
qed

lemma allows_bit_position:
  assumes "consistent s" "shape s = schema_at (Some ''2d86ed6bd641'')"
  shows "allows (rev_upgrade permission_bit_position) s"
proof -
  have "''bit_position'' \<notin> fst ` set r" if "r \<in> set (rows_of s ''permissions'')" for r
    using absent_column [OF assms permissions_before_bits] that by auto
  then show ?thesis
    by (simp add: permission_bit_position_def added_value_def cell_added cell_Cons list_all_iff unique_on_null)
qed

lemma allows_tenants:
  assumes "consistent s" "shape s = schema_at (Some ''4ad43bc4d43b'')"
  shows "allows (rev_upgrade tenants_revision) s"
proof -
  obtain U R where U: "tbl (shape s) ''users'' = Some U" "''tenant_id'' \<notin> set (column_names U)"
    and R: "tbl (shape s) ''roles'' = Some R" "''tenant_id'' \<notin> set (column_names R)" "([''name''], None) \<in> set (unique_sets R)"
    using before_tenants(1,2) by (auto simp: assms(2) list_ex_iff list_all_iff simp del: tbl_shape split: option.splits)
  have users: "''tenant_id'' \<notin> fst ` set r" if "r \<in> set (rows_of s ''users'')" for r
    using row_names [OF assms(1) refl U(1) that] U(2) by simp
  have roles: "''tenant_id'' \<notin> fst ` set r" if "r \<in> set (rows_of s ''roles'')" for r
    using row_names [OF assms(1) refl R(1) that] R(2) by simp
  have tenants: "rows_of s ''tenants'' = []"
    using before_tenants(3) by (simp add: rows_of_def flip: assms(2))
  from unique_rows [OF assms(1) refl R(1,3)] have "unique_on [''name''] (rows_of s ''roles'')" by (simp add: selected_def)
  then have "unique_on [''name''] (map (\<lambda>r. r @ new) (rows_of s ''roles''))" if "''name'' \<notin> fst ` set new" for new
    using that by (subst unique_on_map) (simp_all add: cell_old)
  with users roles tenants show ?thesis
    by (simp add: tenants_revision_def added_value_def cell_added cell_Cons list_all_iff unique_on_null
        indexed_rows_def filter_map comp_def cong: filter_cong)
qed

lemma allows_ceiling: "allows (rev_upgrade tenant_permission_ceiling) s"
  by (simp add: tenant_permission_ceiling_def)

lemma revision_allows:
  "r \<in> set versions \<Longrightarrow> shape s = schema_at (rev_down r) \<Longrightarrow> consistent s \<Longrightarrow> allows (rev_upgrade r) s"
  using allows_initial allows_hierarchical allows_bit_position allows_tenants allows_ceiling
  by (auto simp: versions_def)
    (simp_all add: create_initial_tables_def hierarchical_rbac_def permission_bit_position_def tenants_revision_def)

subsection \<open>What the migrations build, and that they can be undone\<close>

lemma revision_runs:
  assumes r: "r \<in> set versions" and s: "shape s = schema_at (rev_down r)" "consistent s"
  defines "s' \<equiv> fold change (rev_upgrade r) s"
  shows "run_script effect (rev_upgrade r) s = Some s'" "shape s' = schema_at (Some (rev_id r))" "consistent s'"
    and "run_script effect (rev_downgrade r) s' = Some s"
proof -
  have "run_script effect (rev_upgrade r) (shape s) = Some (schema_at (Some (rev_id r)))"
    and rev: "reverses (rev_upgrade r) (rev (rev_downgrade r)) s"
    using revisions_reversed r s(1) reverses_shape [of _ _ s] by (auto simp: list_all_iff)
  from run_from_shape [OF this(1) revision_allows [OF r s]]
  show up: "run_script effect (rev_upgrade r) s = Some s'" and "shape s' = schema_at (Some (rev_id r))"
    by (auto simp: s'_def)
  from script_undone [OF up s(2) rev]
  show "consistent s'" "run_script effect (rev_downgrade r) s' = Some s" by simp_all
qed




text \<open>A database with roles in it, before tenants.\<close>

definition roles_before_tenants :: tables where
  "roles_before_tenants = upd ''roles'' (\<lambda>T. T\<lparr>tb_rows :=
     [[(''id'', Int_value 1), (''name'', Str_value ''admin'')], [(''id'', Int_value 2), (''name'', Null)]]\<rparr>)
     (schema_at (Some ''4ad43bc4d43b''))"


end
