(* ===== verification/Deployment.thy ===== *)
theory Deployment
  imports Migrations SyncSeed Transitions AuthActions
begin

text \<open>
  How a deployment starts: \<open>alembic upgrade head\<close>, then the \<open>lifespan\<close> of \<^verbatim>\<open>app/main.py\<close>, which
  synchronises the catalog and starts the worker's cache. The rows the migrations see are the rows
  of Models, written out column by column.
\<close>

subsection \<open>The rows of a table, as SQL sees them\<close>

definition sql_option :: "('a \<Rightarrow> sql_value) \<Rightarrow> 'a option \<Rightarrow> sql_value" where
  "sql_option f x = (case x of None \<Rightarrow> Null | Some y \<Rightarrow> f y)"

definition permission_row :: "permission \<Rightarrow> row" where
  "permission_row p =
     [(''id'', Int_value (p_id p)), (''name'', Str_value (p_name p)),
      (''bit_position'', sql_option (\<lambda>b. Int_value (int b)) (p_bit_position p))]"

definition role_row :: "role \<Rightarrow> row" where
  "role_row r =
     [(''id'', Int_value (r_id r)), (''name'', Str_value (r_name r)),
      (''tenant_id'', sql_option Uuid_value (r_tenant_id r)),
      (''permission_mask'', Bytes_value (be_bytes MASK_BYTES (r_permission_mask r)))]"

lemma unique_names:
  "(\<And>x. cell (f x) ''name'' = Str_value (g x)) \<Longrightarrow> unique_on [''name''] (map f xs) \<longleftrightarrow> distinct (map g xs)"
  by (simp add: unique_on_def comp_def filter_map distinct_map inj_on_def)

subsection \<open>A database from before the catalog\<close>

lemma permissions_before_bits_unique:
  "case tbl (schema_at (Some ''2d86ed6bd641'')) ''permissions'' of None \<Rightarrow> False
     | Some T \<Rightarrow> list_ex (\<lambda>x. x = ([''name''], None)) (unique_sets T)"
  by code_simp

definition upgrade_past_bits :: "ddl list" where
  "upgrade_past_bits = rev_upgrade permission_bit_position @ rev_upgrade tenants_revision @
     rev_upgrade tenant_permission_ceiling"

lemma revision_ids [simp]:
  "rev_down permission_bit_position = Some ''2d86ed6bd641''" "rev_id permission_bit_position = ''4ad43bc4d43b''"
  "rev_down tenants_revision = Some ''4ad43bc4d43b''" "rev_id tenants_revision = ''4a36f94508d1''"
  "rev_down tenant_permission_ceiling = Some ''4a36f94508d1''" "rev_id tenant_permission_ceiling = ''7f2a19c3d5e8''"
  by (simp_all add: permission_bit_position_def tenants_revision_def tenant_permission_ceiling_def)

lemma revisions_members:
  "permission_bit_position \<in> set versions" "tenants_revision \<in> set versions"
  "tenant_permission_ceiling \<in> set versions"
  by (simp_all add: versions_def)

lemma upgrade_past_bits_runs:
  assumes "shape s = schema_at (Some ''2d86ed6bd641'')" "consistent s"
  shows "\<exists>s'. run_script effect upgrade_past_bits s = Some s' \<and> shape s' = schema_at head_revision \<and>
    consistent s' \<and> rows_of s' ''permissions'' = map (\<lambda>r. r @ [(''bit_position'', Null)]) (rows_of s ''permissions'')"
proof -
  note r1 = revision_runs [OF revisions_members(1) assms(1) [folded revision_ids(1)] assms(2)]
  note r2 = revision_runs [OF revisions_members(2) _ r1(3), folded revision_ids(2), unfolded revision_ids, OF r1(2) [unfolded revision_ids]]
  note r3 = revision_runs [OF revisions_members(3) _ r2(3), unfolded revision_ids, OF r2(2)]
  let ?s' = "fold change (rev_upgrade tenant_permission_ceiling) (fold change (rev_upgrade tenants_revision)
    (fold change (rev_upgrade permission_bit_position) s))"
  have "rows_of ?s' ''permissions'' = map (\<lambda>r. r @ [(''bit_position'', Null)]) (rows_of s ''permissions'')"
    by (simp add: permission_bit_position_def tenants_revision_def tenant_permission_ceiling_def added_value_def)
  with r1(1) r2(1) r3 show ?thesis
    by (simp add: upgrade_past_bits_def run_script_append)
qed

lemma legacy_names_distinct:
  assumes "shape s = schema_at (Some ''2d86ed6bd641'')" "consistent s"
    and "map (\<lambda>r. r @ [(''bit_position'', Null)]) (rows_of s ''permissions'') = map permission_row ps"
  shows "distinct (map p_name ps)"
proof -
  obtain T where "tbl (shape s) ''permissions'' = Some T" "([''name''], None) \<in> set (unique_sets T)"
    using permissions_before_bits_unique by (auto simp: assms(1) list_ex_iff simp del: tbl_shape split: option.splits)
  from unique_rows [OF assms(2) refl this] have "unique_on [''name''] (rows_of s ''permissions'')"
    by (simp add: selected_def)
  then have "unique_on [''name''] (map (\<lambda>r. r @ [(''bit_position'', Null)]) (rows_of s ''permissions''))"
    by (subst unique_on_map) (simp_all add: cell_old)
  then show ?thesis
    unfolding assms(3) by (subst (asm) unique_names [where g = p_name])
      (simp_all add: permission_row_def cell_def)
qed


lemma conforms_refuses:
  "conforms engine \<Longrightarrow> \<not> rows_ok (Create_index t i) s \<Longrightarrow> engine (Create_index t i) s = None"
  unfolding conforms_def by blast

lemma downgrade_prefix:
  "run_script effect (rev_downgrade tenant_permission_ceiling @ take 6 (rev_downgrade tenants_revision))
     (schema_at head_revision) \<noteq> None"
  by code_simp

text \<open>
  A second tenant is the end of downgrading. Every tenant is bootstrapped with a role named
  tenant-admin; once two of them exist, the downgrade from the head past the revision that
  introduced tenants is refused, because it would recreate the global unique index over the names
  of roles.
\<close>

lemma second_tenant_blocks_downgrade:
  assumes engine: "conforms engine" and s: "shape s = schema_at head_revision"
    and rows: "rows_of s ''roles'' = map role_row (roles (w_db w'))"
    and new: "create_root_tenant_role t m w = (Inr role, w')"
    and old: "r \<in> set (roles (w_db w))" "r_name r = ''tenant-admin''"
  shows "run_script engine (rev_downgrade tenant_permission_ceiling @ rev_downgrade tenants_revision) s = None"
proof -
  let ?pre = "rev_downgrade tenant_permission_ceiling @ take 6 (rev_downgrade tenants_revision)"
  let ?s1 = "fold change ?pre s"
  have "allows ?pre s" by (simp add: tenant_permission_ceiling_def tenants_revision_def)
  with downgrade_prefix run_from_shape [of ?pre s] s have pre: "run_script effect ?pre s = Some ?s1" by auto
  from new obtain row where "roles (w_db w') = roles (w_db w) @ [row]" "r_name row = ''tenant-admin''"
    by (auto simp: create_root_tenant_role_def Let_def split: sum.splits if_splits)
  with old have "\<not> distinct (map r_name (roles (w_db w')))" by force
  moreover have "rows_of ?s1 ''roles'' = map (\<lambda>r. filter (\<lambda>kv. fst kv \<noteq> ''tenant_id'')
      (filter (\<lambda>kv. fst kv \<noteq> ''permission_mask'') (role_row r))) (roles (w_db w'))"
    by (simp add: tenant_permission_ceiling_def tenants_revision_def rows)
  ultimately have "\<not> rows_ok (Create_index ''roles'' (plain_index ''ix_roles_name'' ''name'' True)) ?s1"
    by (simp add: indexed_rows_def) (subst unique_names [where g = r_name], simp_all add: role_row_def cell_Cons)
  from conforms_refuses [OF engine this]
  have "engine (Create_index ''roles'' (plain_index ''ix_roles_name'' ''name'' True)) ?s1 = None" .
  moreover have "rev_downgrade tenant_permission_ceiling @ rev_downgrade tenants_revision =
      ?pre @ Create_index ''roles'' (plain_index ''ix_roles_name'' ''name'' True) # drop 7 (rev_downgrade tenants_revision)"
    by (simp add: tenants_revision_def)
  ultimately show ?thesis
    using conforms_run [OF engine pre] by (simp add: run_script_append del: append_assoc)
qed

subsection \<open>Examples of such databases\<close>

definition legacy_store :: tables where
  "legacy_store = upd ''permissions'' (\<lambda>T. T\<lparr>tb_rows :=
     [[(''id'', Int_value 1), (''name'', Str_value ''role:create'')]]\<rparr>) (schema_at (Some ''2d86ed6bd641''))"


text \<open>The sample database at the head of the migrations, as far as its roles go, with one tenant more.\<close>

definition two_tenants :: tables where
  "two_tenants = upd ''roles'' (\<lambda>T. T\<lparr>tb_rows := map role_row
     (roles (w_db (snd (create_root_tenant_role globex 3 sample_world))))\<rparr>) (schema_at head_revision)"

lemma globex_bootstrap: "\<exists>role w'. create_root_tenant_role globex 3 sample_world = (Inr role, w')"
  by (simp add: create_root_tenant_role_def Let_def root_role_mask_def tenant_role_mask_value sample_world_def
      sample_db_def sample_rows role_name_taken_def tenant_exists_def)

lemma head_roles: "case tbl (schema_at head_revision) ''roles'' of None \<Rightarrow> False | Some T \<Rightarrow> tb_rows T = []"
  by code_simp

lemma shape_rows: "shape (upd t (\<lambda>T. T\<lparr>tb_rows := rs\<rparr>) s) = shape s"
  by (induction s) (auto simp: shape_def upd_def)

lemma second_tenant_blocks_downgrade_witness:
  "run_script effect (rev_downgrade tenant_permission_ceiling @ rev_downgrade tenants_revision) two_tenants = None"
proof -
  obtain role w' where new: "create_root_tenant_role globex 3 sample_world = (Inr role, w')"
    using globex_bootstrap by blast
  have "shape (schema_at head_revision) = schema_at head_revision" by code_simp
  then have "shape two_tenants = schema_at head_revision" by (simp add: two_tenants_def shape_rows)
  moreover have "rows_of two_tenants ''roles'' = map role_row (roles (w_db w'))"
    using head_roles by (simp add: two_tenants_def new rows_of_upd split: option.splits)
  ultimately show ?thesis
    by (rule second_tenant_blocks_downgrade [OF conforms_effect _ _ new, of _ admin_role])
      (simp_all add: sample_world_def sample_db_def sample_rows)
qed

subsection \<open>Start-up and shutdown\<close>

text \<open>
  The part of \<open>lifespan\<close> before its \<open>yield\<close>: when the synchronisation raises, the application does
  not start. The tasks of the cache begin with an empty cache and no subscription; the first
  resync comes after \<open>RESYNC_INTERVAL_SECONDS\<close>. The part after the \<open>yield\<close> cancels them.
\<close>

definition lifespan_startup :: "bus action" where
  "lifespan_startup = and_then sync (\<lambda>_ w. (Inr (start_worker (w_redis w)), w))"

definition stop_worker :: "bus \<Rightarrow> bus" where
  "stop_worker b = b\<lparr>subscription := None, resync_pending := None\<rparr>"

definition first_resync :: "bus \<Rightarrow> bus" where
  "first_resync b = bus_resync_apply (bus_resync_read (b\<lparr>subscription := Some []\<rparr>))"

lemma sync_loop_keeps:
  "constraints (w_db w) \<Longrightarrow> masks_cached (w_db w) \<Longrightarrow>
     constraints (w_db (snd (sync_loop ps c w))) \<and> masks_cached (w_db (snd (sync_loop ps c w)))"
proof (induction ps arbitrary: c w)
  case (Cons nb ps)
  obtain n b where nb: "nb = (n, b)" by (cases nb)
  note keeps = create_with_bit_keeps [OF Cons.prems, of n b]
  then show ?case
    using Cons by (cases "create_with_bit n b w"; cases "fst (create_with_bit n b w)")
      (auto simp: nb and_then_def split: option.split)
qed simp



text \<open>After the shutdown nothing that is published reaches the cache any more.\<close>

lemma stopped_worker_deaf: "worker_cache (bus_deliver (bus_publish es (stop_worker b))) = worker_cache b"
  by (simp add: stop_worker_def bus_publish_def bus_deliver_def)

subsection \<open>A fresh deployment\<close>

text \<open>
  The whole of \<open>seed\<close> in \<^verbatim>\<open>cli/seed.py\<close>: each answer comes from the environment unless it is not set
  or empty there, and else from a prompt; the password is hashed only when the name is free.
\<close>

definition env_or :: "string option \<Rightarrow> string \<Rightarrow> string" where
  "env_or env prompt = (case env of None \<Rightarrow> prompt | Some v \<Rightarrow> if v = [] then prompt else v)"

definition seed_command :: "bcrypt \<Rightarrow> (string \<Rightarrow> string option) \<Rightarrow> (string \<Rightarrow> string) \<Rightarrow> uuid \<Rightarrow> string \<Rightarrow> user option action" where
  "seed_command B getenv input new_id salt w =
     (let username = env_or (getenv ''SEED_ADMIN_USERNAME'') (input ''Superuser username: '');
          email = env_or (getenv ''SEED_ADMIN_EMAIL'') (input ''Superuser email: '');
          password = env_or (getenv ''SEED_ADMIN_PASSWORD'') (input ''Superuser password: '') in
      if exists_by_username username (w_db w) then (Inr None, w)
      else and_then (lift (get_password_hash B salt password)) (seed new_id username email) w)"

lemma seed_again: "exists_by_username un (w_db w) \<Longrightarrow> env_or (getenv ''SEED_ADMIN_USERNAME'') (input ''Superuser username: '') = un \<Longrightarrow>
    seed_command B getenv input i salt w = (Inr None, w)"
  by (simp add: seed_command_def Let_def)

lemma empty_db_ok: "constraints empty_db" "masks_cached empty_db" "permissions empty_db = []"
  by (simp_all add: empty_db_def constraints_def tenant_refs_def user_keys_def role_keys_def permission_keys_def
      tenant_keys_def foreign_keys_def sequences_def masks_cached_def)

text \<open>On an empty table the synchronisation creates the catalog.\<close>

lemma sync_creates_catalog:
  assumes "constraints (w_db w)" "masks_cached (w_db w)" "permissions (w_db w) = []"
  shows "\<exists>n w'. sync w = (Inr n, w') \<and> db_inv (w_db w') \<and> w_redis w' = w_redis w \<and> users (w_db w') = users (w_db w) \<and>
    length (permissions (w_db w')) = length PERMISSION_REGISTRY"
proof -
  obtain n w' where sync: "sync w = (Inr n, w')"
    using sync_raises [of w] assms(3) by (cases "sync w"; cases "fst (sync w)") auto
  have names: "distinct (map p_name (permissions (w_db w)))" and fit: "bits_fit (permissions (w_db w))"
    using assms(3) by (simp_all add: bits_fit_def)
  note ok = sync_returns [OF sync names fit]
  have kept: "constraints (w_db w') \<and> masks_cached (w_db w')"
    using sync_loop_keeps [OF assms(1,2), of PERMISSION_REGISTRY 0] sync by (simp add: sync_def)
  from ok(6) assms(3) have "from_catalog PERMISSION_REGISTRY (permissions (w_db w'))" by auto
  then have "p_name ` set (permissions (w_db w')) \<subseteq> fst ` set PERMISSION_REGISTRY"
    unfolding from_catalog_def by (intro image_subsetI) (metis fst_eqD image_eqI)
  moreover have "fst x \<in> p_name ` set (permissions (w_db w'))" if "x \<in> set PERMISSION_REGISTRY" for x
  proof -
    from that have "registry_bit (fst x) = Some (snd x)" by (simp flip: registry_bit_iff)
    from synced_row [OF ok(1) this] obtain p where "p \<in> set (permissions (w_db w'))" "p_name p = fst x" by blast
    then show ?thesis by (metis imageI)
  qed
  ultimately have "p_name ` set (permissions (w_db w')) = fst ` set PERMISSION_REGISTRY" by blast
  moreover have "distinct (map p_name (permissions (w_db w')))"
    using kept by (simp add: constraints_def permission_keys_def)
  ultimately have "length (permissions (w_db w')) = length PERMISSION_REGISTRY"
    using registry_names_distinct by (metis distinct_card length_map list.set_map)
  with sync ok kept show ?thesis by (auto simp: db_inv_def)
qed

text \<open>
  C23. A fresh deployment comes up. On the empty database the migrations leave, the seeding creates
  its user and the start that follows it returns: every permission of the catalog has its row, the
  world is one the whole development speaks about, its only user is a verified, active superuser
  with the hash of the given password, and seeding once more changes nothing.
\<close>

theorem fresh_deployment_starts:
  assumes "get_password_hash B salt (env_or (getenv ''SEED_ADMIN_PASSWORD'') (input ''Superuser password: '')) = Inr h"
    and un: "un = env_or (getenv ''SEED_ADMIN_USERNAME'') (input ''Superuser username: '')"
  shows "\<exists>u w1 b w2. seed_command B getenv input i salt \<lparr>w_db = empty_db, w_redis = empty_redis\<rparr> = (Inr (Some u), w1) \<and>
    lifespan_startup w1 = (Inr b, w2) \<and> reachable_world w2 \<and> users (w_db w2) = [u] \<and>
    length (permissions (w_db w2)) = length PERMISSION_REGISTRY \<and>
    u_username u = un \<and> u_password u = Some h \<and> u_is_verified u \<and> u_is_superuser u \<and> u_is_active u \<and>
    seed_command B getenv input i' salt' w2 = (Inr None, w2)"
proof -
  let ?w = "\<lparr>w_db = empty_db, w_redis = empty_redis\<rparr>"
  let ?em = "env_or (getenv ''SEED_ADMIN_EMAIL'') (input ''Superuser email: '')"
  let ?u = "\<lparr>u_id = i, u_username = un, u_email = ?em, u_password = Some h, u_is_verified = True, u_is_superuser = True,
    u_is_active = True, u_created_by_id = None, u_tenant_id = None, u_perm_version = 1\<rparr>"
  let ?d1 = "empty_db\<lparr>users := [?u]\<rparr>" and ?w1 = "\<lparr>w_db = empty_db\<lparr>users := [?u]\<rparr>, w_redis = empty_redis\<rparr>"
  have seed: "seed_command B getenv input i salt ?w = (Inr (Some ?u), ?w1)"
    using assms by (simp add: seed_command_def seed_def Let_def and_then_def lift_def exists_by_username_def
        user_create_def user_row_taken_def empty_db_def commit_def)
  have "constraints (w_db ?w1)" "masks_cached (w_db ?w1)" "permissions (w_db ?w1) = []"
    using empty_db_ok by (simp_all add: constraints_def tenant_refs_def user_keys_def foreign_keys_def sequences_def
        masks_cached_def empty_db_def)
  from sync_creates_catalog [OF this] obtain n w2 where sync: "sync ?w1 = (Inr n, w2)"
    and ok: "db_inv (w_db w2)" "w_redis w2 = empty_redis" "users (w_db w2) = [?u]"
    "length (permissions (w_db w2)) = length PERMISSION_REGISTRY" by auto
  from ok(1,2) have reach: "reachable_world w2"
    using reachable_world.start [of "w_db w2"] by (metis (full_types) world.surjective old.unit.exhaust)
  have "exists_by_username un (w_db w2)" using ok(3) by (simp add: exists_by_username_def)
  from seed_again [of un w2 getenv input B i' salt', OF this un [symmetric]]
  have "seed_command B getenv input i' salt' w2 = (Inr None, w2)" .
  moreover have "lifespan_startup ?w1 = (Inr (start_worker (w_redis w2)), w2)"
    by (simp add: lifespan_startup_def and_then_def sync)
  ultimately show ?thesis using seed reach ok(3,4) by (intro exI [of _ ?u] exI conjI) (assumption | simp)+
qed

lemma fresh_deployment_starts_witness:
  "\<exists>u w1 b w2. seed_command \<lparr>checkpw = (\<lambda>p h. Inr (h = p)), hashpw = (\<lambda>salt p. Inr (salt @ p))\<rparr> (\<lambda>_. None) (\<lambda>_. ''admin'') 1 ''s''
      \<lparr>w_db = empty_db, w_redis = empty_redis\<rparr> = (Inr (Some u), w1) \<and> lifespan_startup w1 = (Inr b, w2) \<and> u_is_superuser u"
proof -
  have "get_password_hash \<lparr>checkpw = (\<lambda>p h. Inr (h = p)), hashpw = (\<lambda>salt p. Inr (salt @ p))\<rparr> ''s''
      (env_or ((\<lambda>_. None) ''SEED_ADMIN_PASSWORD'') ((\<lambda>_. ''admin'') ''Superuser password: '')) = Inr ''sadmin''"
    by (simp add: get_password_hash_def env_or_def)
  from fresh_deployment_starts [OF this refl] show ?thesis by blast
qed

text \<open>
  Two applications that start at once on such a database: both look a name up before either has
  created its row, and the second one's synchronisation raises, so that it does not start.
\<close>

lemma concurrent_startup_collides:
  assumes "create_with_bit name b w = (Inr row, w1)"
  shows "and_then (create_with_bit name b) (\<lambda>_. sync_loop rest k) w1 = (Inl IntegrityError, w1)"
  using assms by (auto simp: create_with_bit_def and_then_def Let_def split: if_splits)

subsection \<open>Masks of a database from before tenants\<close>

lemma roles_after_tenants:
  assumes "shape s = schema_at (Some ''4ad43bc4d43b'')" "consistent s"
  shows "\<exists>s'. run_script effect (rev_upgrade tenants_revision @ rev_upgrade tenant_permission_ceiling) s = Some s' \<and>
    rows_of s' ''roles'' = map (\<lambda>r. r @ [(''tenant_id'', Null), (''permission_mask'', Bytes_value (replicate 32 0))]) (rows_of s ''roles'')"
proof -
  note r2 = revision_runs [OF revisions_members(2) assms(1) [folded revision_ids(3)] assms(2), unfolded revision_ids]
  note r3 = revision_runs [OF revisions_members(3) _ r2(3), unfolded revision_ids, OF r2(2)]
  have "rows_of (fold change (rev_upgrade tenant_permission_ceiling) (fold change (rev_upgrade tenants_revision) s)) ''roles'' =
      map (\<lambda>r. r @ [(''tenant_id'', Null), (''permission_mask'', Bytes_value (replicate 32 0))]) (rows_of s ''roles'')"
    by (simp add: tenants_revision_def tenant_permission_ceiling_def added_value_def comp_def)
  with r2(1) r3(1) show ?thesis by (simp add: run_script_append)
qed

lemma zero_bytes: "from_be (replicate 32 0) = 0"
  by code_simp

text \<open>
  A role that had permissions with bits before tenants were introduced has none in its cached mask
  afterwards, although its rows are still there, and nothing at start-up looks at the masks.
\<close>

lemma upgraded_masks_are_empty:
  assumes engine: "conforms engine" and s: "shape s = schema_at (Some ''4ad43bc4d43b'')" "consistent s"
  shows "\<exists>s'. run_script engine (rev_upgrade tenants_revision @ rev_upgrade tenant_permission_ceiling) s = Some s' \<and>
    (\<forall>w role p b. rows_of s' ''roles'' = map role_row (roles (w_db w)) \<and> role \<in> set (roles (w_db w)) \<and>
       valid_mask (r_permission_mask role) \<and> p \<in> set (permissions (w_db w)) \<and> p_bit_position p = Some b \<and>
       (r_id role, p_id p) \<in> set (role_permissions (w_db w)) \<longrightarrow>
       r_permission_mask role = 0 \<and> \<not> masks_cached (w_db w))"
proof -
  from roles_after_tenants [OF s] obtain s' where s':
    "run_script effect (rev_upgrade tenants_revision @ rev_upgrade tenant_permission_ceiling) s = Some s'"
    "rows_of s' ''roles'' = map (\<lambda>r. r @ [(''tenant_id'', Null), (''permission_mask'', Bytes_value (replicate 32 0))])
       (rows_of s ''roles'')" by blast
  have zero: "r_permission_mask role = 0" if "rows_of s' ''roles'' = map role_row (roles (w_db w))"
    "role \<in> set (roles (w_db w))" "valid_mask (r_permission_mask role)" for w role
  proof -
    have "role_row role \<in> set (rows_of s' ''roles'')" using that(1,2) by simp
    then obtain r where "role_row role = r @ [(''tenant_id'', Null), (''permission_mask'', Bytes_value (replicate 32 0))]"
      unfolding s'(2) by auto
    from arg_cong [OF this, of last] have "be_bytes MASK_BYTES (r_permission_mask role) = replicate 32 0"
      by (simp add: role_row_def)
    with from_be_mask_bytes [OF that(3)] zero_bytes show ?thesis by simp
  qed
  have "\<not> masks_cached (w_db w)" if "r_permission_mask role = 0" "role \<in> set (roles (w_db w))"
    "p \<in> set (permissions (w_db w))" "p_bit_position p = Some b" "(r_id role, p_id p) \<in> set (role_permissions (w_db w))"
    for w role p b
  proof
    assume "masks_cached (w_db w)"
    with that(1,2) have "row_mask (w_db w) (r_id role) = 0" by (auto simp: masks_cached_def)
    with that bit_row_mask [of "w_db w" "r_id role" b] show False by (metis bit_0_eq bot_apply bot_bool_def)
  qed
  with zero s'(1) conforms_run [OF engine] show ?thesis by (intro exI [of _ s'] conjI allI impI) blast+
qed

subsection \<open>The environment of the migrations\<close>

text \<open>
  \<^verbatim>\<open>migrations/env.py\<close>. The URL of the database goes through the configuration parser of Python, in which
  a per cent sign starts an interpolation: two of them stand for one; what the parser makes of any
  other is the argument \<open>interpolation\<close>. Hence the URL is escaped before it is set.
\<close>

fun escape_percent :: "string \<Rightarrow> string" where
  "escape_percent [] = []"
| "escape_percent (c # cs) = (if c = CHR 37 then [CHR 37, CHR 37] else [c]) @ escape_percent cs"

definition configured_url :: "string \<Rightarrow> string option" where
  "configured_url database_url = (if database_url = [] then None else Some (escape_percent database_url))"

fun get_option :: "(string \<Rightarrow> string option) \<Rightarrow> string \<Rightarrow> string option" where
  "get_option interpolation [] = Some []"
| "get_option interpolation (c # cs) =
     (if c \<noteq> CHR 37 then map_option ((#) c) (get_option interpolation cs)
      else case cs of [] \<Rightarrow> interpolation (c # cs)
        | d # ds \<Rightarrow> if d = CHR 37 then map_option ((#) (CHR 37)) (get_option interpolation ds) else interpolation (c # cs))"

lemma configured_url_read_back:
  "configured_url u = Some v \<Longrightarrow> get_option interpolation v = Some u"
proof -
  have "get_option interpolation (escape_percent u) = Some u" by (induction u) auto
  then show "configured_url u = Some v \<Longrightarrow> get_option interpolation v = Some u"
    by (auto simp: configured_url_def split: if_splits)
qed

text \<open>
  \<open>do_run_migrations\<close> runs every revision in one transaction, and PostgreSQL rolls DDL back: a script
  that is refused somewhere leaves the database as it was.
\<close>

definition do_run_migrations :: "(ddl \<Rightarrow> tables \<Rightarrow> tables option) \<Rightarrow> ddl list \<Rightarrow> tables \<Rightarrow> bool \<times> tables" where
  "do_run_migrations engine script s = (case run_script engine script s of None \<Rightarrow> (False, s) | Some s' \<Rightarrow> (True, s'))"

lemma refused_downgrade_changes_nothing:
  assumes "conforms engine" "shape s = schema_at head_revision" "rows_of s ''roles'' = map role_row (roles (w_db w'))"
    and "create_root_tenant_role t m w = (Inr role, w')" "r \<in> set (roles (w_db w))" "r_name r = ''tenant-admin''"
  shows "do_run_migrations engine (rev_downgrade tenant_permission_ceiling @ rev_downgrade tenants_revision) s = (False, s)"
  using second_tenant_blocks_downgrade [OF assms] by (simp add: do_run_migrations_def)

end
