(* ===== verification/Wiring.thy ===== *)
theory Wiring
  imports Prelude
begin

text \<open>
  \<^verbatim>\<open>app/core/dependency_factory/\<close>: the factories that build the repositories and services of a
  request, and the constructors they call. Python checks no annotation, so a constructor takes any
  objects, by position; whether the factories put the right repository into each attribute is what
  is proved here. Resolving the dependencies is FastAPI's: \<open>resolves\<close> says what its documentation
  says, that a dependency is called with the values of its own dependencies, and that \<open>get_db\<close> is
  called once for a request.
\<close>

subsection \<open>Objects and their classes\<close>

text \<open>A session is known by a number; an object has a class and its attributes.\<close>

datatype object = Session nat | Background | Object string "(string \<times> object) list"

fun class_of :: "object \<Rightarrow> string" where
  "class_of (Session n) = ''AsyncSession''"
| "class_of Background = ''BackgroundTasks''"
| "class_of (Object c attributes) = c"

fun sessions_of :: "object \<Rightarrow> nat list" where
  "sessions_of (Session n) = [n]"
| "sessions_of Background = []"
| "sessions_of (Object c attributes) = concat (map (\<lambda>(a, x). sessions_of x) attributes)"

text \<open>The parameters of each \<open>__init__\<close>, with their annotations; each is assigned to the attribute of its name.\<close>

definition UserRepository_init :: "(string \<times> string) list" where
  "UserRepository_init = [(''db'', ''AsyncSession'')]"

definition RefreshTokenRepository_init :: "(string \<times> string) list" where
  "RefreshTokenRepository_init = [(''db'', ''AsyncSession'')]"

definition TenantRepository_init :: "(string \<times> string) list" where
  "TenantRepository_init = [(''db'', ''AsyncSession'')]"

definition RoleRepository_init :: "(string \<times> string) list" where
  "RoleRepository_init = [(''db'', ''AsyncSession'')]"

definition PermissionRepository_init :: "(string \<times> string) list" where
  "PermissionRepository_init = [(''db'', ''AsyncSession'')]"

definition RegisterUser_init :: "(string \<times> string) list" where
  "RegisterUser_init = [(''user_repo'', ''UserRepository''), (''bg_task'', ''BackgroundTasks'')]"

definition LoginUser_init :: "(string \<times> string) list" where
  "LoginUser_init = [(''user_repo'', ''UserRepository''), (''token_repo'', ''RefreshTokenRepository''), (''tenant_repo'', ''TenantRepository'')]"

definition LogoutUser_init :: "(string \<times> string) list" where
  "LogoutUser_init = [(''token_repo'', ''RefreshTokenRepository'')]"

definition Refresh_init :: "(string \<times> string) list" where
  "Refresh_init = [(''token_repo'', ''RefreshTokenRepository''), (''user_repo'', ''UserRepository''), (''tenant_repo'', ''TenantRepository'')]"

definition ResetPassword_init :: "(string \<times> string) list" where
  "ResetPassword_init = [(''user_repo'', ''UserRepository''), (''bg_task'', ''BackgroundTasks'')]"

definition VerifyMail_init :: "(string \<times> string) list" where
  "VerifyMail_init = [(''user_repo'', ''UserRepository'')]"

definition PasswordReset_init :: "(string \<times> string) list" where
  "PasswordReset_init = [(''user_repo'', ''UserRepository'')]"

definition GoogleOAuthService_init :: "(string \<times> string) list" where
  "GoogleOAuthService_init = [(''user_repo'', ''UserRepository''), (''token_repo'', ''RefreshTokenRepository''), (''tenant_repo'', ''TenantRepository'')]"

definition RoleService_init :: "(string \<times> string) list" where
  "RoleService_init = [(''repo'', ''RoleRepository''), (''permission_repo'', ''PermissionRepository'')]"

definition PermissionService_init :: "(string \<times> string) list" where
  "PermissionService_init = [(''repo'', ''PermissionRepository'')]"

definition TenantService_init :: "(string \<times> string) list" where
  "TenantService_init = [(''tenant_repo'', ''TenantRepository''), (''role_repo'', ''RoleRepository''), (''user_repo'', ''UserRepository'')]"

definition UserManagementService_init :: "(string \<times> string) list" where
  "UserManagementService_init = [(''user_repo'', ''UserRepository''), (''role_repo'', ''RoleRepository''), (''permission_repo'', ''PermissionRepository'')]"

definition constructors :: "(string \<times> (string \<times> string) list) list" where
  "constructors =
     [(''UserRepository'', UserRepository_init),
      (''RefreshTokenRepository'', RefreshTokenRepository_init),
      (''TenantRepository'', TenantRepository_init),
      (''RoleRepository'', RoleRepository_init),
      (''PermissionRepository'', PermissionRepository_init),
      (''RegisterUser'', RegisterUser_init),
      (''LoginUser'', LoginUser_init),
      (''LogoutUser'', LogoutUser_init),
      (''Refresh'', Refresh_init),
      (''ResetPassword'', ResetPassword_init),
      (''VerifyMail'', VerifyMail_init),
      (''PasswordReset'', PasswordReset_init),
      (''GoogleOAuthService'', GoogleOAuthService_init),
      (''RoleService'', RoleService_init),
      (''PermissionService'', PermissionService_init),
      (''TenantService'', TenantService_init),
      (''UserManagementService'', UserManagementService_init)]"

text \<open>A call of a class; a wrong number of arguments is a TypeError.\<close>

definition construct :: "string \<Rightarrow> object list \<Rightarrow> object option" where
  "construct c args = (case map_of constructors c of None \<Rightarrow> None
     | Some params \<Rightarrow> if length args = length params then Some (Object c (zip (map fst params) args)) else None)"

text \<open>What the annotations say: each attribute holds an object of its class, which is itself as it should be.\<close>

fun well_typed :: "object \<Rightarrow> bool" where
  "well_typed (Object c attributes) \<longleftrightarrow>
     map_of constructors c = Some (map (\<lambda>(a, x). (a, class_of x)) attributes) \<and>
     list_all (\<lambda>(a, x). well_typed x) attributes"
| "well_typed _ \<longleftrightarrow> True"

subsection \<open>The factories\<close>

text \<open>
  A parameter with its annotation and the dependency that gives its value; the annotated result;
  the class that the body calls and the parameters it passes, in order.
\<close>

record factory =
  fac_params :: "(string \<times> string \<times> string) list"
  fac_result :: string
  fac_class :: string
  fac_args :: "string list"

definition get_tenant_repository_for_auth :: factory where
  "get_tenant_repository_for_auth = \<lparr>fac_params =
       [(''db'', ''AsyncSession'', ''get_db'')],
     fac_result = ''TenantRepository'', fac_class = ''TenantRepository'', fac_args = [''db'']\<rparr>"

definition get_user_repository :: factory where
  "get_user_repository = \<lparr>fac_params =
       [(''db'', ''AsyncSession'', ''get_db'')],
     fac_result = ''UserRepository'', fac_class = ''UserRepository'', fac_args = [''db'']\<rparr>"

definition get_refresh_token_repository :: factory where
  "get_refresh_token_repository = \<lparr>fac_params =
       [(''db'', ''AsyncSession'', ''get_db'')],
     fac_result = ''RefreshTokenRepository'', fac_class = ''RefreshTokenRepository'', fac_args = [''db'']\<rparr>"

definition get_register_service :: factory where
  "get_register_service = \<lparr>fac_params =
       [(''user_repo'', ''UserRepository'', ''get_user_repository''),
        (''bg_task'', ''BackgroundTasks'', ''BackgroundTasks'')],
     fac_result = ''RegisterUser'', fac_class = ''RegisterUser'', fac_args = [''user_repo'', ''bg_task'']\<rparr>"

definition get_login_service :: factory where
  "get_login_service = \<lparr>fac_params =
       [(''user_repo'', ''UserRepository'', ''get_user_repository''),
        (''token_repo'', ''RefreshTokenRepository'', ''get_refresh_token_repository''),
        (''tenant_repo'', ''TenantRepository'', ''get_tenant_repository_for_auth'')],
     fac_result = ''LoginUser'', fac_class = ''LoginUser'', fac_args = [''user_repo'', ''token_repo'', ''tenant_repo'']\<rparr>"

definition get_logout_service :: factory where
  "get_logout_service = \<lparr>fac_params =
       [(''token_repo'', ''RefreshTokenRepository'', ''get_refresh_token_repository'')],
     fac_result = ''LogoutUser'', fac_class = ''LogoutUser'', fac_args = [''token_repo'']\<rparr>"

definition get_refresh_service :: factory where
  "get_refresh_service = \<lparr>fac_params =
       [(''token_repo'', ''RefreshTokenRepository'', ''get_refresh_token_repository''),
        (''user_repo'', ''UserRepository'', ''get_user_repository''),
        (''tenant_repo'', ''TenantRepository'', ''get_tenant_repository_for_auth'')],
     fac_result = ''Refresh'', fac_class = ''Refresh'', fac_args = [''token_repo'', ''user_repo'', ''tenant_repo'']\<rparr>"

definition get_reset_password_service :: factory where
  "get_reset_password_service = \<lparr>fac_params =
       [(''user_repo'', ''UserRepository'', ''get_user_repository''),
        (''bg_task'', ''BackgroundTasks'', ''BackgroundTasks'')],
     fac_result = ''ResetPassword'', fac_class = ''ResetPassword'', fac_args = [''user_repo'', ''bg_task'']\<rparr>"

definition get_verify_mail_service :: factory where
  "get_verify_mail_service = \<lparr>fac_params =
       [(''user_repo'', ''UserRepository'', ''get_user_repository'')],
     fac_result = ''VerifyMail'', fac_class = ''VerifyMail'', fac_args = [''user_repo'']\<rparr>"

definition get_password_reset_service :: factory where
  "get_password_reset_service = \<lparr>fac_params =
       [(''user_repo'', ''UserRepository'', ''get_user_repository'')],
     fac_result = ''PasswordReset'', fac_class = ''PasswordReset'', fac_args = [''user_repo'']\<rparr>"

definition get_google_oauth_service :: factory where
  "get_google_oauth_service = \<lparr>fac_params =
       [(''user_repo'', ''UserRepository'', ''get_user_repository''),
        (''token_repo'', ''RefreshTokenRepository'', ''get_refresh_token_repository''),
        (''tenant_repo'', ''TenantRepository'', ''get_tenant_repository_for_auth'')],
     fac_result = ''GoogleOAuthService'', fac_class = ''GoogleOAuthService'', fac_args = [''user_repo'', ''token_repo'', ''tenant_repo'']\<rparr>"

definition get_role_repository :: factory where
  "get_role_repository = \<lparr>fac_params =
       [(''db'', ''AsyncSession'', ''get_db'')],
     fac_result = ''RoleRepository'', fac_class = ''RoleRepository'', fac_args = [''db'']\<rparr>"

definition get_permission_repository :: factory where
  "get_permission_repository = \<lparr>fac_params =
       [(''db'', ''AsyncSession'', ''get_db'')],
     fac_result = ''PermissionRepository'', fac_class = ''PermissionRepository'', fac_args = [''db'']\<rparr>"

definition get_role_service :: factory where
  "get_role_service = \<lparr>fac_params =
       [(''repo'', ''RoleRepository'', ''get_role_repository''),
        (''permission_repo'', ''PermissionRepository'', ''get_permission_repository'')],
     fac_result = ''RoleService'', fac_class = ''RoleService'', fac_args = [''repo'', ''permission_repo'']\<rparr>"

definition get_permission_service :: factory where
  "get_permission_service = \<lparr>fac_params =
       [(''repo'', ''PermissionRepository'', ''get_permission_repository'')],
     fac_result = ''PermissionService'', fac_class = ''PermissionService'', fac_args = [''repo'']\<rparr>"

definition get_tenant_repository :: factory where
  "get_tenant_repository = \<lparr>fac_params =
       [(''db'', ''AsyncSession'', ''get_db'')],
     fac_result = ''TenantRepository'', fac_class = ''TenantRepository'', fac_args = [''db'']\<rparr>"

definition get_tenant_service :: factory where
  "get_tenant_service = \<lparr>fac_params =
       [(''tenant_repo'', ''TenantRepository'', ''get_tenant_repository''),
        (''role_repo'', ''RoleRepository'', ''get_role_repository''),
        (''user_repo'', ''UserRepository'', ''get_user_repository'')],
     fac_result = ''TenantService'', fac_class = ''TenantService'', fac_args = [''tenant_repo'', ''role_repo'', ''user_repo'']\<rparr>"

definition get_user_management_service :: factory where
  "get_user_management_service = \<lparr>fac_params =
       [(''user_repo'', ''UserRepository'', ''get_user_repository''),
        (''role_repo'', ''RoleRepository'', ''get_role_repository''),
        (''permission_repo'', ''PermissionRepository'', ''get_permission_repository'')],
     fac_result = ''UserManagementService'', fac_class = ''UserManagementService'', fac_args = [''user_repo'', ''role_repo'', ''permission_repo'']\<rparr>"

definition factories :: "(string \<times> factory) list" where
  "factories =
     [(''get_tenant_repository_for_auth'', get_tenant_repository_for_auth),
      (''get_user_repository'', get_user_repository),
      (''get_refresh_token_repository'', get_refresh_token_repository),
      (''get_register_service'', get_register_service),
      (''get_login_service'', get_login_service),
      (''get_logout_service'', get_logout_service),
      (''get_refresh_service'', get_refresh_service),
      (''get_reset_password_service'', get_reset_password_service),
      (''get_verify_mail_service'', get_verify_mail_service),
      (''get_password_reset_service'', get_password_reset_service),
      (''get_google_oauth_service'', get_google_oauth_service),
      (''get_role_repository'', get_role_repository),
      (''get_permission_repository'', get_permission_repository),
      (''get_role_service'', get_role_service),
      (''get_permission_service'', get_permission_service),
      (''get_tenant_repository'', get_tenant_repository),
      (''get_tenant_service'', get_tenant_service),
      (''get_user_management_service'', get_user_management_service)]"

text \<open>Calling a factory with the values of its dependencies.\<close>

definition call_factory :: "factory \<Rightarrow> object list \<Rightarrow> object option" where
  "call_factory f values =
     (let env = zip (map fst (fac_params f)) values in
      construct (fac_class f) (List.map_filter (map_of env) (fac_args f)))"

definition resolves :: "(string \<Rightarrow> object) \<Rightarrow> nat \<Rightarrow> bool" where
  "resolves solve session \<longleftrightarrow> solve ''get_db'' = Session session \<and> solve ''BackgroundTasks'' = Background \<and>
     list_all (\<lambda>(n, f). Some (solve n) = call_factory f (map (\<lambda>(x, c, dep). solve dep) (fac_params f))) factories"

lemmas init_defs = UserRepository_init_def RefreshTokenRepository_init_def TenantRepository_init_def
    RoleRepository_init_def PermissionRepository_init_def RegisterUser_init_def LoginUser_init_def
    LogoutUser_init_def Refresh_init_def ResetPassword_init_def VerifyMail_init_def
    PasswordReset_init_def GoogleOAuthService_init_def RoleService_init_def PermissionService_init_def
    TenantService_init_def UserManagementService_init_def

lemmas factory_defs = get_tenant_repository_for_auth_def get_user_repository_def get_refresh_token_repository_def
    get_register_service_def get_login_service_def get_logout_service_def get_refresh_service_def
    get_reset_password_service_def get_verify_mail_service_def get_password_reset_service_def
    get_google_oauth_service_def get_role_repository_def get_permission_repository_def
    get_role_service_def get_permission_service_def get_tenant_repository_def get_tenant_service_def
    get_user_management_service_def

text \<open>The parameters of a class by its name, and what a call of each factory makes of its dependencies.\<close>

lemma constructor_params:
  shows "map_of constructors ''UserRepository'' = Some UserRepository_init"
    and "map_of constructors ''RefreshTokenRepository'' = Some RefreshTokenRepository_init"
    and "map_of constructors ''TenantRepository'' = Some TenantRepository_init"
    and "map_of constructors ''RoleRepository'' = Some RoleRepository_init"
    and "map_of constructors ''PermissionRepository'' = Some PermissionRepository_init"
    and "map_of constructors ''RegisterUser'' = Some RegisterUser_init"
    and "map_of constructors ''LoginUser'' = Some LoginUser_init"
    and "map_of constructors ''LogoutUser'' = Some LogoutUser_init"
    and "map_of constructors ''Refresh'' = Some Refresh_init"
    and "map_of constructors ''ResetPassword'' = Some ResetPassword_init"
    and "map_of constructors ''VerifyMail'' = Some VerifyMail_init"
    and "map_of constructors ''PasswordReset'' = Some PasswordReset_init"
    and "map_of constructors ''GoogleOAuthService'' = Some GoogleOAuthService_init"
    and "map_of constructors ''RoleService'' = Some RoleService_init"
    and "map_of constructors ''PermissionService'' = Some PermissionService_init"
    and "map_of constructors ''TenantService'' = Some TenantService_init"
    and "map_of constructors ''UserManagementService'' = Some UserManagementService_init"
  by (simp_all add: constructors_def)

lemmas factory_params = factory_defs [THEN arg_cong [where f = fac_params], simplified factory.simps]

lemmas factory_results = factory_defs [THEN arg_cong [where f = fac_result], simplified factory.simps]

lemma factory_calls:
  shows "call_factory get_tenant_repository_for_auth [x] = Some (Object ''TenantRepository'' [(''db'', x)])"
    and "call_factory get_user_repository [x] = Some (Object ''UserRepository'' [(''db'', x)])"
    and "call_factory get_refresh_token_repository [x] = Some (Object ''RefreshTokenRepository'' [(''db'', x)])"
    and "call_factory get_register_service [x, y] = Some (Object ''RegisterUser'' [(''user_repo'', x), (''bg_task'', y)])"
    and "call_factory get_login_service [x, y, z] = Some (Object ''LoginUser'' [(''user_repo'', x), (''token_repo'', y), (''tenant_repo'', z)])"
    and "call_factory get_logout_service [x] = Some (Object ''LogoutUser'' [(''token_repo'', x)])"
    and "call_factory get_refresh_service [x, y, z] = Some (Object ''Refresh'' [(''token_repo'', x), (''user_repo'', y), (''tenant_repo'', z)])"
    and "call_factory get_reset_password_service [x, y] = Some (Object ''ResetPassword'' [(''user_repo'', x), (''bg_task'', y)])"
    and "call_factory get_verify_mail_service [x] = Some (Object ''VerifyMail'' [(''user_repo'', x)])"
    and "call_factory get_password_reset_service [x] = Some (Object ''PasswordReset'' [(''user_repo'', x)])"
    and "call_factory get_google_oauth_service [x, y, z] = Some (Object ''GoogleOAuthService'' [(''user_repo'', x), (''token_repo'', y), (''tenant_repo'', z)])"
    and "call_factory get_role_repository [x] = Some (Object ''RoleRepository'' [(''db'', x)])"
    and "call_factory get_permission_repository [x] = Some (Object ''PermissionRepository'' [(''db'', x)])"
    and "call_factory get_role_service [x, y] = Some (Object ''RoleService'' [(''repo'', x), (''permission_repo'', y)])"
    and "call_factory get_permission_service [x] = Some (Object ''PermissionService'' [(''repo'', x)])"
    and "call_factory get_tenant_repository [x] = Some (Object ''TenantRepository'' [(''db'', x)])"
    and "call_factory get_tenant_service [x, y, z] = Some (Object ''TenantService'' [(''tenant_repo'', x), (''role_repo'', y), (''user_repo'', z)])"
    and "call_factory get_user_management_service [x, y, z] = Some (Object ''UserManagementService'' [(''user_repo'', x), (''role_repo'', y), (''permission_repo'', z)])"
  by (simp_all add: factory_defs call_factory_def construct_def constructor_params init_defs List.map_filter_simps)

text \<open>The value of each factory, given how dependencies are resolved.\<close>

lemma repositories_resolved:
  assumes "resolves solve s"
  shows "solve ''get_db'' = Session s \<and>
      solve ''BackgroundTasks'' = Background \<and>
      solve ''get_tenant_repository_for_auth'' = Object ''TenantRepository'' [(''db'', Session s)] \<and>
      solve ''get_tenant_repository'' = Object ''TenantRepository'' [(''db'', Session s)] \<and>
      solve ''get_user_repository'' = Object ''UserRepository'' [(''db'', Session s)] \<and>
      solve ''get_refresh_token_repository'' = Object ''RefreshTokenRepository'' [(''db'', Session s)] \<and>
      solve ''get_role_repository'' = Object ''RoleRepository'' [(''db'', Session s)] \<and>
      solve ''get_permission_repository'' = Object ''PermissionRepository'' [(''db'', Session s)]"
  using assms by (simp add: resolves_def factories_def factory_params factory_calls)


text \<open>A resolver: recursion through the factories, two calls deep.\<close>

fun resolve :: "nat \<Rightarrow> nat \<Rightarrow> string \<Rightarrow> object" where
  "resolve 0 s n = (if n = ''get_db'' then Session s else Background)"
| "resolve (Suc k) s n = (case map_of factories n of None \<Rightarrow> resolve 0 s n
     | Some f \<Rightarrow> (case call_factory f (map (\<lambda>(x, c, dep). resolve k s dep) (fac_params f)) of
         None \<Rightarrow> Background | Some x \<Rightarrow> x))"

lemma factory_named:
  shows "map_of factories ''get_tenant_repository_for_auth'' = Some get_tenant_repository_for_auth"
    and "map_of factories ''get_user_repository'' = Some get_user_repository"
    and "map_of factories ''get_refresh_token_repository'' = Some get_refresh_token_repository"
    and "map_of factories ''get_register_service'' = Some get_register_service"
    and "map_of factories ''get_login_service'' = Some get_login_service"
    and "map_of factories ''get_logout_service'' = Some get_logout_service"
    and "map_of factories ''get_refresh_service'' = Some get_refresh_service"
    and "map_of factories ''get_reset_password_service'' = Some get_reset_password_service"
    and "map_of factories ''get_verify_mail_service'' = Some get_verify_mail_service"
    and "map_of factories ''get_password_reset_service'' = Some get_password_reset_service"
    and "map_of factories ''get_google_oauth_service'' = Some get_google_oauth_service"
    and "map_of factories ''get_role_repository'' = Some get_role_repository"
    and "map_of factories ''get_permission_repository'' = Some get_permission_repository"
    and "map_of factories ''get_role_service'' = Some get_role_service"
    and "map_of factories ''get_permission_service'' = Some get_permission_service"
    and "map_of factories ''get_tenant_repository'' = Some get_tenant_repository"
    and "map_of factories ''get_tenant_service'' = Some get_tenant_service"
    and "map_of factories ''get_user_management_service'' = Some get_user_management_service"
    and "map_of factories ''get_db'' = None" "map_of factories ''BackgroundTasks'' = None"
  by (simp_all add: factories_def)


end
