(* ===== verification/LogSetup.thy ===== *)
theory LogSetup
  imports Logging
begin

text \<open>
  \<^verbatim>\<open>app/core/logger/setup.py\<close>: the handlers of the application's logger, which records reach which of
  them, and the files they rotate. Handlers and rotation are those of Python's logging package.
\<close>

record handler =
  h_file :: "string option"
  h_level :: nat
  h_structured :: bool
  h_max_bytes :: nat
  h_backup_count :: nat

record app_logger =
  lg_level :: nat
  lg_propagate :: bool
  lg_handlers :: "handler list"

fun level_number :: "string \<Rightarrow> nat" where
  "level_number l = (if l = ''DEBUG'' then 10 else if l = ''INFO'' then 20
     else if l = ''WARNING'' then 30 else if l = ''ERROR'' then 40 else 50)"

definition setup_logger :: app_logger where
  "setup_logger =
     (let file = (\<lambda>name level structured backups.
            \<lparr>h_file = Some name, h_level = level_number level, h_structured = structured,
             h_max_bytes = 10 * 1024 * 1024, h_backup_count = backups\<rparr>) in
      \<lparr>lg_level = level_number ''DEBUG'', lg_propagate = False,
       lg_handlers =
        [\<lparr>h_file = None, h_level = level_number ''INFO'', h_structured = False, h_max_bytes = 0, h_backup_count = 0\<rparr>,
         file ''logs/app_beautiful.log'' ''DEBUG'' False 5,
         file ''logs/app_structured.json'' ''DEBUG'' True 5,
         file ''logs/errors.log'' ''ERROR'' False 10]\<rparr>)"

text \<open>The handlers a record reaches; None is the console.\<close>

definition reached :: "app_logger \<Rightarrow> log_record \<Rightarrow> string option list" where
  "reached l r = (let n = level_number (record_level r) in
     if n < lg_level l then [] else map h_file (filter (\<lambda>h. h_level h \<le> n) (lg_handlers l)))"

lemma reached_errors: "Some ''logs/errors.log'' \<in> set (reached setup_logger r) \<longleftrightarrow> 40 \<le> level_number (record_level r)"
  by (auto simp: reached_def setup_logger_def Let_def)

lemma reached_console: "None \<in> set (reached setup_logger r) \<longleftrightarrow> 20 \<le> level_number (record_level r)"
  by (auto simp: reached_def setup_logger_def Let_def)

lemma reached_files:
  "record_level r \<in> {''DEBUG'', ''INFO'', ''WARNING'', ''ERROR'', ''CRITICAL''} \<Longrightarrow>
     {Some ''logs/app_beautiful.log'', Some ''logs/app_structured.json''} \<subseteq> set (reached setup_logger r)"
  by (auto simp: reached_def setup_logger_def Let_def)

subsection \<open>Rotation\<close>

text \<open>
  A rotating file by the sizes of the current file and of its backups, newest first. A line is
  given by its characters and the bytes they are encoded in: the decision to roll over adds the
  characters to the bytes already written. Python releases differ on whether an empty file is
  rolled over, which is the argument \<open>roll_empty\<close>.
\<close>

record rotating =
  rf_size :: nat
  rf_backups :: "nat list"

definition emit_line :: "bool \<Rightarrow> handler \<Rightarrow> nat \<times> nat \<Rightarrow> rotating \<Rightarrow> rotating" where
  "emit_line roll_empty h line f =
     (let rolls = 0 < h_max_bytes h \<and> (roll_empty \<or> 0 < rf_size f) \<and> h_max_bytes h \<le> rf_size f + fst line;
          f' = (if rolls then \<lparr>rf_size = 0, rf_backups = take (h_backup_count h) (rf_size f # rf_backups f)\<rparr> else f)
      in f'\<lparr>rf_size := rf_size f' + snd line\<rparr>)"

definition rotation_inv :: "handler \<Rightarrow> nat \<Rightarrow> rotating \<Rightarrow> bool" where
  "rotation_inv h m f \<longleftrightarrow> length (rf_backups f) \<le> h_backup_count h \<and>
     (\<forall>n \<in> set (rf_size f # rf_backups f). n \<le> h_max_bytes h + 4 * m)"

lemma rotation_inv_emit:
  assumes "fst line \<le> m" "snd line \<le> 4 * fst line" "rotation_inv h m f" "0 < h_max_bytes h"
  shows "rotation_inv h m (emit_line roll_empty h line f)"
proof (cases "(roll_empty \<or> 0 < rf_size f) \<and> h_max_bytes h \<le> rf_size f + fst line")
  case True
  moreover have "set (take (h_backup_count h) (rf_size f # rf_backups f)) \<subseteq> set (rf_size f # rf_backups f)"
    by (rule set_take_subset)
  then have "\<forall>n \<in> set (take (h_backup_count h) (rf_size f # rf_backups f)). n \<le> h_max_bytes h + 4 * m"
    using assms(3) unfolding rotation_inv_def by blast
  ultimately show ?thesis using assms by (simp add: rotation_inv_def emit_line_def Let_def)
next
  case False
  then have "rf_size f + snd line \<le> h_max_bytes h + 4 * m"
    using assms(1,2) by (cases "rf_size f = 0") auto
  moreover have "emit_line roll_empty h line f = f\<lparr>rf_size := rf_size f + snd line\<rparr>"
    using False by (auto simp: emit_line_def Let_def)
  ultimately show ?thesis using assms(3) by (simp add: rotation_inv_def)
qed

lemma file_handlers: "list_all (\<lambda>h. h_file h = None \<or> h_max_bytes h = 10485760 \<and> h_backup_count h \<le> 10)
    (lg_handlers setup_logger)"
  by (simp add: setup_logger_def Let_def)

text \<open>
  Whatever is logged, a rotating handler never keeps more than its backups and the current file,
  none of which is longer than the limit by more than one encoded line.
\<close>

lemma log_files_bounded:
  assumes "h \<in> set (lg_handlers setup_logger)" "h_file h \<noteq> None"
    and "\<forall>line \<in> set ls. fst line \<le> m \<and> snd line \<le> 4 * fst line"
    and f: "f = fold (emit_line roll_empty h) ls \<lparr>rf_size = 0, rf_backups = []\<rparr>"
  shows "length (rf_backups f) \<le> 10" "n \<in> set (rf_size f # rf_backups f) \<Longrightarrow> n \<le> 10485760 + 4 * m"
proof -
  have h: "h_max_bytes h = 10485760" "h_backup_count h \<le> 10"
    using assms(1,2) file_handlers by (auto simp: list_all_iff)
  have "rotation_inv h m (fold (emit_line roll_empty h) ls f0)" if "rotation_inv h m f0" for f0
    using assms(3) that
  proof (induction ls arbitrary: f0)
    case (Cons line ls)
    then show ?case using h(1) by (simp add: rotation_inv_emit)
  qed simp
  moreover have "rotation_inv h m \<lparr>rf_size = 0, rf_backups = []\<rparr>" by (simp add: rotation_inv_def)
  ultimately have inv: "rotation_inv h m f" unfolding f by blast
  then have "length (rf_backups f) \<le> h_backup_count h" by (simp add: rotation_inv_def)
  also note h(2)
  finally show "length (rf_backups f) \<le> 10" .
  have "\<forall>n \<in> set (rf_size f # rf_backups f). n \<le> 10485760 + 4 * m"
    using inv unfolding rotation_inv_def h(1) by (rule conjunct2)
  then show "n \<le> 10485760 + 4 * m" if "n \<in> set (rf_size f # rf_backups f)"
    using that by (rule bspec)
qed

subsection \<open>The identifier of a request\<close>

text \<open>
  \<^verbatim>\<open>app/core/logger/context.py\<close>: a context variable. Every task has a context of its own, which a
  new task copies from the one that creates it; tasks and contexts are known by numbers.
\<close>

type_synonym contexts = "nat \<Rightarrow> string option"

definition request_id_var :: contexts where "request_id_var = (\<lambda>_. None)"

definition set_request_id :: "nat \<Rightarrow> string \<Rightarrow> contexts \<Rightarrow> contexts" where
  "set_request_id task request_id ctx = ctx(task := Some request_id)"

definition get_request_id :: "nat \<Rightarrow> contexts \<Rightarrow> string option" where
  "get_request_id task ctx = ctx task"

datatype context_step = Set_id nat string | Create_task nat nat

fun in_context :: "context_step \<Rightarrow> contexts \<Rightarrow> contexts" where
  "in_context (Set_id task request_id) ctx = set_request_id task request_id ctx"
| "in_context (Create_task parent child) ctx = ctx(child := ctx parent)"

text \<open>
  The lines of one request carry its identifier: after the middleware has set it in the task that
  serves the request, what other tasks do, in any order, leaves it, as long as none of them sets
  the variable of this task or is given its number; and a task that this one creates has it too.
\<close>

lemma request_id_of_task:
  assumes "\<forall>st \<in> set sts. case st of Set_id t r \<Rightarrow> t \<noteq> task | Create_task p c \<Rightarrow> c \<noteq> task"
  shows "get_request_id task (fold in_context sts (set_request_id task request_id ctx)) = Some request_id"
    and "get_request_id child (in_context (Create_task task child)
      (fold in_context sts (set_request_id task request_id ctx))) = Some request_id"
proof -
  have keep: "fold in_context sts ctx' task = ctx' task" for ctx'
    using assms
  proof (induction sts arbitrary: ctx')
    case (Cons st sts)
    then show ?case by (cases st) (simp_all add: set_request_id_def)
  qed simp
  show "get_request_id task (fold in_context sts (set_request_id task request_id ctx)) = Some request_id"
    "get_request_id child (in_context (Create_task task child)
      (fold in_context sts (set_request_id task request_id ctx))) = Some request_id"
    by (simp_all add: get_request_id_def keep set_request_id_def)
qed

end
